theory Spec2Isabelle
  imports Complex_Main "HOL-Library.Multiset"
begin

section \<open>The PO receipt script (POReceiptShortcut.js)\<close>

text \<open>
  A shallow embedding of the class \<^verbatim>\<open>POReceiptShortcut\<close>: the receipt workflow that validates
  the screen fields, looks the purchase-order line up, warns, branches on the item's control
  method, submits a warehouse receipt and rolls equipment records back on failure.

  Conventions of the embedding.
  \<^item> A JavaScript value held in a field of the script or of a remote record is a
    \<open>string option\<close>: \<open>None\<close> stands for \<^verbatim>\<open>undefined\<close> and \<^verbatim>\<open>null\<close>.
  \<^item> A string is a list of 8-bit characters (code units below 256).
  \<^item> A number is the exact decimal value, a \<open>rat\<close>; the rounding of a decimal to a binary64
    float is outside the model.
  \<^item> A thrown \<^verbatim>\<open>Error\<close> is a value of the datatype \<open>error\<close>, one constructor per \<^verbatim>\<open>throw\<close>
    or \<^verbatim>\<open>reject\<close> site; the text of its message is not modelled.
  \<^item> The remote system answers a request with an outcome that depends on the request only;
    the operator is a script of answers to the dialogs. Both are fields of \<open>world\<close>.
  \<^item> Requests issued together (\<^verbatim>\<open>Promise.all\<close>) are answered in an order that is a
    parameter of \<open>world\<close>, and so is the number of late creation answers that arrive
    while a rollback waits; a state is the state of the instance when the answers to all
    the requests issued so far have arrived.
  \<^item> The requests issued are appended to \<open>trace\<close>, the dialogs and messages shown to
    \<open>shown\<close>, the log lines of the rollback to \<open>logs\<close>. Timing, progress bar and the other
    log lines are left out.
\<close>

subsection \<open>Values and numbers\<close>

type_synonym jsval = "string option"

definition truthy :: "jsval \<Rightarrow> bool" where
  "truthy v = (case v of None \<Rightarrow> False | Some s \<Rightarrow> s \<noteq> [])"

text \<open>Interpolation of a value in a template string.\<close>

definition interpolate :: "jsval \<Rightarrow> string" where
  "interpolate v = (case v of None \<Rightarrow> ''undefined'' | Some s \<Rightarrow> s)"

definition isDigit :: "char \<Rightarrow> bool" where
  "isDigit c = (c \<in> set ''0123456789'')"

definition digitVal :: "char \<Rightarrow> nat" where
  "digitVal c = of_char c - 48"

fun digitsVal :: "nat \<Rightarrow> string \<Rightarrow> nat" where
  "digitsVal acc [] = acc"
| "digitsVal acc (c # cs) = digitsVal (10 * acc + digitVal c) cs"

text \<open>
  \<^verbatim>\<open>parseFloat\<close> on a string of digits, dots and minus signs (all that \<^verbatim>\<open>num\<close> passes to it):
  the longest prefix that is a decimal literal, an optional sign, digits, an optional dot and
  digits, with a digit on one side of the dot at least. \<open>None\<close> is \<^verbatim>\<open>NaN\<close>.
\<close>

definition parseFloat :: "string \<Rightarrow> rat option" where
  "parseFloat s =
     (let neg = (s \<noteq> [] \<and> hd s = CHR ''-'');
          body = (if neg then tl s else s);
          ip = takeWhile isDigit body;
          rest = dropWhile isDigit body;
          fp = (if rest \<noteq> [] \<and> hd rest = CHR ''.'' then takeWhile isDigit (tl rest) else []);
          v = of_nat (digitsVal 0 ip) + of_nat (digitsVal 0 fp) / 10 ^ length fp
      in if ip = [] \<and> fp = [] then None else Some (if neg then - v else v))"

text \<open>The regular expression \<^verbatim>\<open>/[^\d.-]/g\<close> removes every character that \<open>numChar\<close> rejects.\<close>

definition numChar :: "char \<Rightarrow> bool" where
  "numChar c = (isDigit c \<or> c = CHR ''.'' \<or> c = CHR ''-'')"

text \<open>
  \<^verbatim>\<open>num(value) { return parseFloat((value || '0').toString().replace(/[^\d.-]/g, '')) || 0; }\<close>
\<close>

definition num :: "jsval \<Rightarrow> rat" where
  "num v =
     (let s = (if truthy v then the v else ''0'')
      in case parseFloat (filter numChar s) of None \<Rightarrow> 0 | Some x \<Rightarrow> x)"

text \<open>\<^verbatim>\<open>String.prototype.trim\<close>, on the white space there is below code 256.\<close>

definition isSpace :: "char \<Rightarrow> bool" where
  "isSpace c = (of_char c \<in> {9, 10, 11, 12, 13, 32, 160 :: nat})"

definition trim :: "string \<Rightarrow> string" where
  "trim s = rev (dropWhile isSpace (rev (dropWhile isSpace s)))"

subsection \<open>The remote system, the operator and the state of a run\<close>

record mi_request =
  program :: string
  transaction :: string
  mirecord :: "(string \<times> jsval) list"
  maxReturnedRecords :: nat

record mi_error =
  statusCode :: int
  errorMessage :: string

text \<open>
  A request resolves with a response, of which the script reads \<^verbatim>\<open>item\<close> only
  (\<open>Resolved None\<close>: no response or no item), or is rejected with an error.
\<close>

datatype mi_outcome = Resolved "(string \<times> string) list option" | Rejected mi_error

datatype category = HeaderLevel | PackageLineLevel | OtherStatus

datatype error =
    MissingFields "string list"
  | NoRecord string
  | RemoteError mi_error
  | LocationRequired
  | UserCancelled string
  | LimitExceeded rat nat
  | AlreadyExists string string jsval
  | StatusUnavailable
  | ProcessingFailed jsval category

datatype warning = WmsManaged | OverReceipt rat

datatype violation = Blank nat | TooLong nat | InvalidChars nat

datatype lot_violation = LotNumberRequired | ExpirationRequired

datatype ui_event =
    Warned warning
  | SerialPrompt rat "nat list"
  | InvalidInput "violation list"
  | DuplicatesDetected "string list"
  | LotPrompt
  | LotInvalid "lot_violation list"
  | ConfirmPrompt jsval
  | SuccessDialog
  | ErrorDialog error

datatype log_event =
    RollbackNothing
  | RollbackStart nat
  | DeleteOk string
  | DeleteFailed string mi_error
  | RollbackSummary nat nat

record receipt_line =
  BANO :: jsval
  QTY :: jsval
  EXPI :: jsval

record state =
  PUNO :: jsval
  SUNO :: jsval
  WHLO :: jsval
  PNLI :: jsval
  PNLS :: jsval
  RVQA :: jsval
  WHSL :: jsval
  ITNO :: jsval
  OEND :: jsval
  PUPR :: jsval
  RORC :: jsval
  RORN :: jsval
  RORL :: jsval
  ITDS :: jsval
  GETY :: jsval
  PUDT :: jsval
  CUCD :: jsval
  FACI :: jsval
  isWmsWhs :: bool
  EXPD :: jsval
  INDI :: jsval
  TPCD :: jsval
  RMQA :: jsval
  CUNO :: jsval
  MSGN :: jsval
  createdEquipment :: "(jsval \<times> string) list option"
  trace :: "mi_request list"
  shown :: "ui_event list"
  logs :: "log_event list"

record world =
  mi :: "mi_request \<Rightarrow> mi_outcome"
  arrival :: "mi_request list \<Rightarrow> nat list"
  duringRollback :: "mi_request list \<Rightarrow> nat"
  fieldValue :: "string \<Rightarrow> jsval"
  ctrlValue :: "string \<Rightarrow> jsval"
  warnProceed :: "warning \<Rightarrow> bool"
  serialAttempts :: "string list list"
  lotAttempts :: "(string \<times> string) list"
  confirmProceed :: bool
  today :: string

text \<open>The state of a fresh instance: the constructor sets none of these fields.\<close>

definition initial :: state where
  "initial = \<lparr>PUNO = None, SUNO = None, WHLO = None, PNLI = None, PNLS = None, RVQA = None,
     WHSL = None, ITNO = None, OEND = None, PUPR = None, RORC = None, RORN = None, RORL = None,
     ITDS = None, GETY = None, PUDT = None, CUCD = None, FACI = None, isWmsWhs = False,
     EXPD = None, INDI = None, TPCD = None, RMQA = None, CUNO = None, MSGN = None,
     createdEquipment = None, trace = [], shown = [], logs = []\<rparr>"

text \<open>The tracked equipment records; a list that was never assigned holds none.\<close>

definition tracked :: "state \<Rightarrow> (jsval \<times> string) list" where
  "tracked st = (case createdEquipment st of None \<Rightarrow> [] | Some eqs \<Rightarrow> eqs)"

text \<open>
  \<^verbatim>\<open>await this.mi.executeRequest(rq)\<close>: \<open>issue rq st\<close> records the request and
  \<open>mi w rq\<close> is its outcome.
\<close>

definition issue :: "mi_request \<Rightarrow> state \<Rightarrow> state" where
  "issue rq st = st\<lparr>trace := trace st @ [rq]\<rparr>"

definition request :: "string \<Rightarrow> string \<Rightarrow> (string \<times> jsval) list \<Rightarrow> nat \<Rightarrow> mi_request" where
  "request p t r m = \<lparr>program = p, transaction = t, mirecord = r, maxReturnedRecords = m\<rparr>"

text \<open>A step that throws ends the steps after it: \<open>andThen f g\<close> runs \<open>g\<close> when \<open>f\<close> returned.\<close>

definition andThen ::
  "(state \<Rightarrow> (error + 'a) \<times> state) \<Rightarrow> ('a \<Rightarrow> state \<Rightarrow> (error + 'b) \<times> state) \<Rightarrow>
   state \<Rightarrow> (error + 'b) \<times> state" where
  "andThen f g st = (case f st of (Inl e, st1) \<Rightarrow> (Inl e, st1) | (Inr x, st1) \<Rightarrow> g x st1)"

text \<open>
  \<^verbatim>\<open>Promise.all\<close> over requests issued together: the answers arrive in an order the script
  does not control. The order is a parameter: at each step the next answer is one of those
  still pending, chosen by the next number of \<open>ps\<close> (the first pending one when \<open>ps\<close> is
  exhausted). The first rejection in this order rejects the whole.
\<close>

function arrivalOrder :: "nat list \<Rightarrow> 'a list \<Rightarrow> 'a list" where
  "arrivalOrder ps [] = []"
| "arrivalOrder ps (x # xs) =
     (let k = (case ps of [] \<Rightarrow> 0 | p # _ \<Rightarrow> p mod Suc (length xs))
      in (x # xs) ! k # arrivalOrder (tl ps) (take k (x # xs) @ drop (Suc k) (x # xs)))"
  by pat_completeness auto
termination
  by (relation "measure (\<lambda>(ps, xs). length xs)") (auto split: list.splits)

fun firstError :: "(error + 'a) list \<Rightarrow> error option" where
  "firstError [] = None"
| "firstError (Inl e # rs) = Some e"
| "firstError (Inr _ # rs) = firstError rs"

subsection \<open>Validation of the screen fields and the look-ups\<close>

definition validateFields :: "world \<Rightarrow> state \<Rightarrow> (error + unit) \<times> state" where
  "validateFields w st =
     (let st1 = st\<lparr>PUNO := fieldValue w ''WWPUNO'', SUNO := fieldValue w ''WWSUNO'',
                   WHLO := fieldValue w ''WWWHLO'', PNLI := fieldValue w ''PNLI'',
                   PNLS := fieldValue w ''PNLS'', RVQA := ctrlValue w ''RVQA'',
                   WHSL := fieldValue w ''WHSL'', ITNO := fieldValue w ''ITNO'',
                   OEND := fieldValue w ''OEND''\<rparr>;
          missingFields = map fst (filter (\<lambda>(name, v). \<not> truthy v)
            [(''PUNO'', PUNO st1), (''PNLI'', PNLI st1), (''PNLS'', PNLS st1),
             (''RVQA'', RVQA st1), (''ITNO'', ITNO st1), (''WHLO'', WHLO st1),
             (''SUNO'', SUNO st1), (''OEND'', OEND st1)])
      in if length missingFields > 0 then (Inl (MissingFields missingFields), st1)
         else (Inr (), st1))"

definition getLineRequest :: "state \<Rightarrow> mi_request" where
  "getLineRequest st = request ''PPS200MI'' ''GetLine''
     [(''PUNO'', PUNO st), (''PNLI'', PNLI st), (''PNLS'', PNLS st)] 1"

definition getPOLine :: "world \<Rightarrow> state \<Rightarrow> (error + unit) \<times> state" where
  "getPOLine w st =
     (let st1 = issue (getLineRequest st) st
      in case mi w (getLineRequest st) of
           Rejected e \<Rightarrow> (Inl (RemoteError e), st1)
         | Resolved None \<Rightarrow> (Inl (NoRecord ''PO line retrieval''), st1)
         | Resolved (Some item) \<Rightarrow>
             (Inr (), st1\<lparr>PUPR := map_of item ''PUPR'', RORC := map_of item ''RORC'',
                           RORN := map_of item ''RORN'', RORL := map_of item ''RORL'',
                           ITDS := map_of item ''ITDS'', GETY := map_of item ''GETY''\<rparr>))"

text \<open>The five blocks of \<^verbatim>\<open>lookups\<close>, in the order of the source.\<close>

definition getHeadRequest :: "state \<Rightarrow> mi_request" where
  "getHeadRequest st = request ''PPS200MI'' ''GetHead'' [(''PUNO'', PUNO st)] 1"

definition lookupHeader :: "world \<Rightarrow> state \<Rightarrow> (error + unit) \<times> state" where
  "lookupHeader w st =
     (let st1 = issue (getHeadRequest st) st
      in case mi w (getHeadRequest st) of
           Rejected e \<Rightarrow> (Inl (RemoteError e), st1)
         | Resolved None \<Rightarrow> (Inl (NoRecord ''PO header retrieval''), st1)
         | Resolved (Some header) \<Rightarrow>
             (Inr (), st1\<lparr>PUDT := map_of header ''PUDT'', CUCD := map_of header ''CUCD'',
                           FACI := map_of header ''FACI''\<rparr>))"

definition whsRequest :: "state \<Rightarrow> mi_request" where
  "whsRequest st = request ''MMS009MI'' ''Get''
     [(''WHGR'', Some ''WMSWHSE''), (''WHLO'', WHLO st)] 1"

definition lookupWarehouse :: "world \<Rightarrow> state \<Rightarrow> (error + unit) \<times> state" where
  "lookupWarehouse w st =
     (let st1 = issue (whsRequest st) st
      in case mi w (whsRequest st) of
           Rejected e \<Rightarrow> (Inl (RemoteError e), st1)
         | Resolved whs \<Rightarrow> (Inr (), st1\<lparr>isWmsWhs := (whs \<noteq> None)\<rparr>))"

definition itemRequest :: "state \<Rightarrow> mi_request" where
  "itemRequest st = request ''MMS200MI'' ''GetItmBasic''
     [(''ITNO'', ITNO st), (''ALFM'', Some ''1'')] 1"

definition isNonMaterial :: "state \<Rightarrow> bool" where
  "isNonMaterial st = (INDI st = Some ''0'' \<and> TPCD st = Some ''13'')"

definition lookupItem :: "world \<Rightarrow> state \<Rightarrow> (error + unit) \<times> state" where
  "lookupItem w st =
     (let st1 = issue (itemRequest st) st
      in case mi w (itemRequest st) of
           Rejected e \<Rightarrow> (Inl (RemoteError e), st1)
         | Resolved None \<Rightarrow> (Inl (NoRecord ''Item details retrieval''), st1)
         | Resolved (Some itm) \<Rightarrow>
             (let st2 = st1\<lparr>EXPD := map_of itm ''EXPD'', INDI := map_of itm ''INDI'',
                             TPCD := map_of itm ''TPCD''\<rparr>
              in if \<not> isNonMaterial st2 \<and> \<not> truthy (WHSL st2) then (Inl LocationRequired, st2)
                 else (Inr (), st2)))"

definition remRequest :: "state \<Rightarrow> mi_request" where
  "remRequest st = request ''PPS001MI'' ''GetBasicData2''
     [(''PUNO'', PUNO st), (''PNLI'', PNLI st), (''PNLS'', PNLS st)] 1"

definition lookupRemaining :: "world \<Rightarrow> state \<Rightarrow> (error + unit) \<times> state" where
  "lookupRemaining w st =
     (let st1 = issue (remRequest st) st
      in case mi w (remRequest st) of
           Rejected e \<Rightarrow> (Inl (RemoteError e), st1)
         | Resolved None \<Rightarrow> (Inl (NoRecord ''Remaining quantity retrieval''), st1)
         | Resolved (Some rem) \<Rightarrow> (Inr (), st1\<lparr>RMQA := map_of rem ''RSTQ''\<rparr>))"

definition customerRequest :: "state \<Rightarrow> mi_request" where
  "customerRequest st = request ''OIS100MI'' ''GetOrderHead'' [(''ORNO'', RORN st)] 1"

definition lookupCustomer :: "world \<Rightarrow> state \<Rightarrow> (error + unit) \<times> state" where
  "lookupCustomer w st =
     (if RORC st = Some ''3'' \<and> truthy (RORN st) then
        (let st1 = issue (customerRequest st) st
         in case mi w (customerRequest st) of
              Rejected e \<Rightarrow> (Inl (RemoteError e), st1)
            | Resolved None \<Rightarrow> (Inl (NoRecord ''Customer order details retrieval''), st1)
            | Resolved (Some c) \<Rightarrow> (Inr (), st1\<lparr>CUNO := map_of c ''CUNO''\<rparr>))
      else (Inr (), st))"

definition lookups :: "world \<Rightarrow> state \<Rightarrow> (error + unit) \<times> state" where
  "lookups w =
     andThen (lookupHeader w) (\<lambda>_.
     andThen (lookupWarehouse w) (\<lambda>_.
     andThen (lookupItem w) (\<lambda>_.
     andThen (lookupRemaining w) (\<lambda>_. lookupCustomer w))))"

subsection \<open>Warnings and dialogs\<close>

text \<open>
  A warning dialog is shown and the operator proceeds or cancels (the Cancel button, the
  escape key and the close box all reject).
\<close>

definition dialogWarn :: "world \<Rightarrow> warning \<Rightarrow> state \<Rightarrow> (error + unit) \<times> state" where
  "dialogWarn w msg st =
     (let st1 = st\<lparr>shown := shown st @ [Warned msg]\<rparr>
      in if warnProceed w msg then (Inr (), st1)
         else (Inl (UserCancelled ''Operation cancelled by user''), st1))"

definition warnWms :: "world \<Rightarrow> state \<Rightarrow> (error + unit) \<times> state" where
  "warnWms w st =
     (if isWmsWhs st \<and> GETY st \<noteq> Some ''24'' then dialogWarn w WmsManaged st else (Inr (), st))"

definition warnOverReceipt :: "world \<Rightarrow> state \<Rightarrow> (error + unit) \<times> state" where
  "warnOverReceipt w st =
     (if num (RVQA st) > num (RMQA st) then
        (let diff = num (RVQA st) - num (RMQA st) in dialogWarn w (OverReceipt diff) st)
      else (Inr (), st))"

definition warnings :: "world \<Rightarrow> state \<Rightarrow> (error + unit) \<times> state" where
  "warnings w = andThen (warnWms w) (\<lambda>_. warnOverReceipt w)"

definition promptConfirm :: "world \<Rightarrow> state \<Rightarrow> (error + unit) \<times> state" where
  "promptConfirm w st =
     (let st1 = st\<lparr>shown := shown st @ [ConfirmPrompt (RVQA st)]\<rparr>
      in if confirmProceed w then (Inr (), st1)
         else (Inl (UserCancelled ''Receipt cancelled by user''), st1))"

subsection \<open>The serial and lot prompts\<close>

definition MAX_SERIALS :: nat where
  "MAX_SERIALS = 25"

text \<open>The values \<open>i\<close> takes in \<^verbatim>\<open>for (let i = 0; i < qty; i++)\<close>, from \<open>i\<close> on.\<close>

function fieldIndices :: "rat \<Rightarrow> nat \<Rightarrow> nat list" where
  "fieldIndices qty i = (if of_nat i < qty then i # fieldIndices qty (Suc i) else [])"
  by pat_completeness auto
termination
proof (relation "measure (\<lambda>(qty, i). nat \<lceil>qty\<rceil> - i)")
  show "wf (measure (\<lambda>(qty :: rat, i). nat \<lceil>qty\<rceil> - i))"
    by simp
next
  fix qty :: rat and i :: nat
  assume "of_nat i < qty"
  then have "int i < \<lceil>qty\<rceil>"
    by (simp add: less_ceiling_iff)
  then show "((qty, Suc i), (qty, i)) \<in> measure (\<lambda>(qty, i). nat \<lceil>qty\<rceil> - i)"
    by simp
qed

declare fieldIndices.simps [simp del]

text \<open>The character class of \<^verbatim>\<open>/^[A-Z0-9\-]+$/\<close>.\<close>

definition serialChar :: "char \<Rightarrow> bool" where
  "serialChar c = (c \<in> set ''ABCDEFGHIJKLMNOPQRSTUVWXYZ0123456789-'')"

text \<open>
  The operator's entry is the list of the values of the input fields \<^verbatim>\<open>serial0\<close>,
  \<^verbatim>\<open>serial1\<close>, ... when Save is clicked; a field the entry does not reach is blank.
\<close>

definition fieldVal :: "string list \<Rightarrow> nat \<Rightarrow> string" where
  "fieldVal vals i = (if i < length vals then vals ! i else [])"

text \<open>
  The tests of the validation loop of the Save handler on the trimmed value of field \<open>i\<close>:
  the entry that \<^verbatim>\<open>invalid.push\<close> adds, if any.
\<close>

definition entryViolation :: "nat \<Rightarrow> string \<Rightarrow> violation option" where
  "entryViolation i val =
     (if val = [] then Some (Blank (i + 1))
      else if length val > 20 then Some (TooLong (i + 1))
      else if \<not> list_all serialChar val then Some (InvalidChars (i + 1))
      else None)"

text \<open>The body of the loop, on the pair \<open>(serials, invalid)\<close>.\<close>

definition checkEntry ::
  "string list \<Rightarrow> string list \<times> violation list \<Rightarrow> nat \<Rightarrow> string list \<times> violation list" where
  "checkEntry vals acc i =
     (let val = trim (fieldVal vals i)
      in case entryViolation i val of
           Some v \<Rightarrow> (fst acc, snd acc @ [v])
         | None \<Rightarrow> (fst acc @ [val], snd acc))"

text \<open>The \<^verbatim>\<open>forEach\<close> that collects the repeated serials, with the set \<open>seen\<close>.\<close>

fun findDuplicates :: "string set \<Rightarrow> string list \<Rightarrow> string list \<Rightarrow> string list" where
  "findDuplicates seen duplicates [] = duplicates"
| "findDuplicates seen duplicates (serial # rest) =
     (if serial \<in> seen then
        findDuplicates seen
          (if serial \<in> set duplicates then duplicates else duplicates @ [serial]) rest
      else findDuplicates (insert serial seen) duplicates rest)"

text \<open>
  The click handler of the Save button: a message is shown and the dialog stays open
  (\<open>Inl\<close>), or the dialog closes and the promise resolves with the serials (\<open>Inr\<close>).
\<close>

definition saveSerials :: "rat \<Rightarrow> string list \<Rightarrow> ui_event + string list" where
  "saveSerials qty vals =
     (let checked = foldl (checkEntry vals) ([], []) (fieldIndices qty 0);
          serials = fst checked;
          invalid = snd checked
      in if length invalid > 0 then Inl (InvalidInput invalid)
         else if of_nat (card (set serials)) \<noteq> qty then
           Inl (DuplicatesDetected (findDuplicates {} [] serials))
         else Inr serials)"

text \<open>
  The dialog takes the operator's entries one Save click after the other until one is
  accepted; an operator whose entries are all refused cancels.
\<close>

fun serialDialog :: "rat \<Rightarrow> string list list \<Rightarrow> ui_event list \<times> (error + string list)" where
  "serialDialog qty [] = ([], Inl (UserCancelled ''Serial input cancelled by user''))"
| "serialDialog qty (vals # later) =
     (case saveSerials qty vals of
        Inr serials \<Rightarrow> ([], Inr serials)
      | Inl message \<Rightarrow>
          (let r = serialDialog qty later in (message # fst r, snd r)))"

definition promptSerials :: "world \<Rightarrow> state \<Rightarrow> (error + string list) \<times> state" where
  "promptSerials w st =
     (let qty = num (RVQA st)
      in if qty > of_nat MAX_SERIALS then (Inl (LimitExceeded qty MAX_SERIALS), st)
         else
           (let r = serialDialog qty (serialAttempts w)
            in (snd r, st\<lparr>shown := shown st @ SerialPrompt qty (fieldIndices qty 0) # fst r\<rparr>)))"

text \<open>The Save handler of the lot dialog, on the lot field and the date field.\<close>

definition saveLot :: "state \<Rightarrow> string \<times> string \<Rightarrow> ui_event + string \<times> jsval" where
  "saveLot st entry =
     (let lot = trim (fst entry);
          expDate = snd entry;
          errors1 = (if lot = [] \<or> length lot > 20 \<or> \<not> list_all serialChar lot
                     then [LotNumberRequired] else []);
          errors2 = (if EXPD st = Some ''1'' \<and> expDate = [] then [ExpirationRequired] else []);
          expi = (if EXPD st = Some ''1'' \<and> expDate \<noteq> []
                  then Some (filter (\<lambda>c. c \<noteq> CHR ''-'') expDate) else None)
      in if length (errors1 @ errors2) > 0 then Inl (LotInvalid (errors1 @ errors2))
         else Inr (lot, expi))"

fun lotDialog ::
  "state \<Rightarrow> (string \<times> string) list \<Rightarrow> ui_event list \<times> (error + string \<times> jsval)" where
  "lotDialog st [] = ([], Inl (UserCancelled ''Lot input cancelled by user''))"
| "lotDialog st (entry # later) =
     (case saveLot st entry of
        Inr r \<Rightarrow> ([], Inr r)
      | Inl message \<Rightarrow>
          (let r = lotDialog st later in (message # fst r, snd r)))"

definition promptLot :: "world \<Rightarrow> state \<Rightarrow> (error + string \<times> jsval) \<times> state" where
  "promptLot w st =
     (let r = lotDialog st (lotAttempts w)
      in (snd r, st\<lparr>shown := shown st @ LotPrompt # fst r\<rparr>))"

subsection \<open>The checks against the remote system\<close>

definition itmLotRequest :: "state \<Rightarrow> string \<Rightarrow> mi_request" where
  "itmLotRequest st s = request ''MMS235MI'' ''GetItmLot''
     [(''ITNO'', ITNO st), (''BANO'', Some s)] 1"

text \<open>The two handlers of \<^verbatim>\<open>executeRequest(rq).then(r => ..., e => ...)\<close> for one identifier.\<close>

text \<open>\<^verbatim>\<open>r && r.item && r.item.ITNO === this.ITNO && r.item.BANO === s\<close>\<close>

definition sameRecord :: "state \<Rightarrow> string \<Rightarrow> (string \<times> string) list option \<Rightarrow> bool" where
  "sameRecord st s r =
     (case r of
        None \<Rightarrow> False
      | Some item \<Rightarrow> map_of item ''ITNO'' = ITNO st \<and> map_of item ''BANO'' = Some s)"

definition checkIdentifier :: "string \<Rightarrow> world \<Rightarrow> state \<Rightarrow> string \<Rightarrow> error + unit" where
  "checkIdentifier kind w st s =
     (case mi w (itmLotRequest st s) of
        Resolved r \<Rightarrow>
          (if sameRecord st s r then Inl (AlreadyExists kind s (ITNO st)) else Inr ())
      | Rejected e \<Rightarrow> (if statusCode e = 400 then Inr () else Inl (RemoteError e)))"

definition checkSer :: "world \<Rightarrow> string list \<Rightarrow> state \<Rightarrow> (error + unit) \<times> state" where
  "checkSer w arr st =
     (let reqs = map (itmLotRequest st) arr;
          st1 = st\<lparr>trace := trace st @ reqs\<rparr>
      in case firstError (map (checkIdentifier ''Serial'' w st) (arrivalOrder (arrival w reqs) arr)) of
           None \<Rightarrow> (Inr (), st1)
         | Some e \<Rightarrow> (Inl e, st1))"

definition checkLot :: "world \<Rightarrow> string \<Rightarrow> state \<Rightarrow> (error + unit) \<times> state" where
  "checkLot w lot st =
     (let st1 = issue (itmLotRequest st lot) st
      in case checkIdentifier ''Lot'' w st lot of
           Inr _ \<Rightarrow> (Inr (), st1)
         | Inl e \<Rightarrow> (Inl e, st1))"

subsection \<open>Equipment records and their rollback\<close>

definition delRequest :: "jsval \<times> string \<Rightarrow> mi_request" where
  "delRequest equip = request ''MMS240MI'' ''Del''
     [(''ITNO'', fst equip), (''SERN'', Some (snd equip))] 1"

datatype settled = Fulfilled | NotFulfilled

text \<open>
  One deletion of the rollback: the \<^verbatim>\<open>try\<close> block logs the deletion, the \<^verbatim>\<open>catch\<close> block
  logs the failure and returns, so the promise is fulfilled in both cases.
\<close>

definition deleteEquipment :: "world \<Rightarrow> jsval \<times> string \<Rightarrow> settled \<times> log_event" where
  "deleteEquipment w equip =
     (case mi w (delRequest equip) of
        Resolved _ \<Rightarrow> (Fulfilled, DeleteOk (snd equip))
      | Rejected e \<Rightarrow> (Fulfilled, DeleteFailed (snd equip) e))"

definition rollbackEquipment :: "world \<Rightarrow> state \<Rightarrow> state" where
  "rollbackEquipment w st =
     (case createdEquipment st of
        None \<Rightarrow> st\<lparr>logs := logs st @ [RollbackNothing]\<rparr>
      | Some eqs \<Rightarrow>
          (if length eqs = 0 then st\<lparr>logs := logs st @ [RollbackNothing]\<rparr>
           else
             (let results = map (deleteEquipment w) eqs;
                  successful = length (filter (\<lambda>r. fst r = Fulfilled) results);
                  failed = length (filter (\<lambda>r. fst r = NotFulfilled) results)
              in st\<lparr>trace := trace st @ map delRequest eqs,
                    logs := logs st @ [RollbackStart (length eqs)] @ map snd results
                            @ [RollbackSummary successful failed],
                    createdEquipment := Some []\<rparr>)))"

definition equipRequest :: "world \<Rightarrow> state \<Rightarrow> string \<Rightarrow> mi_request" where
  "equipRequest w st s = request ''MMS240MI'' ''Add''
     [(''ITNO'', ITNO st), (''SERN'', Some s), (''STAT'', Some ''20''), (''CUNO'', CUNO st),
      (''PUPR'', PUPR st), (''CUCD'', CUCD st), (''PPDT'', Some (today w)), (''FACI'', FACI st),
      (''CUOW'', CUNO st), (''OWTP'', Some ''0''), (''PUNO'', PUNO st), (''PNLI'', PNLI st),
      (''PNLS'', PNLS st), (''ALII'', ITDS st)] 1"

text \<open>
  The creation request of a serial returns a record: the test \<^verbatim>\<open>result && result.item\<close> that
  \<^verbatim>\<open>addEquip\<close> makes before it tracks the record.
\<close>

definition returnsRecord :: "world \<Rightarrow> state \<Rightarrow> string \<Rightarrow> bool" where
  "returnsRecord w st s =
     (case mi w (equipRequest w st s) of Resolved (Some item) \<Rightarrow> True | _ \<Rightarrow> False)"

text \<open>
  The answers to the creation requests, taken in their order of arrival: a record is pushed
  on the tracking list when its request returned an item, and the first request that is
  rejected or returns no item rejects the \<^verbatim>\<open>Promise.all\<close>, which is when the \<^verbatim>\<open>catch\<close> block
  of \<^verbatim>\<open>addEquip\<close> runs. Nothing cancels the requests whose answers have not arrived by
  then: the third component of the result holds their serials, in the order in which their
  answers arrive.
\<close>

fun createEach ::
  "world \<Rightarrow> state \<Rightarrow> string list \<Rightarrow> (jsval \<times> string) list \<Rightarrow>
   error option \<times> (jsval \<times> string) list \<times> string list" where
  "createEach w st [] created = (None, created, [])"
| "createEach w st (s # later) created =
     (case mi w (equipRequest w st s) of
        Rejected e \<Rightarrow> (Some (RemoteError e), created, later)
      | Resolved None \<Rightarrow> (Some (NoRecord ''Equipment creation''), created, later)
      | Resolved (Some item) \<Rightarrow> createEach w st later (created @ [(ITNO st, s)]))"

text \<open>
  The callbacks of the answers that arrive after the rejection still run: each one whose
  request returned an item pushes its record on \<^verbatim>\<open>this.createdEquipment\<close>, and the error of
  the others is dropped, the \<^verbatim>\<open>Promise.all\<close> being rejected already.
\<close>

definition latePushes :: "world \<Rightarrow> state \<Rightarrow> string list \<Rightarrow> (jsval \<times> string) list" where
  "latePushes w st later = map (Pair (ITNO st)) (filter (returnsRecord w st) later)"

text \<open>
  \<^verbatim>\<open>addEquip\<close>. When a creation fails, the \<^verbatim>\<open>catch\<close> block rolls back the records tracked
  so far. The rollback returns at once when there is none; otherwise it waits for the
  answers to its deletions and then assigns a new empty list. Of the late answers, the
  first \<open>duringRollback w reqs\<close> arrive during this wait and push on the list that the
  rollback replaces, and the others push on the list that the instance holds afterwards.
  The state returned is the one reached when every answer has arrived.
\<close>

definition addEquip :: "world \<Rightarrow> string list \<Rightarrow> state \<Rightarrow> (error + unit) \<times> state" where
  "addEquip w arr st =
     (let reqs = map (equipRequest w st) arr;
          st1 = st\<lparr>createdEquipment := Some [], trace := trace st @ reqs\<rparr>;
          r = createEach w st (arrivalOrder (arrival w reqs) arr) [];
          created = fst (snd r);
          later = snd (snd r);
          st2 = st1\<lparr>createdEquipment := Some created\<rparr>
      in case fst r of
           None \<Rightarrow> (Inr (), st2)
         | Some e \<Rightarrow>
             (let st3 = rollbackEquipment w st2;
                  missed = (if length created = 0 then 0 else duringRollback w reqs)
              in (Inl e, st3\<lparr>createdEquipment :=
                            Some (tracked st3 @ latePushes w st (drop missed later))\<rparr>)))"

subsection \<open>The receipt engine\<close>

definition headRequest :: "state \<Rightarrow> mi_request" where
  "headRequest st = request ''MHS850MI'' ''AddWhsHead''
     [(''WHLO'', WHLO st), (''QLFR'', Some ''20''), (''E0PA'', Some ''WS''),
      (''E0PB'', Some ''WS''), (''E007'', Some ''20''), (''E065'', Some ''PPS300'')] 1"

definition addWhsHead :: "world \<Rightarrow> state \<Rightarrow> (error + unit) \<times> state" where
  "addWhsHead w st =
     (let st1 = issue (headRequest st) st
      in case mi w (headRequest st) of
           Rejected e \<Rightarrow> (Inl (RemoteError e), st1)
         | Resolved None \<Rightarrow> (Inl (NoRecord ''Warehouse transaction header creation''), st1)
         | Resolved (Some item) \<Rightarrow>
             (if \<not> truthy (map_of item ''MSGN'')
              then (Inl (NoRecord ''Warehouse transaction header creation''), st1)
              else (Inr (), st1\<lparr>MSGN := map_of item ''MSGN''\<rparr>)))"

definition packNumber :: "state \<Rightarrow> string" where
  "packNumber st = interpolate (PUNO st) @ ''_'' @ interpolate (PNLI st)"

definition packRequest :: "state \<Rightarrow> mi_request" where
  "packRequest st = request ''MHS850MI'' ''AddWhsPack''
     [(''WHLO'', WHLO st), (''MSGN'', MSGN st), (''PACN'', Some (packNumber st)),
      (''QLFR'', Some ''20'')] 1"

definition addWhsPack :: "world \<Rightarrow> state \<Rightarrow> (error + unit) \<times> state" where
  "addWhsPack w st =
     (let st1 = issue (packRequest st) st
      in case mi w (packRequest st) of
           Rejected e \<Rightarrow> (Inl (RemoteError e), st1)
         | Resolved packResult \<Rightarrow> (Inr (), st1))"

definition lineRequest :: "state \<Rightarrow> receipt_line \<Rightarrow> mi_request" where
  "lineRequest st rec = request ''MHS850MI'' ''AddWhsLine''
     ([(''WHLO'', WHLO st), (''MSGN'', MSGN st), (''PACN'', Some (packNumber st)),
       (''QLFR'', Some ''20''), (''ITNO'', ITNO st), (''RVQA'', QTY rec), (''RIDN'', PUNO st),
       (''RIDL'', PNLI st), (''RIDX'', PNLS st), (''OEND'', OEND st)]
      @ (if \<not> isNonMaterial st then [(''WHSL'', WHSL st)] else [])
      @ (if truthy (BANO rec) then [(''BANO'', BANO rec)] else [])
      @ (if truthy (EXPI rec) then [(''EXPI'', EXPI rec)] else [])) 1"

definition addWhsLine :: "world \<Rightarrow> state \<Rightarrow> receipt_line \<Rightarrow> error + unit" where
  "addWhsLine w st rec =
     (case mi w (lineRequest st rec) of
        Rejected e \<Rightarrow> Inl (RemoteError e)
      | Resolved result \<Rightarrow> Inr ())"

definition addWhsLines :: "world \<Rightarrow> receipt_line list \<Rightarrow> state \<Rightarrow> (error + unit) \<times> state" where
  "addWhsLines w lines st =
     (let reqs = map (lineRequest st) lines;
          st1 = st\<lparr>trace := trace st @ reqs\<rparr>
      in case firstError (map (addWhsLine w st) (arrivalOrder (arrival w reqs) lines)) of
           None \<Rightarrow> (Inr (), st1)
         | Some e \<Rightarrow> (Inl e, st1))"

definition prcRequest :: "state \<Rightarrow> mi_request" where
  "prcRequest st = request ''MHS850MI'' ''PrcWhsTran''
     [(''MSGN'', MSGN st), (''PRFL'', Some ''*EXE'')] 100"

definition prcWhsTran :: "world \<Rightarrow> state \<Rightarrow> (error + unit) \<times> state" where
  "prcWhsTran w st =
     (let st1 = issue (prcRequest st) st
      in case mi w (prcRequest st) of
           Rejected e \<Rightarrow> (Inl (RemoteError e), st1)
         | Resolved None \<Rightarrow> (Inl (NoRecord ''Transaction processing''), st1)
         | Resolved (Some item) \<Rightarrow> (Inr (), st1))"

definition statusRequest :: "state \<Rightarrow> mi_request" where
  "statusRequest st = request ''MHS850MI'' ''GetWhsHead'' [(''MSGN'', MSGN st)] 1"

text \<open>The status poll; it returns \<^verbatim>\<open>statusResult.item.STAT\<close>.\<close>

definition getWhsHead :: "world \<Rightarrow> state \<Rightarrow> (error + jsval) \<times> state" where
  "getWhsHead w st =
     (let st1 = issue (statusRequest st) st
      in case mi w (statusRequest st) of
           Rejected e \<Rightarrow> (Inl (RemoteError e), st1)
         | Resolved None \<Rightarrow> (Inl StatusUnavailable, st1)
         | Resolved (Some item) \<Rightarrow> (Inr (map_of item ''STAT''), st1))"

text \<open>The level of the error that the message of a failed transaction names.\<close>

definition diagnostic :: "jsval \<Rightarrow> category" where
  "diagnostic transactionStatus =
     (if transactionStatus \<in> set [Some ''15'', Some ''20''] then HeaderLevel
      else if transactionStatus \<in> set [Some ''25'', Some ''30'', Some ''35'', Some ''40'']
      then PackageLineLevel
      else OtherStatus)"

text \<open>The final status validation, from \<^verbatim>\<open>if (transactionStatus !== '90')\<close> on.\<close>

definition checkStatus :: "world \<Rightarrow> jsval \<Rightarrow> state \<Rightarrow> (error + unit) \<times> state" where
  "checkStatus w transactionStatus st =
     (if transactionStatus \<noteq> Some ''90'' then
        (let st1 = (if createdEquipment st \<noteq> None \<and> length (tracked st) > 0
                    then rollbackEquipment w st else st)
         in (Inl (ProcessingFailed transactionStatus (diagnostic transactionStatus)), st1))
      else (Inr (), st))"

text \<open>The body of \<^verbatim>\<open>process\<close> up to the status poll: header, pack, lines, processing, poll.\<close>

definition submitAndPoll :: "world \<Rightarrow> receipt_line list \<Rightarrow> state \<Rightarrow> (error + jsval) \<times> state" where
  "submitAndPoll w lines =
     andThen (addWhsHead w) (\<lambda>_.
     andThen (addWhsPack w) (\<lambda>_.
     andThen (addWhsLines w lines) (\<lambda>_.
     andThen (prcWhsTran w) (\<lambda>_. getWhsHead w))))"

text \<open>
  \<^verbatim>\<open>process(lines, onePackPerSerial)\<close>; the second parameter is not read. The \<^verbatim>\<open>catch\<close> block
  around the body logs the error and throws it again.
\<close>

definition process ::
  "world \<Rightarrow> receipt_line list \<Rightarrow> bool \<Rightarrow> state \<Rightarrow> (error + unit) \<times> state" where
  "process w lines onePackPerSerial = andThen (submitAndPoll w lines) (checkStatus w)"

subsection \<open>The main flow\<close>

definition serialLines :: "string list \<Rightarrow> receipt_line list" where
  "serialLines serials = map (\<lambda>s. \<lparr>BANO = Some s, QTY = Some ''1'', EXPI = None\<rparr>) serials"

text \<open>The \<^verbatim>\<open>try\<close> and \<^verbatim>\<open>catch\<close> blocks around the receipt of the serial branch.\<close>

definition serialReceipt :: "world \<Rightarrow> string list \<Rightarrow> state \<Rightarrow> (error + unit) \<times> state" where
  "serialReceipt w serials st =
     (case process w (serialLines serials) False st of
        (Inr _, st1) \<Rightarrow> (Inr (), st1\<lparr>createdEquipment := Some []\<rparr>)
      | (Inl processError, st1) \<Rightarrow> (Inl processError, rollbackEquipment w st1))"

definition serialBranch :: "world \<Rightarrow> state \<Rightarrow> (error + unit) \<times> state" where
  "serialBranch w =
     andThen (promptSerials w) (\<lambda>serials.
     andThen (checkSer w serials) (\<lambda>_.
     andThen (addEquip w serials) (\<lambda>_. serialReceipt w serials)))"

definition lotBranch :: "world \<Rightarrow> state \<Rightarrow> (error + unit) \<times> state" where
  "lotBranch w =
     andThen (promptLot w) (\<lambda>r.
     andThen (checkLot w (fst r)) (\<lambda>_ st.
       process w [\<lparr>BANO = Some (fst r), QTY = RVQA st, EXPI = snd r\<rparr>] False st))"

definition plainBranch :: "world \<Rightarrow> state \<Rightarrow> (error + unit) \<times> state" where
  "plainBranch w =
     andThen (promptConfirm w) (\<lambda>_ st.
       process w [\<lparr>BANO = None, QTY = RVQA st, EXPI = None\<rparr>] False st)"

definition branch :: "world \<Rightarrow> state \<Rightarrow> (error + unit) \<times> state" where
  "branch w st =
     (if INDI st = Some ''2'' then serialBranch w st
      else if INDI st = Some ''3'' then lotBranch w st
      else plainBranch w st)"

text \<open>Steps 1 to 3 of \<^verbatim>\<open>run\<close>: the fields, the line of the order and the look-ups.\<close>

definition lookupSteps :: "world \<Rightarrow> state \<Rightarrow> (error + unit) \<times> state" where
  "lookupSteps w =
     andThen (validateFields w) (\<lambda>_.
     andThen (getPOLine w) (\<lambda>_. lookups w))"

definition steps :: "world \<Rightarrow> state \<Rightarrow> (error + unit) \<times> state" where
  "steps w =
     andThen (lookupSteps w) (\<lambda>_.
     andThen (warnings w) (\<lambda>_. branch w))"

datatype outcome = Succeeded | Failed error

text \<open>
  The end of \<^verbatim>\<open>run\<close>: the success dialog after the last step, or the error dialog of the
  \<^verbatim>\<open>catch\<close> block with the error that ended the steps.
\<close>

definition report :: "(error + unit) \<times> state \<Rightarrow> outcome \<times> state" where
  "report r =
     (case r of
        (Inr _, st) \<Rightarrow> (Succeeded, st\<lparr>shown := shown st @ [SuccessDialog]\<rparr>)
      | (Inl e, st) \<Rightarrow> (Failed e, st\<lparr>shown := shown st @ [ErrorDialog e]\<rparr>))"

text \<open>\<^verbatim>\<open>run\<close> on a fresh instance.\<close>

definition run :: "world \<Rightarrow> outcome \<times> state" where
  "run w = report (steps w initial)"

subsection \<open>A sample screen, remote system and operator\<close>

text \<open>
  The screen of purchase order PO1001, line 10, and a remote system that knows the line: the
  item has control method \<open>indi\<close>, \<open>rstq\<close> units remain to be received, the warehouse is
  managed externally when \<open>wms\<close> holds, no serial or lot is registered yet, and the
  transaction ends in status \<open>stat\<close>.
\<close>

definition sampleFields :: "string \<Rightarrow> jsval" where
  "sampleFields = map_of
     [(''WWPUNO'', ''PO1001''), (''WWSUNO'', ''SUP01''), (''WWWHLO'', ''W01''), (''PNLI'', ''10''),
      (''PNLS'', ''0''), (''WHSL'', ''A-01''), (''ITNO'', ''PUMP''), (''OEND'', ''1'')]"

definition notFound :: mi_error where
  "notFound = \<lparr>statusCode = 400, errorMessage = ''Record does not exist''\<rparr>"

definition sampleRemote :: "string \<Rightarrow> string \<Rightarrow> bool \<Rightarrow> string \<Rightarrow> mi_request \<Rightarrow> mi_outcome" where
  "sampleRemote indi rstq wms stat rq =
     (if transaction rq = ''GetLine'' then
        Resolved (Some [(''PUPR'', ''9.50''), (''RORC'', ''0''), (''ITDS'', ''Pump''), (''GETY'', ''20'')])
      else if transaction rq = ''GetHead'' then
        Resolved (Some [(''PUDT'', ''20250801''), (''CUCD'', ''USD''), (''FACI'', ''F01'')])
      else if transaction rq = ''Get'' then
        Resolved (if wms then Some [(''WHLO'', ''W01'')] else None)
      else if transaction rq = ''GetItmBasic'' then
        Resolved (Some [(''EXPD'', ''0''), (''INDI'', indi), (''TPCD'', ''01'')])
      else if transaction rq = ''GetBasicData2'' then Resolved (Some [(''RSTQ'', rstq)])
      else if transaction rq = ''GetItmLot'' then Rejected notFound
      else if transaction rq = ''AddWhsHead'' then Resolved (Some [(''MSGN'', ''M0001'')])
      else if transaction rq = ''GetWhsHead'' then Resolved (Some [(''STAT'', stat)])
      else Resolved (Some []))"

text \<open>
  The operator enters \<open>rvqa\<close> as received quantity, answers the warnings with \<open>proceed\<close>,
  confirms a plain receipt and clicks Save on each of \<open>entries\<close> in turn. The answers to
  requests issued together arrive in the order of the requests.
\<close>

definition sampleWorld ::
  "string \<Rightarrow> (mi_request \<Rightarrow> mi_outcome) \<Rightarrow> bool \<Rightarrow> string list list \<Rightarrow> world" where
  "sampleWorld rvqa remote proceed entries =
     \<lparr>mi = remote, arrival = (\<lambda>reqs. []), duringRollback = (\<lambda>reqs. 0),
      fieldValue = sampleFields,
      ctrlValue = (\<lambda>name. if name = ''RVQA'' then Some rvqa else None),
      warnProceed = (\<lambda>msg. proceed), serialAttempts = entries, lotAttempts = [],
      confirmProceed = True, today = ''20250805''\<rparr>"

text \<open>
  The same screen for an item under lot control without expiration date: the operator
  enters the lot LOT-1 and clicks Save.
\<close>

definition sampleLotWorld :: "string \<Rightarrow> world" where
  "sampleLotWorld stat =
     (sampleWorld ''2'' (sampleRemote ''3'' ''5'' False stat) True [])
       \<lparr>lotAttempts := [(''LOT-1'', [])]\<rparr>"

text \<open>
  Remote systems for the registration check: one that answers every request with the
  record of the serial SN-9 of item PUMP, one that answers with no record, and one that
  fails with an internal error.
\<close>

definition otherRecordRemote :: "mi_request \<Rightarrow> mi_outcome" where
  "otherRecordRemote rq = Resolved (Some [(''ITNO'', ''PUMP''), (''BANO'', ''SN-9'')])"

definition noRecordRemote :: "mi_request \<Rightarrow> mi_outcome" where
  "noRecordRemote rq = Resolved None"

definition brokenRemote :: "mi_request \<Rightarrow> mi_outcome" where
  "brokenRemote rq = Rejected \<lparr>statusCode = 500, errorMessage = ''Internal error''\<rparr>"

text \<open>A remote system that fails on the creation of the equipment record of one serial.\<close>

definition rejectingAdd :: "string \<Rightarrow> (mi_request \<Rightarrow> mi_outcome) \<Rightarrow> mi_request \<Rightarrow> mi_outcome" where
  "rejectingAdd serial remote rq =
     (if transaction rq = ''Add'' \<and> map_of (mirecord rq) ''SERN'' = Some (Some serial)
      then brokenRemote rq else remote rq)"

text \<open>
  Three serials SN-1, SN-2, SN-3 are received and the creation of the serial \<open>failing\<close>
  is rejected. The answers arrive in the order of the requests, so the answers for the
  serials after \<open>failing\<close> are still in flight when the failure is caught; \<open>n\<close> of them
  arrive while the rollback waits for the answers to its deletions, if it has any to
  wait for, and the others after the rollback.
\<close>

definition lateAnswerWorld :: "string \<Rightarrow> nat \<Rightarrow> world" where
  "lateAnswerWorld failing n =
     (sampleWorld ''3'' (rejectingAdd failing (sampleRemote ''2'' ''5'' False ''90'')) True
        [[''SN-1'', ''SN-2'', ''SN-3'']])\<lparr>duringRollback := (\<lambda>reqs. n)\<rparr>"

text \<open>The creation requests issued so far, each with its serial and the answer it gets.\<close>

definition creations :: "world \<Rightarrow> state \<Rightarrow> (jsval option \<times> mi_outcome) list" where
  "creations w st =
     map (\<lambda>rq. (map_of (mirecord rq) ''SERN'', mi w rq))
       (filter (\<lambda>rq. program rq = ''MMS240MI'' \<and> transaction rq = ''Add'') (trace st))"

definition pumpState :: state where
  "pumpState = initial\<lparr>ITNO := Some ''PUMP''\<rparr>"

subsection \<open>Observations on a run\<close>

text \<open>The requests for the deletion of an equipment record among those issued so far.\<close>

definition deletions :: "state \<Rightarrow> mi_request list" where
  "deletions st = filter (\<lambda>rq. program rq = ''MMS240MI'' \<and> transaction rq = ''Del'') (trace st)"

text \<open>The transactions of the look-ups of steps 2 and 3; none of them writes.\<close>

definition lookupTransactions :: "string list" where
  "lookupTransactions =
     [''GetLine'', ''GetHead'', ''Get'', ''GetItmBasic'', ''GetBasicData2'', ''GetOrderHead'']"

section \<open>Properties\<close>

subsection \<open>Sequencing, arrival orders and the field loop\<close>

lemma andThen_Inr: "f st = (Inr x, st1) \<Longrightarrow> andThen f g st = g x st1"
  by (simp add: andThen_def)

lemma andThen_Inl: "f st = (Inl e, st1) \<Longrightarrow> andThen f g st = (Inl e, st1)"
  by (simp add: andThen_def)

lemma andThen_InrE:
  assumes "andThen f g st = (Inr y, st2)"
  obtains x st1 where "f st = (Inr x, st1)" and "g x st1 = (Inr y, st2)"
  using assms by (auto simp: andThen_def split: prod.splits sum.splits)

lemma firstError_None: "(firstError rs = None) = (\<forall>r \<in> set rs. \<not> isl r)"
  by (induction rs rule: firstError.induct) auto

lemma firstError_Some: "firstError rs = Some e \<Longrightarrow> Inl e \<in> set rs"
  by (induction rs rule: firstError.induct) auto

lemma fieldIndices_upt: "fieldIndices qty i = [i ..< nat \<lceil>qty\<rceil>]"
proof (induction qty i rule: fieldIndices.induct)
  case (1 qty i)
  show ?case
  proof (cases "of_nat i < qty")
    case True
    then have "int i < \<lceil>qty\<rceil>" by (simp add: less_ceiling_iff)
    then have "i < nat \<lceil>qty\<rceil>" by simp
    with True "1.IH" show ?thesis
      by (subst fieldIndices.simps) (simp add: upt_conv_Cons)
  next
    case False
    then have "\<not> int i < \<lceil>qty\<rceil>" by (simp add: less_ceiling_iff)
    then have "\<not> i < nat \<lceil>qty\<rceil>" by simp
    with False show ?thesis
      by (subst fieldIndices.simps) simp
  qed
qed

lemma fieldIndices_nat: "fieldIndices (of_nat n) 0 = [0 ..< n]"
  by (simp add: fieldIndices_upt)

lemma count_list_pos: "(Suc 0 \<le> count_list xs x) = (x \<in> set xs)"
  by (induction xs) auto

lemma findDuplicates_set:
  "set (findDuplicates seen dups xs) =
     set dups \<union> {x \<in> set xs. x \<in> seen \<or> 2 \<le> count_list xs x}"
proof (induction xs arbitrary: seen dups)
  case Nil
  then show ?case by simp
next
  case (Cons a xs)
  show ?case
  proof (cases "a \<in> seen")
    case True
    then show ?thesis
      by (auto simp: Cons.IH count_list_pos)
  next
    case False
    then show ?thesis
      by (auto simp: Cons.IH count_list_pos)
  qed
qed

lemma arrivalOrder_Cons:
  "arrivalOrder ps (x # xs) =
     (x # xs) ! (case ps of [] \<Rightarrow> 0 | p # _ \<Rightarrow> p mod Suc (length xs))
     # arrivalOrder (tl ps) (take (case ps of [] \<Rightarrow> 0 | p # _ \<Rightarrow> p mod Suc (length xs)) (x # xs)
          @ drop (Suc (case ps of [] \<Rightarrow> 0 | p # _ \<Rightarrow> p mod Suc (length xs))) (x # xs))"
  by (simp only: arrivalOrder.simps Let_def)

lemma mset_arrivalOrder: "mset (arrivalOrder ps xs) = mset xs"
proof (induction ps xs rule: arrivalOrder.induct)
  case (1 ps)
  then show ?case by simp
next
  case (2 ps x xs)
  define k where "k = (case ps of [] \<Rightarrow> 0 | p # _ \<Rightarrow> p mod Suc (length xs))"
  define ys where "ys = x # xs"
  have k: "k < length ys"
    by (auto simp: k_def ys_def split: list.splits)
  have ih: "mset (arrivalOrder (tl ps) (take k ys @ drop (Suc k) ys)) = mset (take k ys @ drop (Suc k) ys)"
    using "2.IH" [of k] by (simp only: k_def ys_def)
  have "ys = take k ys @ ys ! k # drop (Suc k) ys"
    using k by (rule id_take_nth_drop)
  then have "mset ys = mset (take k ys @ ys ! k # drop (Suc k) ys)"
    by simp
  then have split: "mset ys = add_mset (ys ! k) (mset (take k ys @ drop (Suc k) ys))"
    by simp
  have "arrivalOrder ps ys = ys ! k # arrivalOrder (tl ps) (take k ys @ drop (Suc k) ys)"
    unfolding ys_def k_def by (rule arrivalOrder_Cons)
  then have "mset (arrivalOrder ps ys) = add_mset (ys ! k) (mset (take k ys @ drop (Suc k) ys))"
    using ih by simp
  with split show ?case
    unfolding ys_def by simp
qed

lemma set_arrivalOrder: "set (arrivalOrder ps xs) = set xs"
  using mset_arrivalOrder [of ps xs] by (metis set_mset_mset)

lemma length_arrivalOrder: "length (arrivalOrder ps xs) = length xs"
  using mset_arrivalOrder [of ps xs] by (metis size_mset)

lemma arrivalOrder_Nil_picks: "arrivalOrder [] xs = xs"
  by (induction xs) (simp_all add: Let_def)

subsection \<open>The Save handlers\<close>

lemma foldl_checkEntry:
  "foldl (checkEntry vals) acc is =
     (fst acc @ map (\<lambda>i. trim (fieldVal vals i)) (filter (\<lambda>i. entryViolation i (trim (fieldVal vals i)) = None) is),
      snd acc @ List.map_filter (\<lambda>i. entryViolation i (trim (fieldVal vals i))) is)"
proof (induction "is" arbitrary: acc)
  case Nil
  then show ?case by (simp add: map_filter_simps)
next
  case (Cons i "is")
  have "foldl (checkEntry vals) acc (i # is) = foldl (checkEntry vals) (checkEntry vals acc i) is"
    by simp
  also have "\<dots> = (fst (checkEntry vals acc i) @ map (\<lambda>i. trim (fieldVal vals i)) (filter (\<lambda>i. entryViolation i (trim (fieldVal vals i)) = None) is),
      snd (checkEntry vals acc i) @ List.map_filter (\<lambda>i. entryViolation i (trim (fieldVal vals i))) is)"
    by (rule Cons.IH)
  also have "\<dots> = (fst acc @ map (\<lambda>i. trim (fieldVal vals i)) (filter (\<lambda>i. entryViolation i (trim (fieldVal vals i)) = None) (i # is)),
      snd acc @ List.map_filter (\<lambda>i. entryViolation i (trim (fieldVal vals i))) (i # is))"
    by (cases "entryViolation i (trim (fieldVal vals i))")
       (simp_all add: checkEntry_def map_filter_simps)
  finally show ?case .
qed

lemma entryViolation_None:
  "(entryViolation i val = None) = (val \<noteq> [] \<and> length val \<le> 20 \<and> list_all serialChar val)"
  by (auto simp: entryViolation_def)

lemma map_filter_Nil_iff: "(List.map_filter f xs = []) = (\<forall>x \<in> set xs. f x = None)"
  by (induction xs) (auto simp: map_filter_simps split: option.splits)

lemma length_map_filter: "length (List.map_filter f xs) = length (filter (\<lambda>x. f x \<noteq> None) xs)"
  by (induction xs) (auto simp: map_filter_simps split: option.splits)

lemma filter_all: "(\<forall>x \<in> set xs. P x) \<Longrightarrow> filter P xs = xs"
  by simp

lemma set_size_test:
  assumes "length entries = nat \<lceil>qty\<rceil>"
  shows "(of_nat (card (set entries)) \<noteq> (qty :: rat)) = (\<not> (distinct entries \<and> qty = of_nat (length entries)))"
proof (cases "of_nat (card (set entries)) = qty")
  case True
  then have "nat \<lceil>qty\<rceil> = card (set entries)"
    by (metis ceiling_of_nat nat_int)
  with assms have "card (set entries) = length entries"
    by simp
  then have "distinct entries"
    by (simp add: card_distinct)
  with True \<open>card (set entries) = length entries\<close> show ?thesis
    by simp
next
  case False
  then show ?thesis
    by (auto simp: distinct_card)
qed

lemma saveSerials_cases:
  assumes idxs: "idxs = fieldIndices qty 0"
    and viol: "viol = (\<lambda>i. entryViolation i (trim (fieldVal vals i)))"
    and entry: "entry = (\<lambda>i. trim (fieldVal vals i))"
  shows "saveSerials qty vals =
     (if \<exists>i \<in> set idxs. viol i \<noteq> None then Inl (InvalidInput (List.map_filter viol idxs))
      else if \<not> (distinct (map entry idxs) \<and> qty = of_nat (length idxs))
      then Inl (DuplicatesDetected (findDuplicates {} [] (map entry idxs)))
      else Inr (map entry idxs))"
proof -
  have len: "length idxs = nat \<lceil>qty\<rceil>"
    by (simp add: idxs fieldIndices_upt)
  have folded: "foldl (checkEntry vals) ([], []) idxs
      = (map entry (filter (\<lambda>i. viol i = None) idxs), List.map_filter viol idxs)"
    by (simp add: foldl_checkEntry viol entry)
  have unfolded: "saveSerials qty vals =
     (if List.map_filter viol idxs \<noteq> [] then Inl (InvalidInput (List.map_filter viol idxs))
      else if of_nat (card (set (map entry (filter (\<lambda>i. viol i = None) idxs)))) \<noteq> qty
      then Inl (DuplicatesDetected
             (findDuplicates {} [] (map entry (filter (\<lambda>i. viol i = None) idxs))))
      else Inr (map entry (filter (\<lambda>i. viol i = None) idxs)))"
    unfolding saveSerials_def idxs [symmetric] folded Let_def by simp
  show ?thesis
  proof (cases "\<exists>i \<in> set idxs. viol i \<noteq> None")
    case True
    then have "List.map_filter viol idxs \<noteq> []"
      by (simp add: map_filter_Nil_iff)
    with True show ?thesis
      unfolding unfolded by simp
  next
    case False
    then have none: "List.map_filter viol idxs = []"
      by (simp add: map_filter_Nil_iff)
    from False have all: "filter (\<lambda>i. viol i = None) idxs = idxs"
      by simp
    have "length (map entry idxs) = nat \<lceil>qty\<rceil>"
      using len by simp
    then have test: "(of_nat (card (set (map entry idxs))) \<noteq> qty)
        = (\<not> (distinct (map entry idxs) \<and> qty = of_nat (length (map entry idxs))))"
      by (rule set_size_test)
    show ?thesis
      unfolding unfolded none all test using False by simp
  qed
qed

lemma saveSerials_eq:
  "saveSerials qty vals =
     (if \<exists>i \<in> set (fieldIndices qty 0). entryViolation i (trim (fieldVal vals i)) \<noteq> None
      then Inl (InvalidInput
             (List.map_filter (\<lambda>i. entryViolation i (trim (fieldVal vals i))) (fieldIndices qty 0)))
      else if \<not> (distinct (map (\<lambda>i. trim (fieldVal vals i)) (fieldIndices qty 0))
                 \<and> qty = of_nat (length (fieldIndices qty 0)))
      then Inl (DuplicatesDetected
             (findDuplicates {} [] (map (\<lambda>i. trim (fieldVal vals i)) (fieldIndices qty 0))))
      else Inr (map (\<lambda>i. trim (fieldVal vals i)) (fieldIndices qty 0)))"
  by (rule saveSerials_cases) (rule refl)+

lemma saveLot_eq:
  "saveLot st entry =
     (if entryViolation 0 (trim (fst entry)) \<noteq> None \<or> (EXPD st = Some ''1'' \<and> snd entry = [])
      then Inl (LotInvalid
             ((if entryViolation 0 (trim (fst entry)) \<noteq> None then [LotNumberRequired] else [])
              @ (if EXPD st = Some ''1'' \<and> snd entry = [] then [ExpirationRequired] else [])))
      else Inr (trim (fst entry),
             if EXPD st = Some ''1'' then Some (filter (\<lambda>c. c \<noteq> CHR ''-'') (snd entry)) else None))"
  by (auto simp: saveLot_def Let_def entryViolation_def)

lemma entries_of_vals: "map (\<lambda>i. f (fieldVal vals i)) [0 ..< length vals] = map f vals"
  by (rule nth_equalityI) (simp_all add: fieldVal_def)

text \<open>
  Claim C5. The Save handler of the serial dialog tests every field for a blank value, a
  value of more than 20 characters and a character outside \<open>A-Z\<close>, \<open>0-9\<close> and the hyphen;
  when a field fails, one message lists every failing field, each once and with its reason,
  and nothing is accepted. A batch is accepted only when no field fails and the values
  are pairwise distinct. The lot dialog applies the same three tests to the lot number and
  reports a missing expiration date in the same message.
\<close>

theorem validation_collects_every_violation:
  "(entryViolation i val = None) = (val \<noteq> [] \<and> length val \<le> 20 \<and> list_all serialChar val)
   \<and> saveSerials qty vals =
     (if \<exists>i \<in> set (fieldIndices qty 0). entryViolation i (trim (fieldVal vals i)) \<noteq> None
      then Inl (InvalidInput
             (List.map_filter (\<lambda>i. entryViolation i (trim (fieldVal vals i))) (fieldIndices qty 0)))
      else if \<not> (distinct (map (\<lambda>i. trim (fieldVal vals i)) (fieldIndices qty 0))
                 \<and> qty = of_nat (length (fieldIndices qty 0)))
      then Inl (DuplicatesDetected
             (findDuplicates {} [] (map (\<lambda>i. trim (fieldVal vals i)) (fieldIndices qty 0))))
      else Inr (map (\<lambda>i. trim (fieldVal vals i)) (fieldIndices qty 0)))
   \<and> length (List.map_filter (\<lambda>i. entryViolation i (trim (fieldVal vals i))) (fieldIndices qty 0))
     = length (filter (\<lambda>i. entryViolation i (trim (fieldVal vals i)) \<noteq> None) (fieldIndices qty 0))
   \<and> saveLot st entry =
     (if entryViolation 0 (trim (fst entry)) \<noteq> None \<or> (EXPD st = Some ''1'' \<and> snd entry = [])
      then Inl (LotInvalid
             ((if entryViolation 0 (trim (fst entry)) \<noteq> None then [LotNumberRequired] else [])
              @ (if EXPD st = Some ''1'' \<and> snd entry = [] then [ExpirationRequired] else [])))
      else Inr (trim (fst entry),
             if EXPD st = Some ''1'' then Some (filter (\<lambda>c. c \<noteq> CHR ''-'') (snd entry)) else None))"
proof (intro conjI)
  show "(entryViolation i val = None) = (val \<noteq> [] \<and> length val \<le> 20 \<and> list_all serialChar val)"
    by (rule entryViolation_None)
  show "saveSerials qty vals =
     (if \<exists>i \<in> set (fieldIndices qty 0). entryViolation i (trim (fieldVal vals i)) \<noteq> None
      then Inl (InvalidInput
             (List.map_filter (\<lambda>i. entryViolation i (trim (fieldVal vals i))) (fieldIndices qty 0)))
      else if \<not> (distinct (map (\<lambda>i. trim (fieldVal vals i)) (fieldIndices qty 0))
                 \<and> qty = of_nat (length (fieldIndices qty 0)))
      then Inl (DuplicatesDetected
             (findDuplicates {} [] (map (\<lambda>i. trim (fieldVal vals i)) (fieldIndices qty 0))))
      else Inr (map (\<lambda>i. trim (fieldVal vals i)) (fieldIndices qty 0)))"
    by (rule saveSerials_eq)
  show "length (List.map_filter (\<lambda>i. entryViolation i (trim (fieldVal vals i))) (fieldIndices qty 0))
     = length (filter (\<lambda>i. entryViolation i (trim (fieldVal vals i)) \<noteq> None) (fieldIndices qty 0))"
    by (rule length_map_filter)
  show "saveLot st entry =
     (if entryViolation 0 (trim (fst entry)) \<noteq> None \<or> (EXPD st = Some ''1'' \<and> snd entry = [])
      then Inl (LotInvalid
             ((if entryViolation 0 (trim (fst entry)) \<noteq> None then [LotNumberRequired] else [])
              @ (if EXPD st = Some ''1'' \<and> snd entry = [] then [ExpirationRequired] else [])))
      else Inr (trim (fst entry),
             if EXPD st = Some ''1'' then Some (filter (\<lambda>c. c \<noteq> CHR ''-'') (snd entry)) else None))"
    by (rule saveLot_eq)
qed

theorem validation_collects_every_violation_witness:
  "saveSerials 3 [''SN 1'', ''  '', ''AB-2''] = Inl (InvalidInput [InvalidChars 1, Blank 2])
   \<and> saveLot initial (''lot#7'', []) = Inl (LotInvalid [LotNumberRequired])"
proof -
  note inst = validation_collects_every_violation
    [of 0 "[]" 3 "[''SN 1'', ''  '', ''AB-2'']" initial "(''lot#7'', [])"]
  have a: "saveSerials 3 [''SN 1'', ''  '', ''AB-2''] = Inl (InvalidInput [InvalidChars 1, Blank 2])"
    by (subst inst [THEN conjunct2, THEN conjunct1]) code_simp
  have b: "saveLot initial (''lot#7'', []) = Inl (LotInvalid [LotNumberRequired])"
    by (subst inst [THEN conjunct2, THEN conjunct2, THEN conjunct2]) code_simp
  from a b show ?thesis by simp
qed

lemma saveSerials_valid:
  assumes valid: "\<forall>v \<in> set vals. trim v \<noteq> [] \<and> length (trim v) \<le> 20 \<and> list_all serialChar (trim v)"
  shows "saveSerials (of_nat (length vals)) vals =
     (if distinct (map trim vals) then Inr (map trim vals)
      else Inl (DuplicatesDetected (findDuplicates {} [] (map trim vals))))"
proof -
  have idxs: "fieldIndices (of_nat (length vals)) 0 = [0 ..< length vals]"
    by (rule fieldIndices_nat)
  have entries: "map (\<lambda>i. trim (fieldVal vals i)) [0 ..< length vals] = map trim vals"
    by (rule entries_of_vals)
  have "\<forall>i \<in> set [0 ..< length vals]. entryViolation i (trim (fieldVal vals i)) = None"
    using valid by (simp add: entryViolation_None fieldVal_def)
  then have none: "\<not> (\<exists>i \<in> set [0 ..< length vals]. entryViolation i (trim (fieldVal vals i)) \<noteq> None)"
    by simp
  show ?thesis
    unfolding saveSerials_eq [of "of_nat (length vals)" vals] idxs entries
    using none by simp
qed

lemma findDuplicates_distinct:
  "distinct dups \<Longrightarrow> distinct (findDuplicates seen dups xs)"
  by (induction xs arbitrary: seen dups) auto

lemma count_list_mset: "count_list xs x = count (mset xs) x"
  by (induction xs) auto

lemma duplicates_of_batch:
  "distinct (findDuplicates {} [] xs) \<and> set (findDuplicates {} [] xs) = {x. 2 \<le> count_list xs x}"
proof -
  have "\<And>x. 2 \<le> count_list xs x \<Longrightarrow> x \<in> set xs"
    by (metis count_list_0_iff not_numeral_le_zero)
  then show ?thesis
    by (auto simp: findDuplicates_set findDuplicates_distinct)
qed

text \<open>
  Claim C6. A batch of entries that all pass the format tests and of which two are equal
  is refused with the duplicates message, which names each repeated value once; a batch
  with the same entries in another order is refused too, naming the same values, and a
  batch without repetition is accepted in any order.
\<close>

theorem duplicates_rejected_whatever_the_position:
  assumes valid: "\<forall>v \<in> set vals. trim v \<noteq> [] \<and> length (trim v) \<le> 20 \<and> list_all serialChar (trim v)"
    and perm: "mset vals' = mset vals"
  shows "if distinct (map trim vals)
     then saveSerials (of_nat (length vals)) vals = Inr (map trim vals)
        \<and> saveSerials (of_nat (length vals')) vals' = Inr (map trim vals')
     else \<exists>ds ds'.
          saveSerials (of_nat (length vals)) vals = Inl (DuplicatesDetected ds)
        \<and> saveSerials (of_nat (length vals')) vals' = Inl (DuplicatesDetected ds')
        \<and> distinct ds \<and> set ds = {x. 2 \<le> count_list (map trim vals) x}
        \<and> distinct ds' \<and> set ds' = set ds"
proof -
  have set_eq: "set vals' = set vals"
    using perm by (rule mset_eq_setD)
  have valid': "\<forall>v \<in> set vals'. trim v \<noteq> [] \<and> length (trim v) \<le> 20 \<and> list_all serialChar (trim v)"
    using valid set_eq by simp
  have perm_trim: "mset (map trim vals') = mset (map trim vals)"
    using perm by (metis mset_map)
  then have dist: "distinct (map trim vals') = distinct (map trim vals)"
    by (rule mset_eq_imp_distinct_iff)
  have counts: "\<And>x. count_list (map trim vals') x = count_list (map trim vals) x"
    using perm_trim by (simp add: count_list_mset)
  note a = saveSerials_valid [OF valid] and b = saveSerials_valid [OF valid']
  show ?thesis
  proof (cases "distinct (map trim vals)")
    case True
    then show ?thesis
      using a b dist by simp
  next
    case False
    have "set (findDuplicates {} [] (map trim vals')) = set (findDuplicates {} [] (map trim vals))"
      using counts by (simp add: duplicates_of_batch)
    with False show ?thesis
      using a b dist duplicates_of_batch [of "map trim vals"] duplicates_of_batch [of "map trim vals'"]
      by simp
  qed
qed

theorem duplicates_rejected_whatever_the_position_witness:
  "saveSerials 3 [''SN-1'', ''SN-2'', ''SN-1''] = Inl (DuplicatesDetected [''SN-1''])
   \<and> saveSerials 3 [''SN-1'', ''SN-1'', ''SN-2''] = Inl (DuplicatesDetected [''SN-1''])"
proof -
  have valid: "\<forall>v \<in> set [''SN-1'', ''SN-2'', ''SN-1'']. trim v \<noteq> [] \<and> length (trim v) \<le> 20 \<and> list_all serialChar (trim v)"
    by code_simp
  have perm: "mset [''SN-1'', ''SN-1'', ''SN-2''] = mset [''SN-1'', ''SN-2'', ''SN-1'']"
    by simp
  have dup: "\<not> distinct (map trim [''SN-1'', ''SN-2'', ''SN-1''])"
    by code_simp
  from duplicates_rejected_whatever_the_position [OF valid perm] dup
  obtain ds ds' where s: "saveSerials (of_nat (length [''SN-1'', ''SN-2'', ''SN-1''])) [''SN-1'', ''SN-2'', ''SN-1''] = Inl (DuplicatesDetected ds)"
    and s': "saveSerials (of_nat (length [''SN-1'', ''SN-1'', ''SN-2''])) [''SN-1'', ''SN-1'', ''SN-2''] = Inl (DuplicatesDetected ds')"
    by (simp only: if_False) blast
  have e: "saveSerials 3 [''SN-1'', ''SN-2'', ''SN-1''] = Inl (DuplicatesDetected [''SN-1''])"
    by code_simp
  have e': "saveSerials 3 [''SN-1'', ''SN-1'', ''SN-2''] = Inl (DuplicatesDetected [''SN-1''])"
    by code_simp
  from s s' e e' show ?thesis by simp
qed

subsection \<open>The registration checks\<close>

lemma checkLot_result: "fst (checkLot w lot st) = checkIdentifier ''Lot'' w st lot"
  by (simp add: checkLot_def Let_def split: sum.splits)

lemma checkLot_trace: "trace (snd (checkLot w lot st)) = trace st @ [itmLotRequest st lot]"
  by (simp add: checkLot_def Let_def issue_def split: sum.splits)

lemma checkSer_trace: "trace (snd (checkSer w arr st)) = trace st @ map (itmLotRequest st) arr"
  by (simp add: checkSer_def Let_def split: option.splits)

lemma checkSer_passes:
  "(fst (checkSer w arr st) = Inr ()) = list_all (\<lambda>s. checkIdentifier ''Serial'' w st s = Inr ()) arr"
proof -
  define rs where "rs = map (checkIdentifier ''Serial'' w st)
            (arrivalOrder (arrival w (map (itmLotRequest st) arr)) arr)"
  have pass: "\<And>s. (\<not> isl (checkIdentifier ''Serial'' w st s)) = (checkIdentifier ''Serial'' w st s = Inr ())"
  proof -
    fix s
    show "(\<not> isl (checkIdentifier ''Serial'' w st s)) = (checkIdentifier ''Serial'' w st s = Inr ())"
      by (cases "checkIdentifier ''Serial'' w st s") simp_all
  qed
  have all: "(firstError rs = None) = (\<forall>s \<in> set arr. checkIdentifier ''Serial'' w st s = Inr ())"
    by (simp add: rs_def firstError_None set_arrivalOrder pass)
  have "(fst (checkSer w arr st) = Inr ()) = (firstError rs = None)"
    by (cases "firstError rs") (simp_all add: checkSer_def Let_def flip: rs_def)
  with all show ?thesis
    by (simp add: list_all_iff)
qed

lemma checkSer_result:
  "fst (checkSer w arr st) \<in> insert (Inr ()) (checkIdentifier ''Serial'' w st ` set arr)"
proof (cases "firstError (map (checkIdentifier ''Serial'' w st)
            (arrivalOrder (arrival w (map (itmLotRequest st) arr)) arr))")
  case None
  then show ?thesis
    by (simp add: checkSer_def Let_def)
next
  case (Some e)
  then have "Inl e \<in> checkIdentifier ''Serial'' w st ` set arr"
    using firstError_Some [OF Some] by (simp add: set_arrivalOrder)
  with Some show ?thesis
    by (simp add: checkSer_def Let_def)
qed

lemma arrivalOrder_single: "arrivalOrder ps [x] = [x]"
  by (simp add: Let_def split: list.splits)

lemma checkSer_single: "fst (checkSer w [s] st) = checkIdentifier ''Serial'' w st s"
  by (cases "checkIdentifier ''Serial'' w st s")
     (simp_all add: checkSer_def Let_def arrivalOrder_single del: arrivalOrder.simps)

lemma checkIdentifier_cases:
  "checkIdentifier kind w st s =
     (case mi w (itmLotRequest st s) of
        Rejected e \<Rightarrow> (if statusCode e = 400 then Inr () else Inl (RemoteError e))
      | Resolved None \<Rightarrow> Inr ()
      | Resolved (Some item) \<Rightarrow>
          (if map_of item ''ITNO'' = ITNO st \<and> map_of item ''BANO'' = Some s
           then Inl (AlreadyExists kind s (ITNO st)) else Inr ()))"
  by (simp add: checkIdentifier_def sameRecord_def split: mi_outcome.splits option.splits)

lemma checkSer_already_exists:
  assumes "fst (checkSer w arr st) = Inl (AlreadyExists kind t itno)"
  shows "kind = ''Serial'' \<and> itno = ITNO st \<and> t \<in> set arr
       \<and> (\<exists>item. mi w (itmLotRequest st t) = Resolved (Some item)
              \<and> map_of item ''ITNO'' = ITNO st \<and> map_of item ''BANO'' = Some t)"
proof -
  from checkSer_result [of w arr st] assms
  obtain s where s: "s \<in> set arr"
    and c: "checkIdentifier ''Serial'' w st s = Inl (AlreadyExists kind t itno)"
    by auto
  from c have "kind = ''Serial'' \<and> itno = ITNO st \<and> t = s
       \<and> (\<exists>item. mi w (itmLotRequest st s) = Resolved (Some item)
              \<and> map_of item ''ITNO'' = ITNO st \<and> map_of item ''BANO'' = Some s)"
    unfolding checkIdentifier_cases
    by (auto split: mi_outcome.splits option.splits if_splits)
  with s show ?thesis
    by blast
qed

lemma checkSer_passes_cases:
  "(fst (checkSer w arr st) = Inr ())
     = list_all (\<lambda>s. case mi w (itmLotRequest st s) of
                        Rejected e \<Rightarrow> statusCode e = 400
                      | Resolved None \<Rightarrow> True
                      | Resolved (Some item) \<Rightarrow>
                          \<not> (map_of item ''ITNO'' = ITNO st \<and> map_of item ''BANO'' = Some s)) arr"
proof -
  have "\<And>s. (checkIdentifier ''Serial'' w st s = Inr ())
      = (case mi w (itmLotRequest st s) of
           Rejected e \<Rightarrow> statusCode e = 400
         | Resolved None \<Rightarrow> True
         | Resolved (Some item) \<Rightarrow>
             \<not> (map_of item ''ITNO'' = ITNO st \<and> map_of item ''BANO'' = Some s))"
    unfolding checkIdentifier_cases by (simp split: mi_outcome.splits option.splits)
  then show ?thesis
    by (simp add: checkSer_passes)
qed

text \<open>
  Claim C10. When the lookup of a lot returns, the check fails with the already-exists
  error if the response carries a record whose item number and identifier both equal the
  queried ones, and passes otherwise: with a record that differs in either field, and
  with no record at all. The check of a batch of serials, of any length and for any order
  in which the answers arrive, passes exactly when the lookup of every serial either
  signals not-found or returns without such a record, and the already-exists error it
  raises names a serial of the batch whose lookup returned a record equal in both fields.
\<close>

theorem check_passes_without_exact_match:
  assumes "mi w (itmLotRequest st lot) = Resolved r"
  shows "fst (checkLot w lot st) =
       (if \<exists>item. r = Some item \<and> map_of item ''ITNO'' = ITNO st \<and> map_of item ''BANO'' = Some lot
        then Inl (AlreadyExists ''Lot'' lot (ITNO st)) else Inr ())
     \<and> (fst (checkSer w arr st) = Inr ())
       = list_all (\<lambda>s. case mi w (itmLotRequest st s) of
                          Rejected e \<Rightarrow> statusCode e = 400
                        | Resolved None \<Rightarrow> True
                        | Resolved (Some item) \<Rightarrow>
                            \<not> (map_of item ''ITNO'' = ITNO st \<and> map_of item ''BANO'' = Some s)) arr
     \<and> (fst (checkSer w arr st) = Inl (AlreadyExists kind t itno) \<longrightarrow>
          kind = ''Serial'' \<and> itno = ITNO st \<and> t \<in> set arr
          \<and> (\<exists>item. mi w (itmLotRequest st t) = Resolved (Some item)
                 \<and> map_of item ''ITNO'' = ITNO st \<and> map_of item ''BANO'' = Some t))"
proof (intro conjI impI)
  show "fst (checkLot w lot st) =
       (if \<exists>item. r = Some item \<and> map_of item ''ITNO'' = ITNO st \<and> map_of item ''BANO'' = Some lot
        then Inl (AlreadyExists ''Lot'' lot (ITNO st)) else Inr ())"
    using assms by (cases r) (simp_all add: checkLot_result checkIdentifier_cases)
  show "(fst (checkSer w arr st) = Inr ())
       = list_all (\<lambda>s. case mi w (itmLotRequest st s) of
                          Rejected e \<Rightarrow> statusCode e = 400
                        | Resolved None \<Rightarrow> True
                        | Resolved (Some item) \<Rightarrow>
                            \<not> (map_of item ''ITNO'' = ITNO st \<and> map_of item ''BANO'' = Some s)) arr"
    by (rule checkSer_passes_cases)
next
  assume a: "fst (checkSer w arr st) = Inl (AlreadyExists kind t itno)"
  note e = checkSer_already_exists [OF a]
  from e show "kind = ''Serial''" by blast
  from e show "itno = ITNO st" by blast
  from e show "t \<in> set arr" by blast
  from e show "\<exists>item. mi w (itmLotRequest st t) = Resolved (Some item)
                 \<and> map_of item ''ITNO'' = ITNO st \<and> map_of item ''BANO'' = Some t" by blast
qed

theorem check_passes_without_exact_match_witness:
  "fst (checkLot (sampleWorld ''1'' otherRecordRemote True []) ''SN-1'' pumpState) = Inr ()
   \<and> fst (checkSer (sampleWorld ''1'' otherRecordRemote True []) [''SN-1'', ''SN-2''] pumpState)
     = Inr ()
   \<and> fst (checkSer (sampleWorld ''1'' otherRecordRemote True []) [''SN-1'', ''SN-9''] pumpState)
     \<noteq> Inr ()
   \<and> fst (checkSer (sampleWorld ''1'' otherRecordRemote True []) [''SN-1'', ''SN-9''] pumpState)
     = Inl (AlreadyExists ''Serial'' ''SN-9'' (Some ''PUMP''))"
proof -
  let ?w = "sampleWorld ''1'' otherRecordRemote True []"
  have r: "mi ?w (itmLotRequest pumpState ''SN-1'')
      = Resolved (Some [(''ITNO'', ''PUMP''), (''BANO'', ''SN-9'')])"
    by (simp add: sampleWorld_def otherRecordRemote_def)
  note inst = check_passes_without_exact_match [OF r]
  have a: "fst (checkLot ?w ''SN-1'' pumpState) = Inr ()"
    by (subst inst [THEN conjunct1]) simp
  have b: "fst (checkSer ?w [''SN-1'', ''SN-2''] pumpState) = Inr ()"
    by (subst inst [THEN conjunct2, THEN conjunct1]) code_simp
  have "(fst (checkSer ?w [''SN-1'', ''SN-9''] pumpState) = Inr ()) = False"
    by (subst inst [THEN conjunct2, THEN conjunct1]) code_simp
  then have c: "fst (checkSer ?w [''SN-1'', ''SN-9''] pumpState) \<noteq> Inr ()"
    by simp
  have d: "fst (checkSer ?w [''SN-1'', ''SN-9''] pumpState)
      = Inl (AlreadyExists ''Serial'' ''SN-9'' (Some ''PUMP''))"
    by code_simp
  from a b c d show ?thesis
    by (intro conjI)
qed

text \<open>
  Claim C7, as amended. The check of one identifier passes when the lookup is rejected with
  status code 400 and also when it returns without a record that matches the queried item
  and identifier; it fails with the already-exists error when the returned record matches
  both; and an error of any other status code is thrown on as it is. The check of a batch
  of serials issues one lookup for each, passes when every serial passes, and otherwise
  fails with the error of one of them.
\<close>

theorem identifier_check_outcomes:
  "fst (checkLot w lot st) =
     (case mi w (itmLotRequest st lot) of
        Rejected e \<Rightarrow> (if statusCode e = 400 then Inr () else Inl (RemoteError e))
      | Resolved None \<Rightarrow> Inr ()
      | Resolved (Some item) \<Rightarrow>
          (if map_of item ''ITNO'' = ITNO st \<and> map_of item ''BANO'' = Some lot
           then Inl (AlreadyExists ''Lot'' lot (ITNO st)) else Inr ()))
   \<and> checkIdentifier ''Serial'' w st s =
     (case mi w (itmLotRequest st s) of
        Rejected e \<Rightarrow> (if statusCode e = 400 then Inr () else Inl (RemoteError e))
      | Resolved None \<Rightarrow> Inr ()
      | Resolved (Some item) \<Rightarrow>
          (if map_of item ''ITNO'' = ITNO st \<and> map_of item ''BANO'' = Some s
           then Inl (AlreadyExists ''Serial'' s (ITNO st)) else Inr ()))
   \<and> (fst (checkSer w arr st) = Inr ())
     = list_all (\<lambda>s. checkIdentifier ''Serial'' w st s = Inr ()) arr
   \<and> fst (checkSer w arr st) \<in> insert (Inr ()) (checkIdentifier ''Serial'' w st ` set arr)
   \<and> trace (snd (checkSer w arr st)) = trace st @ map (itmLotRequest st) arr
   \<and> trace (snd (checkLot w lot st)) = trace st @ [itmLotRequest st lot]"
proof (intro conjI)
  show "fst (checkLot w lot st) =
     (case mi w (itmLotRequest st lot) of
        Rejected e \<Rightarrow> (if statusCode e = 400 then Inr () else Inl (RemoteError e))
      | Resolved None \<Rightarrow> Inr ()
      | Resolved (Some item) \<Rightarrow>
          (if map_of item ''ITNO'' = ITNO st \<and> map_of item ''BANO'' = Some lot
           then Inl (AlreadyExists ''Lot'' lot (ITNO st)) else Inr ()))"
    unfolding checkLot_result by (rule checkIdentifier_cases)
  show "checkIdentifier ''Serial'' w st s =
     (case mi w (itmLotRequest st s) of
        Rejected e \<Rightarrow> (if statusCode e = 400 then Inr () else Inl (RemoteError e))
      | Resolved None \<Rightarrow> Inr ()
      | Resolved (Some item) \<Rightarrow>
          (if map_of item ''ITNO'' = ITNO st \<and> map_of item ''BANO'' = Some s
           then Inl (AlreadyExists ''Serial'' s (ITNO st)) else Inr ()))"
    by (rule checkIdentifier_cases)
  show "(fst (checkSer w arr st) = Inr ())
     = list_all (\<lambda>s. checkIdentifier ''Serial'' w st s = Inr ()) arr"
    by (rule checkSer_passes)
  show "fst (checkSer w arr st) \<in> insert (Inr ()) (checkIdentifier ''Serial'' w st ` set arr)"
    by (rule checkSer_result)
  show "trace (snd (checkSer w arr st)) = trace st @ map (itmLotRequest st) arr"
    by (rule checkSer_trace)
  show "trace (snd (checkLot w lot st)) = trace st @ [itmLotRequest st lot]"
    by (rule checkLot_trace)
qed

theorem identifier_check_outcomes_witness:
  "fst (checkLot (sampleWorld ''1'' brokenRemote True []) ''LOT-1'' pumpState)
     = Inl (RemoteError \<lparr>statusCode = 500, errorMessage = ''Internal error''\<rparr>)
   \<and> fst (checkLot (sampleWorld ''1'' (sampleRemote ''3'' ''5'' False ''90'') True []) ''LOT-1'' pumpState)
     = Inr ()"
proof -
  have a: "fst (checkLot (sampleWorld ''1'' brokenRemote True []) ''LOT-1'' pumpState)
     = Inl (RemoteError \<lparr>statusCode = 500, errorMessage = ''Internal error''\<rparr>)"
    by (subst identifier_check_outcomes [THEN conjunct1])
       (simp add: sampleWorld_def brokenRemote_def)
  have b: "fst (checkLot (sampleWorld ''1'' (sampleRemote ''3'' ''5'' False ''90'') True []) ''LOT-1'' pumpState)
     = Inr ()"
    by (subst identifier_check_outcomes [THEN conjunct1])
       (simp add: sampleWorld_def sampleRemote_def itmLotRequest_def request_def notFound_def)
  from a b show ?thesis by simp
qed

text \<open>
  The claim as the specification states it, that the check passes exactly when the lookup
  signals the not-found status, fails where the lookup returns no record: the check passes
  and no status was signalled.
\<close>

theorem check_passes_without_not_found_counterexample:
  "fst (checkLot (sampleWorld ''1'' noRecordRemote True []) ''LOT-1'' pumpState) = Inr ()
   \<and> fst (checkSer (sampleWorld ''1'' noRecordRemote True []) [''SN-1''] pumpState) = Inr ()
   \<and> mi (sampleWorld ''1'' noRecordRemote True []) (itmLotRequest pumpState ''LOT-1'') = Resolved None
   \<and> mi (sampleWorld ''1'' noRecordRemote True []) (itmLotRequest pumpState ''SN-1'') = Resolved None"
  by (simp add: checkLot_result checkSer_single checkIdentifier_cases sampleWorld_def
      noRecordRemote_def)

subsection \<open>Rollback and creation of equipment records\<close>

lemma transaction_delRequest [simp]:
  "program (delRequest equip) = ''MMS240MI''" "transaction (delRequest equip) = ''Del''"
  by (simp_all add: delRequest_def request_def)

lemma rollbackEquipment_trace:
  "trace (rollbackEquipment w st) = trace st @ map delRequest (tracked st)"
  by (simp add: rollbackEquipment_def tracked_def Let_def split: option.splits)

lemma rollbackEquipment_tracked: "tracked (rollbackEquipment w st) = []"
  by (simp add: rollbackEquipment_def tracked_def Let_def split: option.splits)

lemma rollbackEquipment_shown: "shown (rollbackEquipment w st) = shown st"
  by (simp add: rollbackEquipment_def Let_def split: option.splits)

lemma rollbackEquipment_deletions:
  "deletions (rollbackEquipment w st) = deletions st @ map delRequest (tracked st)"
  by (simp add: deletions_def rollbackEquipment_trace)

lemma rollbackEquipment_logs:
  "logs (rollbackEquipment w st) =
     logs st @ (if tracked st = [] then [RollbackNothing]
                else RollbackStart (length (tracked st))
                     # map (\<lambda>equip. snd (deleteEquipment w equip)) (tracked st)
                     @ [RollbackSummary (length (tracked st)) 0])"
proof -
  have all: "\<And>eqs. filter (\<lambda>r. fst r = Fulfilled) (map (deleteEquipment w) eqs) = map (deleteEquipment w) eqs"
    by (rule filter_True) (auto simp: deleteEquipment_def split: mi_outcome.splits)
  have none: "\<And>eqs. filter (\<lambda>r. fst r = NotFulfilled) (map (deleteEquipment w) eqs) = []"
    by (auto simp: filter_empty_conv deleteEquipment_def split: mi_outcome.splits)
  show ?thesis
    by (simp add: rollbackEquipment_def tracked_def Let_def all none split: option.splits)
qed

lemma createEach_created:
  "fst (snd (createEach w st xs acc))
     = acc @ map (Pair (ITNO st)) (takeWhile (returnsRecord w st) xs)"
  by (induction xs arbitrary: acc)
     (simp_all add: returnsRecord_def split: mi_outcome.splits option.splits)

lemma createEach_later:
  "snd (snd (createEach w st xs acc)) = tl (dropWhile (returnsRecord w st) xs)"
  by (induction xs arbitrary: acc)
     (simp_all add: returnsRecord_def split: mi_outcome.splits option.splits)

lemma createEach_ok:
  "(fst (createEach w st xs acc) = None) = list_all (returnsRecord w st) xs"
  by (induction xs arbitrary: acc)
     (simp_all add: returnsRecord_def split: mi_outcome.splits option.splits)

lemma addEquip_ok:
  "(fst (addEquip w arr st) = Inr ()) = list_all (returnsRecord w st) arr"
proof -
  have "(fst (addEquip w arr st) = Inr ())
      = (fst (createEach w st (arrivalOrder (arrival w (map (equipRequest w st) arr)) arr) []) = None)"
    by (simp add: addEquip_def Let_def split: option.splits)
  then show ?thesis
    by (simp add: createEach_ok list_all_iff set_arrivalOrder)
qed

lemma addEquip_isl: "isl (fst (addEquip w arr st)) = (\<not> list_all (returnsRecord w st) arr)"
  using addEquip_ok [of w arr st] by (cases "fst (addEquip w arr st)") auto

lemma takeWhile_all: "list_all P xs \<Longrightarrow> takeWhile P xs = xs"
  by (induction xs) simp_all

lemma addEquip_trace:
  "trace (snd (addEquip w arr st)) =
     trace st @ map (equipRequest w st) arr
     @ (if list_all (returnsRecord w st) arr then []
        else map delRequest (map (Pair (ITNO st))
               (takeWhile (returnsRecord w st)
                  (arrivalOrder (arrival w (map (equipRequest w st) arr)) arr))))"
proof -
  define order where "order = arrivalOrder (arrival w (map (equipRequest w st) arr)) arr"
  have ok: "(fst (createEach w st order []) = None) = list_all (returnsRecord w st) arr"
    by (simp add: createEach_ok order_def list_all_iff set_arrivalOrder)
  show ?thesis
  proof (cases "fst (createEach w st order [])")
    case None
    with ok show ?thesis
      by (simp add: addEquip_def Let_def flip: order_def)
  next
    case (Some e)
    with ok show ?thesis
      by (simp add: addEquip_def Let_def rollbackEquipment_trace tracked_def createEach_created
          flip: order_def)
  qed
qed

lemma addEquip_tracked:
  "tracked (snd (addEquip w arr st)) =
     (if list_all (returnsRecord w st) arr
      then map (Pair (ITNO st)) (arrivalOrder (arrival w (map (equipRequest w st) arr)) arr)
      else latePushes w st
             (drop (if takeWhile (returnsRecord w st)
                         (arrivalOrder (arrival w (map (equipRequest w st) arr)) arr) = []
                    then 0 else duringRollback w (map (equipRequest w st) arr))
                (tl (dropWhile (returnsRecord w st)
                       (arrivalOrder (arrival w (map (equipRequest w st) arr)) arr)))))"
proof -
  define order where "order = arrivalOrder (arrival w (map (equipRequest w st) arr)) arr"
  have ok: "(fst (createEach w st order []) = None) = list_all (returnsRecord w st) arr"
    by (simp add: createEach_ok order_def list_all_iff set_arrivalOrder)
  have all: "list_all (returnsRecord w st) arr \<Longrightarrow> takeWhile (returnsRecord w st) order = order"
    by (rule takeWhile_all) (simp add: order_def list_all_iff set_arrivalOrder)
  show ?thesis
  proof (cases "fst (createEach w st order [])")
    case None
    with ok have allok: "list_all (returnsRecord w st) arr"
      by simp
    then have tw: "takeWhile (returnsRecord w st) order = order"
      by (rule all)
    show ?thesis
      unfolding addEquip_def Let_def order_def [symmetric]
      using None allok by (simp add: tracked_def createEach_created tw)
  next
    case (Some e)
    with ok have "\<not> list_all (returnsRecord w st) arr"
      by simp
    with Some show ?thesis
      unfolding addEquip_def Let_def order_def [symmetric]
      by (simp add: tracked_def rollbackEquipment_tracked [unfolded tracked_def]
          createEach_created createEach_later)
  qed
qed


subsection \<open>The receipt engine\<close>

lemma andThen_keeps:
  assumes "\<And>st. p (snd (f st)) = p st" and "\<And>x st. p (snd (g x st)) = p st"
  shows "p (snd (andThen f g st)) = p st"
proof (cases "f st")
  case (Pair r st1)
  then have "p st1 = p st"
    using assms(1) [of st] by simp
  with Pair show ?thesis
    by (cases r) (simp_all add: andThen_def assms(2))
qed

lemma request_fields [simp]:
  "program (request p t r m) = p" "transaction (request p t r m) = t"
  "mirecord (request p t r m) = r" "maxReturnedRecords (request p t r m) = m"
  by (simp_all add: request_def)

lemma deletions_issue:
  "deletions (issue rq st) = deletions st @ (if program rq = ''MMS240MI'' \<and> transaction rq = ''Del'' then [rq] else [])"
  by (simp add: deletions_def issue_def)

lemma deletions_update [simp]:
  "deletions (st\<lparr>MSGN := m\<rparr>) = deletions st"
  "deletions (st\<lparr>shown := sh\<rparr>) = deletions st"
  "deletions (st\<lparr>createdEquipment := c\<rparr>) = deletions st"
  by (simp_all add: deletions_def)

lemma tracked_update [simp]:
  "tracked (st\<lparr>MSGN := m\<rparr>) = tracked st"
  "tracked (st\<lparr>shown := sh\<rparr>) = tracked st"
  "tracked (st\<lparr>trace := t\<rparr>) = tracked st"
  "tracked (st\<lparr>createdEquipment := c\<rparr>) = (case c of None \<Rightarrow> [] | Some eqs \<Rightarrow> eqs)"
  by (simp_all add: tracked_def)

lemma tracked_issue [simp]: "tracked (issue rq st) = tracked st"
  by (simp add: issue_def)

lemma shown_issue [simp]: "shown (issue rq st) = shown st"
  by (simp add: issue_def)

lemma addWhsHead_keeps:
  "deletions (snd (addWhsHead w st)) = deletions st"
  "tracked (snd (addWhsHead w st)) = tracked st"
  "shown (snd (addWhsHead w st)) = shown st"
  by (simp_all add: addWhsHead_def Let_def headRequest_def deletions_issue
      split: mi_outcome.splits option.splits)

lemma addWhsPack_keeps:
  "deletions (snd (addWhsPack w st)) = deletions st"
  "tracked (snd (addWhsPack w st)) = tracked st"
  "shown (snd (addWhsPack w st)) = shown st"
  by (simp_all add: addWhsPack_def Let_def packRequest_def deletions_issue
      split: mi_outcome.splits option.splits)

lemma addWhsLines_keeps:
  "deletions (snd (addWhsLines w lines st)) = deletions st"
  "tracked (snd (addWhsLines w lines st)) = tracked st"
  "shown (snd (addWhsLines w lines st)) = shown st"
  by (simp_all add: addWhsLines_def Let_def lineRequest_def deletions_def tracked_def
      filter_empty_conv split: option.splits)

lemma prcWhsTran_keeps:
  "deletions (snd (prcWhsTran w st)) = deletions st"
  "tracked (snd (prcWhsTran w st)) = tracked st"
  "shown (snd (prcWhsTran w st)) = shown st"
  by (simp_all add: prcWhsTran_def Let_def prcRequest_def deletions_issue
      split: mi_outcome.splits option.splits)

lemma getWhsHead_keeps:
  "deletions (snd (getWhsHead w st)) = deletions st"
  "tracked (snd (getWhsHead w st)) = tracked st"
  "shown (snd (getWhsHead w st)) = shown st"
  by (simp_all add: getWhsHead_def Let_def statusRequest_def deletions_issue
      split: mi_outcome.splits option.splits)

lemma submitAndPoll_deletions: "deletions (snd (submitAndPoll w lines st)) = deletions st"
  unfolding submitAndPoll_def
  by (intro andThen_keeps addWhsHead_keeps addWhsPack_keeps addWhsLines_keeps prcWhsTran_keeps
      getWhsHead_keeps)

lemma submitAndPoll_tracked: "tracked (snd (submitAndPoll w lines st)) = tracked st"
  unfolding submitAndPoll_def
  by (intro andThen_keeps addWhsHead_keeps addWhsPack_keeps addWhsLines_keeps prcWhsTran_keeps
      getWhsHead_keeps)

lemma submitAndPoll_shown: "shown (snd (submitAndPoll w lines st)) = shown st"
  unfolding submitAndPoll_def
  by (intro andThen_keeps addWhsHead_keeps addWhsPack_keeps addWhsLines_keeps prcWhsTran_keeps
      getWhsHead_keeps)

lemma checkStatus_eq:
  "checkStatus w status st =
     (if status = Some ''90'' then (Inr (), st)
      else (Inl (ProcessingFailed status (diagnostic status)),
            if tracked st \<noteq> [] then rollbackEquipment w st else st))"
  by (auto simp: checkStatus_def tracked_def Let_def split: option.splits)

lemma checkStatus_deletions:
  "deletions (snd (checkStatus w status st)) =
     deletions st @ (if status = Some ''90'' then [] else map delRequest (tracked st))"
  by (simp add: checkStatus_eq rollbackEquipment_deletions)

lemma checkStatus_tracked:
  "tracked (snd (checkStatus w status st)) = (if status = Some ''90'' then tracked st else [])"
  by (simp add: checkStatus_eq rollbackEquipment_tracked)

lemma checkStatus_shown: "shown (snd (checkStatus w status st)) = shown st"
  by (simp add: checkStatus_eq rollbackEquipment_shown)

lemma process_polled:
  "submitAndPoll w lines st = (Inr status, st1) \<Longrightarrow>
   process w lines b st = checkStatus w status st1"
  by (simp add: process_def andThen_def)

lemma process_not_polled:
  "submitAndPoll w lines st = (Inl e, st1) \<Longrightarrow> process w lines b st = (Inl e, st1)"
  by (simp add: process_def andThen_def)

lemma process_shown: "shown (snd (process w lines b st)) = shown st"
  unfolding process_def by (intro andThen_keeps submitAndPoll_shown checkStatus_shown)

lemma process_deletions:
  "deletions (snd (process w lines b st)) =
     deletions st @ (if isl (fst (process w lines b st)) \<and> (\<exists>status. fst (submitAndPoll w lines st) = Inr status)
                     then map delRequest (tracked st) else [])"
proof (cases "submitAndPoll w lines st")
  case (Pair r st1)
  have d: "deletions st1 = deletions st" and t: "tracked st1 = tracked st"
    using submitAndPoll_deletions [of w lines st] submitAndPoll_tracked [of w lines st] Pair
    by simp_all
  show ?thesis
  proof (cases r)
    case (Inl e)
    with Pair d show ?thesis
      by (simp add: process_not_polled)
  next
    case (Inr status)
    with Pair d t show ?thesis
      by (simp add: process_polled checkStatus_eq rollbackEquipment_deletions)
  qed
qed

lemma serialReceipt_tracked: "tracked (snd (serialReceipt w serials st)) = []"
  by (simp add: serialReceipt_def rollbackEquipment_tracked split: prod.splits sum.splits)

lemma serialReceipt_shown: "shown (snd (serialReceipt w serials st)) = shown st"
proof (cases "process w (serialLines serials) False st")
  case (Pair r st1)
  then have "shown st1 = shown st"
    using process_shown [of w "serialLines serials" False st] by simp
  with Pair show ?thesis
    by (cases r) (simp_all add: serialReceipt_def rollbackEquipment_shown)
qed

lemma serialReceipt_deletions:
  "deletions (snd (serialReceipt w serials st)) =
     deletions st @ (if isl (fst (serialReceipt w serials st)) then map delRequest (tracked st) else [])"
proof (cases "submitAndPoll w (serialLines serials) st")
  case (Pair r st1)
  have d: "deletions st1 = deletions st" and t: "tracked st1 = tracked st"
    using submitAndPoll_deletions [of w "serialLines serials" st]
      submitAndPoll_tracked [of w "serialLines serials" st] Pair
    by simp_all
  show ?thesis
  proof (cases r)
    case (Inl e)
    with Pair d t show ?thesis
      by (simp add: serialReceipt_def process_not_polled rollbackEquipment_deletions)
  next
    case (Inr status)
    with Pair d t show ?thesis
      by (simp add: serialReceipt_def process_polled checkStatus_eq rollbackEquipment_deletions
          rollbackEquipment_tracked)
  qed
qed

subsection \<open>The steps before the receipt\<close>

text \<open>A state whose requests so far are look-ups and that tracks no equipment record.\<close>

lemma lookupsOnly_issue:
  "list_all (\<lambda>rq. transaction rq \<in> set lookupTransactions) (trace st) \<Longrightarrow>
   transaction rq \<in> set lookupTransactions \<Longrightarrow>
   list_all (\<lambda>rq. transaction rq \<in> set lookupTransactions) (trace (issue rq st))"
  by (simp add: issue_def)

lemma validateFields_keeps:
  "trace (snd (validateFields w st)) = trace st"
  "tracked (snd (validateFields w st)) = tracked st"
  "shown (snd (validateFields w st)) = shown st"
  by (simp_all add: validateFields_def Let_def tracked_def)

lemma getPOLine_trace: "trace (snd (getPOLine w st)) = trace st @ [getLineRequest st]"
  by (simp add: getPOLine_def Let_def issue_def split: mi_outcome.splits option.splits)

lemma getPOLine_keeps:
  "tracked (snd (getPOLine w st)) = tracked st"
  "shown (snd (getPOLine w st)) = shown st"
  by (simp_all add: getPOLine_def Let_def issue_def tracked_def
      split: mi_outcome.splits option.splits)

lemma lookupHeader_keeps:
  "trace (snd (lookupHeader w st)) = trace st @ [getHeadRequest st]"
  "tracked (snd (lookupHeader w st)) = tracked st"
  "shown (snd (lookupHeader w st)) = shown st"
  by (simp_all add: lookupHeader_def Let_def issue_def tracked_def
      split: mi_outcome.splits option.splits)

lemma lookupWarehouse_keeps:
  "trace (snd (lookupWarehouse w st)) = trace st @ [whsRequest st]"
  "tracked (snd (lookupWarehouse w st)) = tracked st"
  "shown (snd (lookupWarehouse w st)) = shown st"
  by (simp_all add: lookupWarehouse_def Let_def issue_def tracked_def
      split: mi_outcome.splits option.splits)

lemma lookupItem_keeps:
  "trace (snd (lookupItem w st)) = trace st @ [itemRequest st]"
  "tracked (snd (lookupItem w st)) = tracked st"
  "shown (snd (lookupItem w st)) = shown st"
  by (simp_all add: lookupItem_def Let_def issue_def tracked_def
      split: mi_outcome.splits option.splits)

lemma lookupRemaining_keeps:
  "trace (snd (lookupRemaining w st)) = trace st @ [remRequest st]"
  "tracked (snd (lookupRemaining w st)) = tracked st"
  "shown (snd (lookupRemaining w st)) = shown st"
  by (simp_all add: lookupRemaining_def Let_def issue_def tracked_def
      split: mi_outcome.splits option.splits)

lemma lookupCustomer_keeps:
  "trace (snd (lookupCustomer w st)) =
     trace st @ (if RORC st = Some ''3'' \<and> truthy (RORN st) then [customerRequest st] else [])"
  "tracked (snd (lookupCustomer w st)) = tracked st"
  "shown (snd (lookupCustomer w st)) = shown st"
  by (simp_all add: lookupCustomer_def Let_def issue_def tracked_def
      split: mi_outcome.splits option.splits)

text \<open>An invariant of the steps: what holds before a step and is kept by it holds after.\<close>

lemma andThen_invariant:
  assumes "\<And>st. P st \<Longrightarrow> P (snd (f st))" and "\<And>x st. P st \<Longrightarrow> P (snd (g x st))" and "P st"
  shows "P (snd (andThen f g st))"
proof (cases "f st")
  case (Pair r st1)
  then have "P st1"
    using assms(1) [OF assms(3)] by simp
  with Pair show ?thesis
    by (cases r) (simp_all add: andThen_def assms(2))
qed

lemma lookups_invariant:
  assumes "list_all (\<lambda>rq. transaction rq \<in> set lookupTransactions) (trace st)"
    and "tracked st = []" and "shown st = []"
  shows "list_all (\<lambda>rq. transaction rq \<in> set lookupTransactions) (trace (snd (lookupSteps w st)))
       \<and> tracked (snd (lookupSteps w st)) = [] \<and> shown (snd (lookupSteps w st)) = []"
proof -
  define P where "P = (\<lambda>st. list_all (\<lambda>rq. transaction rq \<in> set lookupTransactions) (trace st)
       \<and> tracked st = [] \<and> shown st = [])"
  have start: "P st"
    using assms by (simp add: P_def)
  have v: "\<And>st. P st \<Longrightarrow> P (snd (validateFields w st))"
    by (simp add: P_def validateFields_keeps)
  have g: "\<And>st. P st \<Longrightarrow> P (snd (getPOLine w st))"
    by (simp add: P_def getPOLine_keeps getPOLine_trace getLineRequest_def lookupTransactions_def)
  have h: "\<And>st. P st \<Longrightarrow> P (snd (lookupHeader w st))"
    by (simp add: P_def lookupHeader_keeps getHeadRequest_def lookupTransactions_def)
  have wh: "\<And>st. P st \<Longrightarrow> P (snd (lookupWarehouse w st))"
    by (simp add: P_def lookupWarehouse_keeps whsRequest_def lookupTransactions_def)
  have i: "\<And>st. P st \<Longrightarrow> P (snd (lookupItem w st))"
    by (simp add: P_def lookupItem_keeps itemRequest_def lookupTransactions_def)
  have r: "\<And>st. P st \<Longrightarrow> P (snd (lookupRemaining w st))"
    by (simp add: P_def lookupRemaining_keeps remRequest_def lookupTransactions_def)
  have c: "\<And>st. P st \<Longrightarrow> P (snd (lookupCustomer w st))"
    by (simp add: P_def lookupCustomer_keeps customerRequest_def lookupTransactions_def)
  have l: "\<And>st. P st \<Longrightarrow> P (snd (lookups w st))"
    unfolding lookups_def
    by (intro andThen_invariant [where P = P] h wh i r c)
  have "P (snd (lookupSteps w st))"
    unfolding lookupSteps_def
    by (intro andThen_invariant [where P = P] v g l start)
  then show ?thesis
    by (simp add: P_def)
qed

lemma lookupSteps_initial:
  "list_all (\<lambda>rq. transaction rq \<in> set lookupTransactions) (trace (snd (lookupSteps w initial)))
   \<and> tracked (snd (lookupSteps w initial)) = [] \<and> shown (snd (lookupSteps w initial)) = []"
  by (rule lookups_invariant) (simp_all add: initial_def tracked_def)

lemma deletions_of_lookups:
  "list_all (\<lambda>rq. transaction rq \<in> set lookupTransactions) (trace st) \<Longrightarrow> deletions st = []"
  by (auto simp: deletions_def filter_empty_conv list_all_iff lookupTransactions_def)

lemma filter_of_lookups:
  assumes "list_all (\<lambda>rq. transaction rq \<in> set lookupTransactions) rqs"
    and "t \<notin> set lookupTransactions"
  shows "filter (\<lambda>rq. transaction rq = t) rqs = []"
  using assms by (auto simp: filter_empty_conv list_all_iff)

lemma dialogWarn_keeps:
  "trace (snd (dialogWarn w msg st)) = trace st"
  "tracked (snd (dialogWarn w msg st)) = tracked st"
  "shown (snd (dialogWarn w msg st)) = shown st @ [Warned msg]"
  "fst (dialogWarn w msg st) =
     (if warnProceed w msg then Inr () else Inl (UserCancelled ''Operation cancelled by user''))"
  by (simp_all add: dialogWarn_def Let_def)

lemma warnWms_keeps:
  "trace (snd (warnWms w st)) = trace st"
  "tracked (snd (warnWms w st)) = tracked st"
  by (simp_all add: warnWms_def dialogWarn_keeps)

lemma warnOverReceipt_keeps:
  "trace (snd (warnOverReceipt w st)) = trace st"
  "tracked (snd (warnOverReceipt w st)) = tracked st"
  by (simp_all add: warnOverReceipt_def dialogWarn_keeps Let_def)


lemma warnings_trace: "trace (snd (warnings w st)) = trace st"
  unfolding warnings_def by (intro andThen_keeps warnWms_keeps warnOverReceipt_keeps)

lemma warnings_tracked: "tracked (snd (warnings w st)) = tracked st"
  unfolding warnings_def by (intro andThen_keeps warnWms_keeps warnOverReceipt_keeps)

lemma promptSerials_keeps:
  "trace (snd (promptSerials w st)) = trace st"
  "tracked (snd (promptSerials w st)) = tracked st"
  by (simp_all add: promptSerials_def Let_def)

lemma checkSer_tracked: "tracked (snd (checkSer w arr st)) = tracked st"
  by (simp add: checkSer_def Let_def split: option.splits)


subsection \<open>The run from the branch on\<close>

lemma report_keeps:
  "fst (report r) = (case fst r of Inr _ \<Rightarrow> Succeeded | Inl e \<Rightarrow> Failed e)"
  "trace (snd (report r)) = trace (snd r)"
  "tracked (snd (report r)) = tracked (snd r)"
  "deletions (snd (report r)) = deletions (snd r)"
  by (simp_all add: report_def split: prod.splits sum.splits)

lemma report_failed: "(fst (report r) = Succeeded) = (\<not> isl (fst r))"
  by (cases r, cases "fst r") (simp_all add: report_def)

lemma run_from_branch:
  assumes "lookupSteps w initial = (Inr (), s3)" and "warnings w s3 = (Inr (), s4)"
  shows "run w = report (branch w s4)"
  using assms by (simp add: run_def steps_def andThen_def)

lemma serialBranch_from_creation:
  assumes "promptSerials w s4 = (Inr serials, s5)" and "checkSer w serials s5 = (Inr (), s6)"
  shows "serialBranch w s4 = andThen (addEquip w serials) (\<lambda>_. serialReceipt w serials) s6"
  using assms by (simp add: serialBranch_def andThen_def)

lemma addEquip_deletions:
  "deletions (snd (addEquip w arr st)) =
     deletions st
     @ (if list_all (returnsRecord w st) arr then []
        else map delRequest (map (Pair (ITNO st))
               (takeWhile (returnsRecord w st)
                  (arrivalOrder (arrival w (map (equipRequest w st) arr)) arr))))"
proof -
  have adds: "filter (\<lambda>rq. program rq = ''MMS240MI'' \<and> transaction rq = ''Del'')
      (map (equipRequest w st) arr) = []"
    by (simp add: filter_empty_conv equipRequest_def)
  have dels: "\<And>eqs. filter (\<lambda>rq. program rq = ''MMS240MI'' \<and> transaction rq = ''Del'')
      (map delRequest eqs) = map delRequest eqs"
    by (rule filter_True) simp
  show ?thesis
    unfolding deletions_def addEquip_trace by (simp add: adds dels)
qed

lemma report_shown:
  "shown (snd (report r)) =
     shown (snd r) @ [case fst r of Inr _ \<Rightarrow> SuccessDialog | Inl e \<Rightarrow> ErrorDialog e]"
  by (simp add: report_def split: prod.splits sum.splits)

lemma promptLot_keeps:
  "trace (snd (promptLot w st)) = trace st"
  "tracked (snd (promptLot w st)) = tracked st"
  by (simp_all add: promptLot_def Let_def)

lemma promptConfirm_keeps:
  "trace (snd (promptConfirm w st)) = trace st"
  "tracked (snd (promptConfirm w st)) = tracked st"
  by (simp_all add: promptConfirm_def Let_def)

lemma checkLot_tracked: "tracked (snd (checkLot w lot st)) = tracked st"
  by (simp add: checkLot_def Let_def split: sum.splits)

lemma lotBranch_from_check:
  assumes "promptLot w s4 = (Inr (lot, expi), s5)" and "checkLot w lot s5 = (Inr (), s6)"
  shows "lotBranch w s4 = process w [\<lparr>BANO = Some lot, QTY = RVQA s6, EXPI = expi\<rparr>] False s6"
  using assms by (simp add: lotBranch_def andThen_def)

lemma plainBranch_from_confirm:
  assumes "promptConfirm w s4 = (Inr (), s5)"
  shows "plainBranch w s4 = process w [\<lparr>BANO = None, QTY = RVQA s5, EXPI = None\<rparr>] False s5"
  using assms by (simp add: plainBranch_def andThen_def)

subsection \<open>Compensation\<close>

text \<open>
  Claim C1. The rollback deletes the records tracked when it starts and nothing else, and
  \<^verbatim>\<open>addEquip\<close> starts it at the first creation that fails, while other creations are still
  in flight. Three serials SN-1, SN-2, SN-3 of item PUMP are received. When the creation
  of SN-1 returns a record, the creation of SN-2 is rejected, and the creation of SN-3
  returns a record after that, the run fails with the error of SN-2, the only deletion
  request it issues is the one for SN-1, and the record of SN-3 stays in the remote
  system: it is still tracked at the end of the run when its answer arrived after the
  rollback, and it is not even tracked when its answer arrived during the rollback. When
  the creation of SN-1 is rejected first, nothing is tracked yet, the rollback returns at
  once without a deletion request, and the records of SN-2 and SN-3, created after that,
  stay in the remote system and on the tracking list.
\<close>

theorem late_creation_is_never_deleted:
  "fst (run (lateAnswerWorld ''SN-2'' 0))
     = Failed (RemoteError \<lparr>statusCode = 500, errorMessage = ''Internal error''\<rparr>)
   \<and> creations (lateAnswerWorld ''SN-2'' 0) (snd (run (lateAnswerWorld ''SN-2'' 0)))
     = [(Some (Some ''SN-1''), Resolved (Some [])),
        (Some (Some ''SN-2''),
         Rejected \<lparr>statusCode = 500, errorMessage = ''Internal error''\<rparr>),
        (Some (Some ''SN-3''), Resolved (Some []))]
   \<and> deletions (snd (run (lateAnswerWorld ''SN-2'' 0)))
     = [\<lparr>program = ''MMS240MI'', transaction = ''Del'',
         mirecord = [(''ITNO'', Some ''PUMP''), (''SERN'', Some ''SN-1'')],
         maxReturnedRecords = 1\<rparr>]
   \<and> tracked (snd (run (lateAnswerWorld ''SN-2'' 0))) = [(Some ''PUMP'', ''SN-3'')]
   \<and> fst (run (lateAnswerWorld ''SN-2'' 1))
     = Failed (RemoteError \<lparr>statusCode = 500, errorMessage = ''Internal error''\<rparr>)
   \<and> creations (lateAnswerWorld ''SN-2'' 1) (snd (run (lateAnswerWorld ''SN-2'' 1)))
     = [(Some (Some ''SN-1''), Resolved (Some [])),
        (Some (Some ''SN-2''),
         Rejected \<lparr>statusCode = 500, errorMessage = ''Internal error''\<rparr>),
        (Some (Some ''SN-3''), Resolved (Some []))]
   \<and> deletions (snd (run (lateAnswerWorld ''SN-2'' 1)))
     = [\<lparr>program = ''MMS240MI'', transaction = ''Del'',
         mirecord = [(''ITNO'', Some ''PUMP''), (''SERN'', Some ''SN-1'')],
         maxReturnedRecords = 1\<rparr>]
   \<and> tracked (snd (run (lateAnswerWorld ''SN-2'' 1))) = []
   \<and> fst (run (lateAnswerWorld ''SN-1'' 1))
     = Failed (RemoteError \<lparr>statusCode = 500, errorMessage = ''Internal error''\<rparr>)
   \<and> creations (lateAnswerWorld ''SN-1'' 1) (snd (run (lateAnswerWorld ''SN-1'' 1)))
     = [(Some (Some ''SN-1''),
         Rejected \<lparr>statusCode = 500, errorMessage = ''Internal error''\<rparr>),
        (Some (Some ''SN-2''), Resolved (Some [])),
        (Some (Some ''SN-3''), Resolved (Some []))]
   \<and> deletions (snd (run (lateAnswerWorld ''SN-1'' 1)))
     = []
   \<and> tracked (snd (run (lateAnswerWorld ''SN-1'' 1))) = [(Some ''PUMP'', ''SN-2''), (Some ''PUMP'', ''SN-3'')]"
proof (intro conjI)
  show "fst (run (lateAnswerWorld ''SN-2'' 0))
     = Failed (RemoteError \<lparr>statusCode = 500, errorMessage = ''Internal error''\<rparr>)"
    by code_simp
  show "creations (lateAnswerWorld ''SN-2'' 0) (snd (run (lateAnswerWorld ''SN-2'' 0)))
     = [(Some (Some ''SN-1''), Resolved (Some [])),
        (Some (Some ''SN-2''),
         Rejected \<lparr>statusCode = 500, errorMessage = ''Internal error''\<rparr>),
        (Some (Some ''SN-3''), Resolved (Some []))]"
    by code_simp
  show "deletions (snd (run (lateAnswerWorld ''SN-2'' 0)))
     = [\<lparr>program = ''MMS240MI'', transaction = ''Del'',
         mirecord = [(''ITNO'', Some ''PUMP''), (''SERN'', Some ''SN-1'')],
         maxReturnedRecords = 1\<rparr>]"
    by code_simp
  show "tracked (snd (run (lateAnswerWorld ''SN-2'' 0))) = [(Some ''PUMP'', ''SN-3'')]"
    by code_simp
  show "fst (run (lateAnswerWorld ''SN-2'' 1))
     = Failed (RemoteError \<lparr>statusCode = 500, errorMessage = ''Internal error''\<rparr>)"
    by code_simp
  show "creations (lateAnswerWorld ''SN-2'' 1) (snd (run (lateAnswerWorld ''SN-2'' 1)))
     = [(Some (Some ''SN-1''), Resolved (Some [])),
        (Some (Some ''SN-2''),
         Rejected \<lparr>statusCode = 500, errorMessage = ''Internal error''\<rparr>),
        (Some (Some ''SN-3''), Resolved (Some []))]"
    by code_simp
  show "deletions (snd (run (lateAnswerWorld ''SN-2'' 1)))
     = [\<lparr>program = ''MMS240MI'', transaction = ''Del'',
         mirecord = [(''ITNO'', Some ''PUMP''), (''SERN'', Some ''SN-1'')],
         maxReturnedRecords = 1\<rparr>]"
    by code_simp
  show "tracked (snd (run (lateAnswerWorld ''SN-2'' 1))) = []"
    by code_simp
  show "fst (run (lateAnswerWorld ''SN-1'' 1))
     = Failed (RemoteError \<lparr>statusCode = 500, errorMessage = ''Internal error''\<rparr>)"
    by code_simp
  show "creations (lateAnswerWorld ''SN-1'' 1) (snd (run (lateAnswerWorld ''SN-1'' 1)))
     = [(Some (Some ''SN-1''),
         Rejected \<lparr>statusCode = 500, errorMessage = ''Internal error''\<rparr>),
        (Some (Some ''SN-2''), Resolved (Some [])),
        (Some (Some ''SN-3''), Resolved (Some []))]"
    by code_simp
  show "deletions (snd (run (lateAnswerWorld ''SN-1'' 1)))
     = []"
    by code_simp
  show "tracked (snd (run (lateAnswerWorld ''SN-1'' 1))) = [(Some ''PUMP'', ''SN-2''), (Some ''PUMP'', ''SN-3'')]"
    by code_simp
qed

subsection \<open>The status of the transaction\<close>

lemma nothing_after_warnings:
  assumes prep: "lookupSteps w initial = (Inr (), s3)"
    and warn: "warnings w s3 = (r, s4)"
  shows "list_all (\<lambda>rq. transaction rq \<in> set lookupTransactions) (trace s4)"
    and "deletions s4 = []" and "tracked s4 = []"
proof -
  have "list_all (\<lambda>rq. transaction rq \<in> set lookupTransactions) (trace s3)"
    using lookupSteps_initial [of w] prep by simp
  then show l: "list_all (\<lambda>rq. transaction rq \<in> set lookupTransactions) (trace s4)"
    using warnings_trace [of w s3] warn by simp
  then show "deletions s4 = []"
    by (rule deletions_of_lookups)
  have "tracked s3 = []"
    using lookupSteps_initial [of w] prep by simp
  then show "tracked s4 = []"
    using warnings_tracked [of w s3] warn by simp
qed

lemma no_deletions_before_creation:
  assumes prep: "lookupSteps w initial = (Inr (), s3)"
    and warn: "warnings w s3 = (Inr (), s4)"
    and prompt: "promptSerials w s4 = (r, s5)"
    and checked: "checkSer w serials s5 = (c, s6)"
  shows "deletions s6 = []" and "tracked s6 = []"
proof -
  note s4 = nothing_after_warnings [OF prep warn]
  have "deletions s5 = []"
    using s4(2) promptSerials_keeps(1) [of w s4] prompt by (simp add: deletions_def)
  moreover have "trace s6 = trace s5 @ map (itmLotRequest s5) serials"
    using checkSer_trace [of w serials s5] checked by simp
  ultimately show "deletions s6 = []"
    by (simp add: deletions_def filter_empty_conv itmLotRequest_def)
  show "tracked s6 = []"
    using s4(3) promptSerials_keeps(2) [of w s4] prompt checkSer_tracked [of w serials s5] checked
    by simp
qed

lemma no_deletions_before_lot_receipt:
  assumes prep: "lookupSteps w initial = (Inr (), s3)"
    and warn: "warnings w s3 = (Inr (), s4)"
    and prompt: "promptLot w s4 = (r, s5)"
    and checked: "checkLot w lot s5 = (c, s6)"
  shows "deletions s6 = []" and "tracked s6 = []"
proof -
  note s4 = nothing_after_warnings [OF prep warn]
  have "deletions s5 = []"
    using s4(2) promptLot_keeps(1) [of w s4] prompt by (simp add: deletions_def)
  moreover have "trace s6 = trace s5 @ [itmLotRequest s5 lot]"
    using checkLot_trace [of w lot s5] checked by simp
  ultimately show "deletions s6 = []"
    by (simp add: deletions_def itmLotRequest_def)
  show "tracked s6 = []"
    using s4(3) promptLot_keeps(2) [of w s4] prompt checkLot_tracked [of w lot s5] checked
    by simp
qed

lemma no_deletions_before_plain_receipt:
  assumes prep: "lookupSteps w initial = (Inr (), s3)"
    and warn: "warnings w s3 = (Inr (), s4)"
    and confirm: "promptConfirm w s4 = (r, s5)"
  shows "deletions s5 = []" and "tracked s5 = []"
proof -
  note s4 = nothing_after_warnings [OF prep warn]
  show "deletions s5 = []"
    using s4(2) promptConfirm_keeps(1) [of w s4] confirm by (simp add: deletions_def)
  show "tracked s5 = []"
    using s4(3) promptConfirm_keeps(2) [of w s4] confirm by simp
qed

lemma diagnostic_levels:
  "(diagnostic status = HeaderLevel) = (status \<in> {Some ''15'', Some ''20''})"
  "(diagnostic status = PackageLineLevel)
     = (status \<in> {Some ''25'', Some ''30'', Some ''35'', Some ''40''})"
  "(diagnostic status = OtherStatus)
     = (status \<notin> {Some ''15'', Some ''20'', Some ''25'', Some ''30'', Some ''35'', Some ''40''})"
  by (auto simp: diagnostic_def)

lemma process_by_status:
  assumes "submitAndPoll w lines st = (Inr status, st1)"
  shows "process w lines b st =
       (if status = Some ''90'' then (Inr (), st1)
        else (Inl (ProcessingFailed status (diagnostic status)),
              if tracked st1 \<noteq> [] then rollbackEquipment w st1 else st1))"
    and "deletions (snd (process w lines b st)) =
       deletions st @ (if status = Some ''90'' then [] else map delRequest (tracked st))"
    and "tracked (snd (process w lines b st)) = (if status = Some ''90'' then tracked st else [])"
proof -
  show "process w lines b st =
       (if status = Some ''90'' then (Inr (), st1)
        else (Inl (ProcessingFailed status (diagnostic status)),
              if tracked st1 \<noteq> [] then rollbackEquipment w st1 else st1))"
    using assms by (simp add: process_polled checkStatus_eq)
  have "deletions st1 = deletions st" and "tracked st1 = tracked st"
    using submitAndPoll_deletions [of w lines st] submitAndPoll_tracked [of w lines st] assms
    by simp_all
  then show "deletions (snd (process w lines b st)) =
       deletions st @ (if status = Some ''90'' then [] else map delRequest (tracked st))"
    and "tracked (snd (process w lines b st)) = (if status = Some ''90'' then tracked st else [])"
    using assms by (simp_all add: process_polled checkStatus_deletions checkStatus_tracked)
qed

lemma serialReceipt_by_status:
  assumes "submitAndPoll w (serialLines serials) st = (Inr status, st1)"
  shows "fst (serialReceipt w serials st) =
       (if status = Some ''90'' then Inr ()
        else Inl (ProcessingFailed status (diagnostic status)))"
  using assms by (simp add: serialReceipt_def process_polled checkStatus_eq)

text \<open>The end of a run whose last step has the result \<open>r\<close> of a receipt polled with \<open>status\<close>.\<close>

lemma report_by_status:
  assumes "run w = report r"
    and "fst r = (if status = Some ''90'' then Inr ()
                  else Inl (ProcessingFailed status (diagnostic status)))"
    and "shown (snd r) = shown st"
    and "deletions (snd r) = (if status = Some ''90'' then [] else map delRequest (tracked st))"
    and "tracked (snd r) = []"
  shows "fst (run w) =
       (if status = Some ''90'' then Succeeded
        else Failed (ProcessingFailed status (diagnostic status)))
     \<and> shown (snd (run w)) =
       shown st @ [if status = Some ''90'' then SuccessDialog
                   else ErrorDialog (ProcessingFailed status (diagnostic status))]
     \<and> deletions (snd (run w)) =
       (if status = Some ''90'' then [] else map delRequest (tracked st))
     \<and> tracked (snd (run w)) = []"
  unfolding assms(1) report_keeps report_shown assms(2-5) by simp

lemma serial_run_by_status:
  assumes poll: "submitAndPoll w lines st = (Inr status, st1)"
    and prep: "lookupSteps w initial = (Inr (), s3)"
    and warn: "warnings w s3 = (Inr (), s4)"
    and serial: "INDI s4 = Some ''2''"
    and prompt: "promptSerials w s4 = (Inr serials, s5)"
    and checked: "checkSer w serials s5 = (Inr (), s6)"
    and created: "addEquip w serials s6 = (Inr (), st)"
    and lines: "lines = serialLines serials"
  shows "fst (run w) =
       (if status = Some ''90'' then Succeeded
        else Failed (ProcessingFailed status (diagnostic status)))
     \<and> shown (snd (run w)) =
       shown st @ [if status = Some ''90'' then SuccessDialog
                   else ErrorDialog (ProcessingFailed status (diagnostic status))]
     \<and> deletions (snd (run w)) =
       (if status = Some ''90'' then [] else map delRequest (tracked st))
     \<and> tracked (snd (run w)) = []"
    and "tracked st =
       map (Pair (ITNO s6)) (arrivalOrder (arrival w (map (equipRequest w s6) serials)) serials)"
proof -
  have run: "run w = report (serialReceipt w serials st)"
    using run_from_branch [OF prep warn] serialBranch_from_creation [OF prompt checked] serial
      created
    by (simp add: branch_def andThen_def)
  have receipt: "fst (serialReceipt w serials st) =
       (if status = Some ''90'' then Inr ()
        else Inl (ProcessingFailed status (diagnostic status)))"
    using poll unfolding lines by (rule serialReceipt_by_status)
  have allok: "list_all (returnsRecord w s6) serials"
    using addEquip_ok [of w serials s6] created by simp
  have "deletions s6 = []"
    using prep warn prompt checked by (rule no_deletions_before_creation)
  then have d: "deletions st = []"
    using addEquip_deletions [of w serials s6] created allok by simp
  show "tracked st =
       map (Pair (ITNO s6)) (arrivalOrder (arrival w (map (equipRequest w s6) serials)) serials)"
    using addEquip_tracked [of w serials s6] created allok by simp
  have dels: "deletions (snd (serialReceipt w serials st)) =
       (if status = Some ''90'' then [] else map delRequest (tracked st))"
    unfolding serialReceipt_deletions receipt d by simp
  show "fst (run w) =
       (if status = Some ''90'' then Succeeded
        else Failed (ProcessingFailed status (diagnostic status)))
     \<and> shown (snd (run w)) =
       shown st @ [if status = Some ''90'' then SuccessDialog
                   else ErrorDialog (ProcessingFailed status (diagnostic status))]
     \<and> deletions (snd (run w)) =
       (if status = Some ''90'' then [] else map delRequest (tracked st))
     \<and> tracked (snd (run w)) = []"
    using run receipt serialReceipt_shown dels serialReceipt_tracked by (rule report_by_status)
qed

lemma process_run_by_status:
  assumes poll: "submitAndPoll w lines st = (Inr status, st1)"
    and run: "run w = report (process w lines False st)"
    and d: "deletions st = []" and t: "tracked st = []"
  shows "fst (run w) =
       (if status = Some ''90'' then Succeeded
        else Failed (ProcessingFailed status (diagnostic status)))
     \<and> shown (snd (run w)) =
       shown st @ [if status = Some ''90'' then SuccessDialog
                   else ErrorDialog (ProcessingFailed status (diagnostic status))]
     \<and> deletions (snd (run w)) =
       (if status = Some ''90'' then [] else map delRequest (tracked st))
     \<and> tracked (snd (run w)) = []"
proof -
  note p = process_by_status [OF poll, of False]
  have f: "fst (process w lines False st) =
       (if status = Some ''90'' then Inr ()
        else Inl (ProcessingFailed status (diagnostic status)))"
    unfolding p(1) by simp
  have dels: "deletions (snd (process w lines False st)) =
       (if status = Some ''90'' then [] else map delRequest (tracked st))"
    unfolding p(2) d by simp
  have none: "tracked (snd (process w lines False st)) = []"
    unfolding p(3) t by simp
  from run f process_shown dels none show ?thesis
    by (rule report_by_status)
qed

lemma lot_run_by_status:
  assumes poll: "submitAndPoll w lines st = (Inr status, st1)"
    and prep: "lookupSteps w initial = (Inr (), s3)"
    and warn: "warnings w s3 = (Inr (), s4)"
    and lot: "INDI s4 = Some ''3''"
    and prompt: "promptLot w s4 = (Inr (lot, expi), s5)"
    and checked: "checkLot w lot s5 = (Inr (), st)"
    and lines: "lines = [\<lparr>BANO = Some lot, QTY = RVQA st, EXPI = expi\<rparr>]"
  shows "fst (run w) =
       (if status = Some ''90'' then Succeeded
        else Failed (ProcessingFailed status (diagnostic status)))
     \<and> shown (snd (run w)) =
       shown st @ [if status = Some ''90'' then SuccessDialog
                   else ErrorDialog (ProcessingFailed status (diagnostic status))]
     \<and> deletions (snd (run w)) =
       (if status = Some ''90'' then [] else map delRequest (tracked st))
     \<and> tracked (snd (run w)) = []"
    and "tracked st = []"
proof -
  have run: "run w = report (process w lines False st)"
    using run_from_branch [OF prep warn] lotBranch_from_check [OF prompt checked] lot
    by (simp add: branch_def lines)
  note none = no_deletions_before_lot_receipt [OF prep warn prompt checked]
  show "tracked st = []"
    by (rule none(2))
  from poll run none show "fst (run w) =
       (if status = Some ''90'' then Succeeded
        else Failed (ProcessingFailed status (diagnostic status)))
     \<and> shown (snd (run w)) =
       shown st @ [if status = Some ''90'' then SuccessDialog
                   else ErrorDialog (ProcessingFailed status (diagnostic status))]
     \<and> deletions (snd (run w)) =
       (if status = Some ''90'' then [] else map delRequest (tracked st))
     \<and> tracked (snd (run w)) = []"
    by (rule process_run_by_status)
qed

lemma plain_run_by_status:
  assumes poll: "submitAndPoll w lines st = (Inr status, st1)"
    and prep: "lookupSteps w initial = (Inr (), s3)"
    and warn: "warnings w s3 = (Inr (), s4)"
    and plain: "INDI s4 \<noteq> Some ''2''" "INDI s4 \<noteq> Some ''3''"
    and confirm: "promptConfirm w s4 = (Inr (), st)"
    and lines: "lines = [\<lparr>BANO = None, QTY = RVQA st, EXPI = None\<rparr>]"
  shows "fst (run w) =
       (if status = Some ''90'' then Succeeded
        else Failed (ProcessingFailed status (diagnostic status)))
     \<and> shown (snd (run w)) =
       shown st @ [if status = Some ''90'' then SuccessDialog
                   else ErrorDialog (ProcessingFailed status (diagnostic status))]
     \<and> deletions (snd (run w)) =
       (if status = Some ''90'' then [] else map delRequest (tracked st))
     \<and> tracked (snd (run w)) = []"
    and "tracked st = []"
proof -
  have run: "run w = report (process w lines False st)"
    using run_from_branch [OF prep warn] plainBranch_from_confirm [OF confirm] plain
    by (simp add: branch_def lines)
  note none = no_deletions_before_plain_receipt [OF prep warn confirm]
  show "tracked st = []"
    by (rule none(2))
  from poll run none show "fst (run w) =
       (if status = Some ''90'' then Succeeded
        else Failed (ProcessingFailed status (diagnostic status)))
     \<and> shown (snd (run w)) =
       shown st @ [if status = Some ''90'' then SuccessDialog
                   else ErrorDialog (ProcessingFailed status (diagnostic status))]
     \<and> deletions (snd (run w)) =
       (if status = Some ''90'' then [] else map delRequest (tracked st))
     \<and> tracked (snd (run w)) = []"
    by (rule process_run_by_status)
qed

text \<open>
  Claim C2. When the status poll of \<^verbatim>\<open>process\<close> returns, the status \<open>90\<close> alone makes
  \<^verbatim>\<open>process\<close> return, with no deletion request and the tracked records kept; any other
  value makes it roll back the tracked records, if any, and throw the processing error,
  whose level is the header for \<open>15\<close> and \<open>20\<close>, the package or line for \<open>25\<close>, \<open>30\<close>, \<open>35\<close>
  and \<open>40\<close>, and other otherwise. This holds for every call of \<^verbatim>\<open>process\<close>. A run that
  reaches the poll, in the serial branch after the creation of the records, in the lot
  branch after the check of the lot, or in the plain branch after the confirmation, shows
  the success dialog and reports success for \<open>90\<close>, with no deletion request in the whole
  run, and shows the error dialog with the processing error for any other value, with one
  deletion request for each record tracked before the receipt: the created records in the
  serial branch, none in the other branches. No record is tracked at the end of the run.
\<close>

theorem status_decides_the_run:
  assumes poll: "submitAndPoll w lines st = (Inr status, st1)"
  shows "process w lines b st =
       (if status = Some ''90'' then (Inr (), st1)
        else (Inl (ProcessingFailed status (diagnostic status)),
              if tracked st1 \<noteq> [] then rollbackEquipment w st1 else st1))
     \<and> deletions (snd (process w lines b st)) =
       deletions st @ (if status = Some ''90'' then [] else map delRequest (tracked st))
     \<and> tracked (snd (process w lines b st)) = (if status = Some ''90'' then tracked st else [])
     \<and> shown (snd (process w lines b st)) = shown st
     \<and> (diagnostic status = HeaderLevel) = (status \<in> {Some ''15'', Some ''20''})
     \<and> (diagnostic status = PackageLineLevel)
       = (status \<in> {Some ''25'', Some ''30'', Some ''35'', Some ''40''})
     \<and> (diagnostic status = OtherStatus)
       = (status \<notin> {Some ''15'', Some ''20'', Some ''25'', Some ''30'', Some ''35'', Some ''40''})
     \<and> (lookupSteps w initial = (Inr (), s3) \<and> warnings w s3 = (Inr (), s4)
        \<and> (INDI s4 = Some ''2'' \<and> promptSerials w s4 = (Inr serials, s5)
             \<and> checkSer w serials s5 = (Inr (), s6) \<and> addEquip w serials s6 = (Inr (), st)
             \<and> lines = serialLines serials
           \<or> INDI s4 = Some ''3'' \<and> promptLot w s4 = (Inr (lot, expi), s5)
             \<and> checkLot w lot s5 = (Inr (), st)
             \<and> lines = [\<lparr>BANO = Some lot, QTY = RVQA st, EXPI = expi\<rparr>]
           \<or> INDI s4 \<noteq> Some ''2'' \<and> INDI s4 \<noteq> Some ''3'' \<and> promptConfirm w s4 = (Inr (), st)
             \<and> lines = [\<lparr>BANO = None, QTY = RVQA st, EXPI = None\<rparr>])
        \<longrightarrow> fst (run w) =
              (if status = Some ''90'' then Succeeded
               else Failed (ProcessingFailed status (diagnostic status)))
          \<and> shown (snd (run w)) =
              shown st @ [if status = Some ''90'' then SuccessDialog
                          else ErrorDialog (ProcessingFailed status (diagnostic status))]
          \<and> deletions (snd (run w)) =
              (if status = Some ''90'' then [] else map delRequest (tracked st))
          \<and> tracked (snd (run w)) = []
          \<and> tracked st =
              (if INDI s4 = Some ''2''
               then map (Pair (ITNO s6))
                      (arrivalOrder (arrival w (map (equipRequest w s6) serials)) serials)
               else []))"
proof (intro conjI impI)
  show "process w lines b st =
       (if status = Some ''90'' then (Inr (), st1)
        else (Inl (ProcessingFailed status (diagnostic status)),
              if tracked st1 \<noteq> [] then rollbackEquipment w st1 else st1))"
    using poll by (rule process_by_status)
  show "deletions (snd (process w lines b st)) =
       deletions st @ (if status = Some ''90'' then [] else map delRequest (tracked st))"
    using poll by (rule process_by_status)
  show "tracked (snd (process w lines b st)) = (if status = Some ''90'' then tracked st else [])"
    using poll by (rule process_by_status)
  show "shown (snd (process w lines b st)) = shown st"
    by (rule process_shown)
  show "(diagnostic status = HeaderLevel) = (status \<in> {Some ''15'', Some ''20''})"
    by (rule diagnostic_levels)
  show "(diagnostic status = PackageLineLevel)
       = (status \<in> {Some ''25'', Some ''30'', Some ''35'', Some ''40''})"
    by (rule diagnostic_levels)
  show "(diagnostic status = OtherStatus)
       = (status \<notin> {Some ''15'', Some ''20'', Some ''25'', Some ''30'', Some ''35'', Some ''40''})"
    by (rule diagnostic_levels)
next
  assume reached: "lookupSteps w initial = (Inr (), s3) \<and> warnings w s3 = (Inr (), s4)
        \<and> (INDI s4 = Some ''2'' \<and> promptSerials w s4 = (Inr serials, s5)
             \<and> checkSer w serials s5 = (Inr (), s6) \<and> addEquip w serials s6 = (Inr (), st)
             \<and> lines = serialLines serials
           \<or> INDI s4 = Some ''3'' \<and> promptLot w s4 = (Inr (lot, expi), s5)
             \<and> checkLot w lot s5 = (Inr (), st)
             \<and> lines = [\<lparr>BANO = Some lot, QTY = RVQA st, EXPI = expi\<rparr>]
           \<or> INDI s4 \<noteq> Some ''2'' \<and> INDI s4 \<noteq> Some ''3'' \<and> promptConfirm w s4 = (Inr (), st)
             \<and> lines = [\<lparr>BANO = None, QTY = RVQA st, EXPI = None\<rparr>])"
  then have prep: "lookupSteps w initial = (Inr (), s3)" and warn: "warnings w s3 = (Inr (), s4)"
    by simp_all
  from reached consider
    (serial) "INDI s4 = Some ''2''" "promptSerials w s4 = (Inr serials, s5)"
      "checkSer w serials s5 = (Inr (), s6)" "addEquip w serials s6 = (Inr (), st)"
      "lines = serialLines serials"
    | (lot) "INDI s4 = Some ''3''" "promptLot w s4 = (Inr (lot, expi), s5)"
      "checkLot w lot s5 = (Inr (), st)"
      "lines = [\<lparr>BANO = Some lot, QTY = RVQA st, EXPI = expi\<rparr>]"
    | (plain) "INDI s4 \<noteq> Some ''2''" "INDI s4 \<noteq> Some ''3''" "promptConfirm w s4 = (Inr (), st)"
      "lines = [\<lparr>BANO = None, QTY = RVQA st, EXPI = None\<rparr>]"
    by blast
  then have "(fst (run w) =
              (if status = Some ''90'' then Succeeded
               else Failed (ProcessingFailed status (diagnostic status)))
          \<and> shown (snd (run w)) =
              shown st @ [if status = Some ''90'' then SuccessDialog
                          else ErrorDialog (ProcessingFailed status (diagnostic status))]
          \<and> deletions (snd (run w)) =
              (if status = Some ''90'' then [] else map delRequest (tracked st))
          \<and> tracked (snd (run w)) = [])
          \<and> tracked st =
              (if INDI s4 = Some ''2''
               then map (Pair (ITNO s6))
                      (arrivalOrder (arrival w (map (equipRequest w s6) serials)) serials)
               else [])"
  proof cases
    case serial
    note r = serial_run_by_status [OF poll prep warn serial]
    from r(1) r(2) serial(1) show ?thesis
      by simp
  next
    case lot
    note r = lot_run_by_status [OF poll prep warn lot]
    from r(1) r(2) lot(1) show ?thesis
      by simp
  next
    case plain
    note r = plain_run_by_status [OF poll prep warn plain]
    from r(1) r(2) plain(1) show ?thesis
      by simp
  qed
  then show "fst (run w) =
              (if status = Some ''90'' then Succeeded
               else Failed (ProcessingFailed status (diagnostic status)))"
    and "shown (snd (run w)) =
              shown st @ [if status = Some ''90'' then SuccessDialog
                          else ErrorDialog (ProcessingFailed status (diagnostic status))]"
    and "deletions (snd (run w)) =
              (if status = Some ''90'' then [] else map delRequest (tracked st))"
    and "tracked (snd (run w)) = []"
    and "tracked st =
              (if INDI s4 = Some ''2''
               then map (Pair (ITNO s6))
                      (arrivalOrder (arrival w (map (equipRequest w s6) serials)) serials)
               else [])"
    by simp_all
qed

theorem status_decides_the_run_witness:
  "fst (run (sampleWorld ''2'' (sampleRemote ''2'' ''5'' False ''35'') True [[''SN-1'', ''SN-2'']])) = Failed (ProcessingFailed (Some ''35'') PackageLineLevel)
   \<and> shown (snd (run (sampleWorld ''2'' (sampleRemote ''2'' ''5'' False ''35'') True [[''SN-1'', ''SN-2'']]))) = [SerialPrompt 2 [0, 1], ErrorDialog (ProcessingFailed (Some ''35'') PackageLineLevel)]
   \<and> deletions (snd (run (sampleWorld ''2'' (sampleRemote ''2'' ''5'' False ''35'') True [[''SN-1'', ''SN-2'']]))) = [\<lparr>program = ''MMS240MI'', transaction = ''Del'',
          mirecord = [(''ITNO'', Some ''PUMP''), (''SERN'', Some ''SN-1'')],
          maxReturnedRecords = 1\<rparr>,
         \<lparr>program = ''MMS240MI'', transaction = ''Del'',
          mirecord = [(''ITNO'', Some ''PUMP''), (''SERN'', Some ''SN-2'')],
          maxReturnedRecords = 1\<rparr>]
   \<and> tracked (snd (run (sampleWorld ''2'' (sampleRemote ''2'' ''5'' False ''35'') True [[''SN-1'', ''SN-2'']]))) = []
   \<and> fst (run (sampleWorld ''2'' (sampleRemote ''2'' ''5'' False ''90'') True [[''SN-1'', ''SN-2'']])) = Succeeded
   \<and> shown (snd (run (sampleWorld ''2'' (sampleRemote ''2'' ''5'' False ''90'') True [[''SN-1'', ''SN-2'']]))) = [SerialPrompt 2 [0, 1], SuccessDialog]
   \<and> deletions (snd (run (sampleWorld ''2'' (sampleRemote ''2'' ''5'' False ''90'') True [[''SN-1'', ''SN-2'']]))) = []
   \<and> tracked (snd (run (sampleWorld ''2'' (sampleRemote ''2'' ''5'' False ''90'') True [[''SN-1'', ''SN-2'']]))) = []
   \<and> fst (run (sampleLotWorld ''20'')) = Failed (ProcessingFailed (Some ''20'') HeaderLevel)
   \<and> shown (snd (run (sampleLotWorld ''20''))) = [LotPrompt, ErrorDialog (ProcessingFailed (Some ''20'') HeaderLevel)]
   \<and> deletions (snd (run (sampleLotWorld ''20''))) = []
   \<and> tracked (snd (run (sampleLotWorld ''20''))) = []
   \<and> fst (run (sampleWorld ''2'' (sampleRemote ''0'' ''5'' False ''90'') True [])) = Succeeded
   \<and> shown (snd (run (sampleWorld ''2'' (sampleRemote ''0'' ''5'' False ''90'') True []))) = [ConfirmPrompt (Some ''2''), SuccessDialog]
   \<and> deletions (snd (run (sampleWorld ''2'' (sampleRemote ''0'' ''5'' False ''90'') True []))) = []
   \<and> tracked (snd (run (sampleWorld ''2'' (sampleRemote ''0'' ''5'' False ''90'') True []))) = []"
proof -
  have serial35: "fst (run (sampleWorld ''2'' (sampleRemote ''2'' ''5'' False ''35'') True [[''SN-1'', ''SN-2'']])) = Failed (ProcessingFailed (Some ''35'') PackageLineLevel)
     \<and> shown (snd (run (sampleWorld ''2'' (sampleRemote ''2'' ''5'' False ''35'') True [[''SN-1'', ''SN-2'']]))) = [SerialPrompt 2 [0, 1], ErrorDialog (ProcessingFailed (Some ''35'') PackageLineLevel)]
     \<and> deletions (snd (run (sampleWorld ''2'' (sampleRemote ''2'' ''5'' False ''35'') True [[''SN-1'', ''SN-2'']]))) = [\<lparr>program = ''MMS240MI'', transaction = ''Del'',
          mirecord = [(''ITNO'', Some ''PUMP''), (''SERN'', Some ''SN-1'')],
          maxReturnedRecords = 1\<rparr>,
         \<lparr>program = ''MMS240MI'', transaction = ''Del'',
          mirecord = [(''ITNO'', Some ''PUMP''), (''SERN'', Some ''SN-2'')],
          maxReturnedRecords = 1\<rparr>]
     \<and> tracked (snd (run (sampleWorld ''2'' (sampleRemote ''2'' ''5'' False ''35'') True [[''SN-1'', ''SN-2'']]))) = []"
  proof -
  let ?w = "sampleWorld ''2'' (sampleRemote ''2'' ''5'' False ''35'') True [[''SN-1'', ''SN-2'']]"
  let ?serials = "[''SN-1'', ''SN-2'']"
  let ?s3 = "snd (lookupSteps ?w initial)"
  let ?s4 = "snd (warnings ?w ?s3)"
  let ?s5 = "snd (promptSerials ?w ?s4)"
  let ?s6 = "snd (checkSer ?w ?serials ?s5)"
  let ?s7 = "snd (addEquip ?w ?serials ?s6)"
  let ?s8 = "snd (submitAndPoll ?w (serialLines ?serials) ?s7)"
  have "fst (lookupSteps ?w initial) = Inr ()"
    by code_simp
  then have prep: "lookupSteps ?w initial = (Inr (), ?s3)"
    by (simp add: prod_eq_iff)
  have "fst (warnings ?w ?s3) = Inr ()"
    by code_simp
  then have warn: "warnings ?w ?s3 = (Inr (), ?s4)"
    by (simp add: prod_eq_iff)
  have serial: "INDI ?s4 = Some ''2''"
    by code_simp
  have "fst (promptSerials ?w ?s4) = Inr ?serials"
    by code_simp
  then have prompt: "promptSerials ?w ?s4 = (Inr ?serials, ?s5)"
    by (simp add: prod_eq_iff)
  have "fst (checkSer ?w ?serials ?s5) = Inr ()"
    by code_simp
  then have checked: "checkSer ?w ?serials ?s5 = (Inr (), ?s6)"
    by (simp add: prod_eq_iff)
  have "fst (addEquip ?w ?serials ?s6) = Inr ()"
    by code_simp
  then have created: "addEquip ?w ?serials ?s6 = (Inr (), ?s7)"
    by (simp add: prod_eq_iff)
  have "fst (submitAndPoll ?w (serialLines ?serials) ?s7) = Inr (Some ''35'')"
    by code_simp
  then have polled: "submitAndPoll ?w (serialLines ?serials) ?s7 = (Inr (Some ''35''), ?s8)"
    by (simp add: prod_eq_iff)
  have reached: "lookupSteps ?w initial = (Inr (), ?s3) \<and> warnings ?w ?s3 = (Inr (), ?s4)
        \<and> (INDI ?s4 = Some ''2'' \<and> promptSerials ?w ?s4 = (Inr ?serials, ?s5)
             \<and> checkSer ?w ?serials ?s5 = (Inr (), ?s6) \<and> addEquip ?w ?serials ?s6 = (Inr (), ?s7)
             \<and> serialLines ?serials = serialLines ?serials
           \<or> INDI ?s4 = Some ''3'' \<and> promptLot ?w ?s4 = (Inr ([], None), ?s5)
             \<and> checkLot ?w [] ?s5 = (Inr (), ?s7)
             \<and> serialLines ?serials = [\<lparr>BANO = Some [], QTY = RVQA ?s7, EXPI = None\<rparr>]
           \<or> INDI ?s4 \<noteq> Some ''2'' \<and> INDI ?s4 \<noteq> Some ''3'' \<and> promptConfirm ?w ?s4 = (Inr (), ?s7)
             \<and> serialLines ?serials = [\<lparr>BANO = None, QTY = RVQA ?s7, EXPI = None\<rparr>])"
    using prep warn serial prompt checked created by (intro conjI disjI1 refl)
  note r = status_decides_the_run [OF polled, THEN conjunct2, THEN conjunct2, THEN conjunct2, THEN conjunct2, THEN conjunct2, THEN conjunct2, THEN conjunct2, THEN mp, OF reached]
  have a: "fst (run ?w) = Failed (ProcessingFailed (Some ''35'') PackageLineLevel)"
    by (subst r [THEN conjunct1]) code_simp
  have b: "shown (snd (run ?w)) = [SerialPrompt 2 [0, 1], ErrorDialog (ProcessingFailed (Some ''35'') PackageLineLevel)]"
    by (subst r [THEN conjunct2, THEN conjunct1]) code_simp
  have c: "deletions (snd (run ?w)) = [\<lparr>program = ''MMS240MI'', transaction = ''Del'',
          mirecord = [(''ITNO'', Some ''PUMP''), (''SERN'', Some ''SN-1'')],
          maxReturnedRecords = 1\<rparr>,
         \<lparr>program = ''MMS240MI'', transaction = ''Del'',
          mirecord = [(''ITNO'', Some ''PUMP''), (''SERN'', Some ''SN-2'')],
          maxReturnedRecords = 1\<rparr>]"
    by (subst r [THEN conjunct2, THEN conjunct2, THEN conjunct1]) code_simp
  have d: "tracked (snd (run ?w)) = []"
    by (rule r [THEN conjunct2, THEN conjunct2, THEN conjunct2, THEN conjunct1])
  from a b c d show ?thesis
    by (intro conjI)
  qed
  have serial90: "fst (run (sampleWorld ''2'' (sampleRemote ''2'' ''5'' False ''90'') True [[''SN-1'', ''SN-2'']])) = Succeeded
     \<and> shown (snd (run (sampleWorld ''2'' (sampleRemote ''2'' ''5'' False ''90'') True [[''SN-1'', ''SN-2'']]))) = [SerialPrompt 2 [0, 1], SuccessDialog]
     \<and> deletions (snd (run (sampleWorld ''2'' (sampleRemote ''2'' ''5'' False ''90'') True [[''SN-1'', ''SN-2'']]))) = []
     \<and> tracked (snd (run (sampleWorld ''2'' (sampleRemote ''2'' ''5'' False ''90'') True [[''SN-1'', ''SN-2'']]))) = []"
  proof -
  let ?w = "sampleWorld ''2'' (sampleRemote ''2'' ''5'' False ''90'') True [[''SN-1'', ''SN-2'']]"
  let ?serials = "[''SN-1'', ''SN-2'']"
  let ?s3 = "snd (lookupSteps ?w initial)"
  let ?s4 = "snd (warnings ?w ?s3)"
  let ?s5 = "snd (promptSerials ?w ?s4)"
  let ?s6 = "snd (checkSer ?w ?serials ?s5)"
  let ?s7 = "snd (addEquip ?w ?serials ?s6)"
  let ?s8 = "snd (submitAndPoll ?w (serialLines ?serials) ?s7)"
  have "fst (lookupSteps ?w initial) = Inr ()"
    by code_simp
  then have prep: "lookupSteps ?w initial = (Inr (), ?s3)"
    by (simp add: prod_eq_iff)
  have "fst (warnings ?w ?s3) = Inr ()"
    by code_simp
  then have warn: "warnings ?w ?s3 = (Inr (), ?s4)"
    by (simp add: prod_eq_iff)
  have serial: "INDI ?s4 = Some ''2''"
    by code_simp
  have "fst (promptSerials ?w ?s4) = Inr ?serials"
    by code_simp
  then have prompt: "promptSerials ?w ?s4 = (Inr ?serials, ?s5)"
    by (simp add: prod_eq_iff)
  have "fst (checkSer ?w ?serials ?s5) = Inr ()"
    by code_simp
  then have checked: "checkSer ?w ?serials ?s5 = (Inr (), ?s6)"
    by (simp add: prod_eq_iff)
  have "fst (addEquip ?w ?serials ?s6) = Inr ()"
    by code_simp
  then have created: "addEquip ?w ?serials ?s6 = (Inr (), ?s7)"
    by (simp add: prod_eq_iff)
  have "fst (submitAndPoll ?w (serialLines ?serials) ?s7) = Inr (Some ''90'')"
    by code_simp
  then have polled: "submitAndPoll ?w (serialLines ?serials) ?s7 = (Inr (Some ''90''), ?s8)"
    by (simp add: prod_eq_iff)
  have reached: "lookupSteps ?w initial = (Inr (), ?s3) \<and> warnings ?w ?s3 = (Inr (), ?s4)
        \<and> (INDI ?s4 = Some ''2'' \<and> promptSerials ?w ?s4 = (Inr ?serials, ?s5)
             \<and> checkSer ?w ?serials ?s5 = (Inr (), ?s6) \<and> addEquip ?w ?serials ?s6 = (Inr (), ?s7)
             \<and> serialLines ?serials = serialLines ?serials
           \<or> INDI ?s4 = Some ''3'' \<and> promptLot ?w ?s4 = (Inr ([], None), ?s5)
             \<and> checkLot ?w [] ?s5 = (Inr (), ?s7)
             \<and> serialLines ?serials = [\<lparr>BANO = Some [], QTY = RVQA ?s7, EXPI = None\<rparr>]
           \<or> INDI ?s4 \<noteq> Some ''2'' \<and> INDI ?s4 \<noteq> Some ''3'' \<and> promptConfirm ?w ?s4 = (Inr (), ?s7)
             \<and> serialLines ?serials = [\<lparr>BANO = None, QTY = RVQA ?s7, EXPI = None\<rparr>])"
    using prep warn serial prompt checked created by (intro conjI disjI1 refl)
  note r = status_decides_the_run [OF polled, THEN conjunct2, THEN conjunct2, THEN conjunct2, THEN conjunct2, THEN conjunct2, THEN conjunct2, THEN conjunct2, THEN mp, OF reached]
  have a: "fst (run ?w) = Succeeded"
    by (subst r [THEN conjunct1]) code_simp
  have b: "shown (snd (run ?w)) = [SerialPrompt 2 [0, 1], SuccessDialog]"
    by (subst r [THEN conjunct2, THEN conjunct1]) code_simp
  have c: "deletions (snd (run ?w)) = []"
    by (subst r [THEN conjunct2, THEN conjunct2, THEN conjunct1]) code_simp
  have d: "tracked (snd (run ?w)) = []"
    by (rule r [THEN conjunct2, THEN conjunct2, THEN conjunct2, THEN conjunct1])
  from a b c d show ?thesis
    by (intro conjI)
  qed
  have lot20: "fst (run (sampleLotWorld ''20'')) = Failed (ProcessingFailed (Some ''20'') HeaderLevel)
     \<and> shown (snd (run (sampleLotWorld ''20''))) = [LotPrompt, ErrorDialog (ProcessingFailed (Some ''20'') HeaderLevel)]
     \<and> deletions (snd (run (sampleLotWorld ''20''))) = []
     \<and> tracked (snd (run (sampleLotWorld ''20''))) = []"
  proof -
  let ?w = "sampleLotWorld ''20''"
  let ?s3 = "snd (lookupSteps ?w initial)"
  let ?s4 = "snd (warnings ?w ?s3)"
  let ?s5 = "snd (promptLot ?w ?s4)"
  let ?s6 = "snd (checkLot ?w ''LOT-1'' ?s5)"
  let ?lines = "[\<lparr>BANO = Some ''LOT-1'', QTY = RVQA ?s6, EXPI = None\<rparr>]"
  let ?s7 = "snd (submitAndPoll ?w ?lines ?s6)"
  have "fst (lookupSteps ?w initial) = Inr ()"
    by code_simp
  then have prep: "lookupSteps ?w initial = (Inr (), ?s3)"
    by (simp add: prod_eq_iff)
  have "fst (warnings ?w ?s3) = Inr ()"
    by code_simp
  then have warn: "warnings ?w ?s3 = (Inr (), ?s4)"
    by (simp add: prod_eq_iff)
  have lot: "INDI ?s4 = Some ''3''"
    by code_simp
  have "fst (promptLot ?w ?s4) = Inr (''LOT-1'', None)"
    by code_simp
  then have prompt: "promptLot ?w ?s4 = (Inr (''LOT-1'', None), ?s5)"
    by (simp add: prod_eq_iff)
  have "fst (checkLot ?w ''LOT-1'' ?s5) = Inr ()"
    by code_simp
  then have checked: "checkLot ?w ''LOT-1'' ?s5 = (Inr (), ?s6)"
    by (simp add: prod_eq_iff)
  have "fst (submitAndPoll ?w ?lines ?s6) = Inr (Some ''20'')"
    by code_simp
  then have polled: "submitAndPoll ?w ?lines ?s6 = (Inr (Some ''20''), ?s7)"
    by (simp add: prod_eq_iff)
  have reached: "lookupSteps ?w initial = (Inr (), ?s3) \<and> warnings ?w ?s3 = (Inr (), ?s4)
        \<and> (INDI ?s4 = Some ''2'' \<and> promptSerials ?w ?s4 = (Inr [], ?s5)
             \<and> checkSer ?w [] ?s5 = (Inr (), ?s5) \<and> addEquip ?w [] ?s5 = (Inr (), ?s6)
             \<and> ?lines = serialLines []
           \<or> INDI ?s4 = Some ''3'' \<and> promptLot ?w ?s4 = (Inr (''LOT-1'', None), ?s5)
             \<and> checkLot ?w ''LOT-1'' ?s5 = (Inr (), ?s6)
             \<and> ?lines = [\<lparr>BANO = Some ''LOT-1'', QTY = RVQA ?s6, EXPI = None\<rparr>]
           \<or> INDI ?s4 \<noteq> Some ''2'' \<and> INDI ?s4 \<noteq> Some ''3'' \<and> promptConfirm ?w ?s4 = (Inr (), ?s6)
             \<and> ?lines = [\<lparr>BANO = None, QTY = RVQA ?s6, EXPI = None\<rparr>])"
    using prep warn lot prompt checked by (intro conjI disjI2 disjI1 refl)
  note r = status_decides_the_run [OF polled, THEN conjunct2, THEN conjunct2, THEN conjunct2, THEN conjunct2, THEN conjunct2, THEN conjunct2, THEN conjunct2, THEN mp, OF reached]
  have a: "fst (run ?w) = Failed (ProcessingFailed (Some ''20'') HeaderLevel)"
    by (subst r [THEN conjunct1]) code_simp
  have b: "shown (snd (run ?w)) = [LotPrompt, ErrorDialog (ProcessingFailed (Some ''20'') HeaderLevel)]"
    by (subst r [THEN conjunct2, THEN conjunct1]) code_simp
  have c: "deletions (snd (run ?w)) = []"
    by (subst r [THEN conjunct2, THEN conjunct2, THEN conjunct1]) code_simp
  have d: "tracked (snd (run ?w)) = []"
    by (rule r [THEN conjunct2, THEN conjunct2, THEN conjunct2, THEN conjunct1])
  from a b c d show ?thesis
    by (intro conjI)
  qed
  have plain90: "fst (run (sampleWorld ''2'' (sampleRemote ''0'' ''5'' False ''90'') True [])) = Succeeded
     \<and> shown (snd (run (sampleWorld ''2'' (sampleRemote ''0'' ''5'' False ''90'') True []))) = [ConfirmPrompt (Some ''2''), SuccessDialog]
     \<and> deletions (snd (run (sampleWorld ''2'' (sampleRemote ''0'' ''5'' False ''90'') True []))) = []
     \<and> tracked (snd (run (sampleWorld ''2'' (sampleRemote ''0'' ''5'' False ''90'') True []))) = []"
  proof -
  let ?w = "sampleWorld ''2'' (sampleRemote ''0'' ''5'' False ''90'') True []"
  let ?s3 = "snd (lookupSteps ?w initial)"
  let ?s4 = "snd (warnings ?w ?s3)"
  let ?s5 = "snd (promptConfirm ?w ?s4)"
  let ?lines = "[\<lparr>BANO = None, QTY = RVQA ?s5, EXPI = None\<rparr>]"
  let ?s6 = "snd (submitAndPoll ?w ?lines ?s5)"
  have "fst (lookupSteps ?w initial) = Inr ()"
    by code_simp
  then have prep: "lookupSteps ?w initial = (Inr (), ?s3)"
    by (simp add: prod_eq_iff)
  have "fst (warnings ?w ?s3) = Inr ()"
    by code_simp
  then have warn: "warnings ?w ?s3 = (Inr (), ?s4)"
    by (simp add: prod_eq_iff)
  have plain: "INDI ?s4 \<noteq> Some ''2''" "INDI ?s4 \<noteq> Some ''3''"
    by code_simp+
  have "fst (promptConfirm ?w ?s4) = Inr ()"
    by code_simp
  then have confirm: "promptConfirm ?w ?s4 = (Inr (), ?s5)"
    by (simp add: prod_eq_iff)
  have "fst (submitAndPoll ?w ?lines ?s5) = Inr (Some ''90'')"
    by code_simp
  then have polled: "submitAndPoll ?w ?lines ?s5 = (Inr (Some ''90''), ?s6)"
    by (simp add: prod_eq_iff)
  have reached: "lookupSteps ?w initial = (Inr (), ?s3) \<and> warnings ?w ?s3 = (Inr (), ?s4)
        \<and> (INDI ?s4 = Some ''2'' \<and> promptSerials ?w ?s4 = (Inr [], ?s4)
             \<and> checkSer ?w [] ?s4 = (Inr (), ?s4) \<and> addEquip ?w [] ?s4 = (Inr (), ?s5)
             \<and> ?lines = serialLines []
           \<or> INDI ?s4 = Some ''3'' \<and> promptLot ?w ?s4 = (Inr ([], None), ?s4)
             \<and> checkLot ?w [] ?s4 = (Inr (), ?s5)
             \<and> ?lines = [\<lparr>BANO = Some [], QTY = RVQA ?s5, EXPI = None\<rparr>]
           \<or> INDI ?s4 \<noteq> Some ''2'' \<and> INDI ?s4 \<noteq> Some ''3'' \<and> promptConfirm ?w ?s4 = (Inr (), ?s5)
             \<and> ?lines = [\<lparr>BANO = None, QTY = RVQA ?s5, EXPI = None\<rparr>])"
    using prep warn plain confirm by (intro conjI disjI2 refl)
  note r = status_decides_the_run [OF polled, THEN conjunct2, THEN conjunct2, THEN conjunct2, THEN conjunct2, THEN conjunct2, THEN conjunct2, THEN conjunct2, THEN mp, OF reached]
  have a: "fst (run ?w) = Succeeded"
    by (subst r [THEN conjunct1]) code_simp
  have b: "shown (snd (run ?w)) = [ConfirmPrompt (Some ''2''), SuccessDialog]"
    by (subst r [THEN conjunct2, THEN conjunct1]) code_simp
  have c: "deletions (snd (run ?w)) = []"
    by (subst r [THEN conjunct2, THEN conjunct2, THEN conjunct1]) code_simp
  have d: "tracked (snd (run ?w)) = []"
    by (rule r [THEN conjunct2, THEN conjunct2, THEN conjunct2, THEN conjunct1])
  from a b c d show ?thesis
    by (intro conjI)
  qed
  from serial35 serial90 lot20 plain90 show ?thesis
    by (intro conjI) (elim conjE, assumption)+
qed

subsection \<open>The serial branch of a successful run\<close>





lemma packNumber_issue [simp]: "packNumber (issue rq st) = packNumber st"
  by (simp add: packNumber_def issue_def)





lemma headRequest_transaction: "transaction (headRequest st) = ''AddWhsHead''"
  by (simp add: headRequest_def)



lemma map_eq_two:
  assumes "map f q = [a, b]"
  obtains x y where "q = [x, y]" and "f x = a" and "f y = b"
proof (cases q)
  case Nil
  with assms show ?thesis by simp
next
  case (Cons x q')
  with assms that show ?thesis
    by (cases q') auto
qed





subsection \<open>The limit on the number of serials\<close>

text \<open>The requests of the look-ups when they all return.\<close>

lemma lookupSteps_requests:
  assumes "lookupSteps w st = (Inr u, s3)"
  shows "\<exists>rest. map transaction (trace s3)
       = map transaction (trace st)
         @ [''GetLine'', ''GetHead'', ''Get'', ''GetItmBasic'', ''GetBasicData2''] @ rest"
proof -
  from assms obtain v s1 where val: "validateFields w st = (Inr v, s1)"
    and rest1: "andThen (getPOLine w) (\<lambda>_. lookups w) s1 = (Inr u, s3)"
    unfolding lookupSteps_def by (rule andThen_InrE)
  from rest1 obtain g s2 where line: "getPOLine w s1 = (Inr g, s2)"
    and look: "lookups w s2 = (Inr u, s3)"
    by (rule andThen_InrE)
  from look obtain h a where head: "lookupHeader w s2 = (Inr h, a)"
    and rest2: "andThen (lookupWarehouse w) (\<lambda>_. andThen (lookupItem w)
        (\<lambda>_. andThen (lookupRemaining w) (\<lambda>_. lookupCustomer w))) a = (Inr u, s3)"
    unfolding lookups_def by (rule andThen_InrE)
  from rest2 obtain wh b where whs: "lookupWarehouse w a = (Inr wh, b)"
    and rest3: "andThen (lookupItem w)
        (\<lambda>_. andThen (lookupRemaining w) (\<lambda>_. lookupCustomer w)) b = (Inr u, s3)"
    by (rule andThen_InrE)
  from rest3 obtain i c where item: "lookupItem w b = (Inr i, c)"
    and rest4: "andThen (lookupRemaining w) (\<lambda>_. lookupCustomer w) c = (Inr u, s3)"
    by (rule andThen_InrE)
  from rest4 obtain r d where rem: "lookupRemaining w c = (Inr r, d)"
    and cust: "lookupCustomer w d = (Inr u, s3)"
    by (rule andThen_InrE)
  have t1: "trace s1 = trace st"
    using validateFields_keeps(1) [of w st] val by simp
  have t2: "trace s2 = trace s1 @ [getLineRequest s1]"
    using getPOLine_trace [of w s1] line by simp
  have ta: "trace a = trace s2 @ [getHeadRequest s2]"
    using lookupHeader_keeps(1) [of w s2] head by simp
  have tb: "trace b = trace a @ [whsRequest a]"
    using lookupWarehouse_keeps(1) [of w a] whs by simp
  have tc: "trace c = trace b @ [itemRequest b]"
    using lookupItem_keeps(1) [of w b] item by simp
  have td: "trace d = trace c @ [remRequest c]"
    using lookupRemaining_keeps(1) [of w c] rem by simp
  have t3: "trace s3 = trace d
      @ (if RORC d = Some ''3'' \<and> truthy (RORN d) then [customerRequest d] else [])"
    using lookupCustomer_keeps(1) [of w d] cust by simp
  have "map transaction (trace s3)
       = map transaction (trace st)
         @ [''GetLine'', ''GetHead'', ''Get'', ''GetItmBasic'', ''GetBasicData2'']
         @ map transaction
             (if RORC d = Some ''3'' \<and> truthy (RORN d) then [customerRequest d] else [])"
    unfolding t3 td tc tb ta t2 t1
    by (simp add: getLineRequest_def getHeadRequest_def whsRequest_def itemRequest_def
        remRequest_def)
  then show ?thesis
    by (rule exI)
qed

lemma promptSerials_limit:
  "num (RVQA st) > of_nat MAX_SERIALS \<Longrightarrow>
   promptSerials w st = (Inl (LimitExceeded (num (RVQA st)) 25), st)"
  by (simp add: promptSerials_def Let_def MAX_SERIALS_def)

lemma limit_run:
  assumes prep: "lookupSteps w initial = (Inr (), s3)"
    and warn: "warnings w s3 = (Inr (), s4)"
    and serial: "INDI s4 = Some ''2''"
    and over: "num (RVQA s4) > of_nat MAX_SERIALS"
  shows "run w = report (Inl (LimitExceeded (num (RVQA s4)) 25), s4)"
  using run_from_branch [OF prep warn] serial promptSerials_limit [OF over, of w]
  by (simp add: branch_def serialBranch_def andThen_def)

text \<open>
  Claim C4, as amended. In a run that reaches the serial branch with a received quantity
  above 25, the run fails with the limit error and shows the error dialog without any
  serial dialog before it. By then the look-ups have issued their requests, at least the
  five for the line, the header, the warehouse, the item and the remaining quantity, and
  every request of the run is one of these look-ups: no request is issued after the
  warnings.
\<close>

theorem limit_exceeded_after_lookups:
  assumes prep: "lookupSteps w initial = (Inr (), s3)"
    and warn: "warnings w s3 = (Inr (), s4)"
    and serial: "INDI s4 = Some ''2''"
    and over: "num (RVQA s4) > of_nat MAX_SERIALS"
  shows "fst (run w) = Failed (LimitExceeded (num (RVQA s4)) 25)
     \<and> shown (snd (run w)) = shown s4 @ [ErrorDialog (LimitExceeded (num (RVQA s4)) 25)]
     \<and> trace (snd (run w)) = trace s3
     \<and> take 5 (map transaction (trace (snd (run w))))
         = [''GetLine'', ''GetHead'', ''Get'', ''GetItmBasic'', ''GetBasicData2'']
     \<and> list_all (\<lambda>rq. transaction rq \<in> set lookupTransactions) (trace (snd (run w)))"
proof -
  note run = limit_run [OF prep warn serial over]
  have t4: "trace s4 = trace s3"
    using warnings_trace [of w s3] warn by simp
  from lookupSteps_requests [OF prep] obtain rest
    where "map transaction (trace s3)
       = map transaction (trace initial)
         @ [''GetLine'', ''GetHead'', ''Get'', ''GetItmBasic'', ''GetBasicData2''] @ rest"
    by blast
  then have first: "take 5 (map transaction (trace s3))
      = [''GetLine'', ''GetHead'', ''Get'', ''GetItmBasic'', ''GetBasicData2'']"
    by (simp add: initial_def)
  have looks: "list_all (\<lambda>rq. transaction rq \<in> set lookupTransactions) (trace s3)"
    using lookupSteps_initial [of w] prep by simp
  have a: "fst (run w) = Failed (LimitExceeded (num (RVQA s4)) 25)"
    unfolding run by (simp add: report_def)
  have b: "shown (snd (run w)) = shown s4 @ [ErrorDialog (LimitExceeded (num (RVQA s4)) 25)]"
    unfolding run by (simp add: report_def)
  have c: "trace (snd (run w)) = trace s3"
    unfolding run by (simp add: report_def t4)
  from a b c first looks show ?thesis
    by simp
qed

theorem limit_exceeded_after_lookups_witness:
  "fst (run (sampleWorld ''30'' (sampleRemote ''2'' ''50'' False ''90'') True [])) =
     Failed (LimitExceeded 30 25)
   \<and> shown (snd (run (sampleWorld ''30'' (sampleRemote ''2'' ''50'' False ''90'') True []))) =
     [ErrorDialog (LimitExceeded 30 25)]
   \<and> list_all (\<lambda>rq. transaction rq \<in> set lookupTransactions)
       (trace (snd (run (sampleWorld ''30'' (sampleRemote ''2'' ''50'' False ''90'') True []))))"
proof -
  let ?w = "sampleWorld ''30'' (sampleRemote ''2'' ''50'' False ''90'') True []"
  let ?s3 = "snd (lookupSteps ?w initial)"
  let ?s4 = "snd (warnings ?w ?s3)"
  have "fst (lookupSteps ?w initial) = Inr ()"
    by code_simp
  then have prep: "lookupSteps ?w initial = (Inr (), ?s3)"
    by (simp add: prod_eq_iff)
  have "fst (warnings ?w ?s3) = Inr ()"
    by code_simp
  then have warn: "warnings ?w ?s3 = (Inr (), ?s4)"
    by (simp add: prod_eq_iff)
  have serial: "INDI ?s4 = Some ''2''"
    by code_simp
  have qty: "num (RVQA ?s4) = 30"
    by code_simp
  have over: "num (RVQA ?s4) > of_nat MAX_SERIALS"
    unfolding qty by (simp add: MAX_SERIALS_def)
  have quiet: "shown ?s4 = []"
    by code_simp
  note r = limit_exceeded_after_lookups [OF prep warn serial over]
  have a: "fst (run ?w) = Failed (LimitExceeded 30 25)"
    using r [THEN conjunct1] unfolding qty .
  have b: "shown (snd (run ?w)) = [ErrorDialog (LimitExceeded 30 25)]"
    using r [THEN conjunct2, THEN conjunct1] unfolding qty quiet by simp
  have c: "list_all (\<lambda>rq. transaction rq \<in> set lookupTransactions) (trace (snd (run ?w)))"
    by (rule r [THEN conjunct2, THEN conjunct2, THEN conjunct2, THEN conjunct2])
  from a b c show ?thesis
    by (intro conjI)
qed

text \<open>
  The claim as first stated fails: with a received quantity of 30 the run fails with the
  limit error after five requests to the remote system.
\<close>

theorem remote_calls_before_limit_error_counterexample:
  "fst (run (sampleWorld ''30'' (sampleRemote ''2'' ''50'' False ''90'') True [])) =
     Failed (LimitExceeded 30 25)
   \<and> map (\<lambda>rq. (program rq, transaction rq))
       (trace (snd (run (sampleWorld ''30'' (sampleRemote ''2'' ''50'' False ''90'') True []))))
     = [(''PPS200MI'', ''GetLine''), (''PPS200MI'', ''GetHead''), (''MMS009MI'', ''Get''),
        (''MMS200MI'', ''GetItmBasic''), (''PPS001MI'', ''GetBasicData2'')]"
proof (intro conjI)
  show "fst (run (sampleWorld ''30'' (sampleRemote ''2'' ''50'' False ''90'') True [])) =
     Failed (LimitExceeded 30 25)"
    by code_simp
  show "map (\<lambda>rq. (program rq, transaction rq))
       (trace (snd (run (sampleWorld ''30'' (sampleRemote ''2'' ''50'' False ''90'') True []))))
     = [(''PPS200MI'', ''GetLine''), (''PPS200MI'', ''GetHead''), (''MMS009MI'', ''Get''),
        (''MMS200MI'', ''GetItmBasic''), (''PPS001MI'', ''GetBasicData2'')]"
    by code_simp
qed

subsection \<open>The warnings\<close>










subsection \<open>Quantities that are not positive\<close>

lemma num_parse:
  "num (Some s) = (case parseFloat (filter numChar s) of None \<Rightarrow> 0 | Some x \<Rightarrow> x)"
proof (cases "s = []")
  case True
  have "parseFloat ''0'' = Some 0" and "parseFloat [] = None"
    by code_simp+
  with True show ?thesis
    by (simp add: num_def truthy_def numChar_def isDigit_def)
next
  case False
  then show ?thesis
    by (simp add: num_def truthy_def)
qed

lemma num_null: "num None = 0"
  by code_simp

lemma no_fields: "qty \<le> 0 \<Longrightarrow> fieldIndices qty 0 = []"
  by (simp add: fieldIndices.simps)

lemma saveSerials_zero: "saveSerials 0 vals = Inr []"
  by (simp add: saveSerials_def no_fields)

lemma saveSerials_negative: "qty < 0 \<Longrightarrow> saveSerials qty vals = Inl (DuplicatesDetected [])"
  by (simp add: saveSerials_def no_fields)

lemma serialDialog_zero:
  "attempts \<noteq> [] \<Longrightarrow> serialDialog 0 attempts = ([], Inr [])"
  by (cases attempts) (simp_all add: saveSerials_zero)

lemma serialDialog_negative:
  "qty < 0 \<Longrightarrow>
   serialDialog qty attempts =
     (replicate (length attempts) (DuplicatesDetected []),
      Inl (UserCancelled ''Serial input cancelled by user''))"
  by (induction attempts) (simp_all add: saveSerials_negative)

lemma promptSerials_zero:
  assumes "num (RVQA st) = 0" and "serialAttempts w \<noteq> []"
  shows "promptSerials w st = (Inr [], st\<lparr>shown := shown st @ [SerialPrompt 0 []]\<rparr>)"
  using assms by (simp add: promptSerials_def Let_def serialDialog_zero no_fields)

lemma promptSerials_negative:
  assumes "num (RVQA st) < 0"
  shows "promptSerials w st =
       (Inl (UserCancelled ''Serial input cancelled by user''),
        st\<lparr>shown := shown st @ SerialPrompt (num (RVQA st)) []
                     # replicate (length (serialAttempts w)) (DuplicatesDetected [])\<rparr>)"
proof -
  have "\<not> num (RVQA st) > of_nat MAX_SERIALS"
    using assms by (simp add: MAX_SERIALS_def)
  with assms show ?thesis
    by (simp add: promptSerials_def Let_def serialDialog_negative no_fields)
qed

text \<open>The requests for a line of the receipt among those issued so far.\<close>

lemma lines_issue:
  "transaction rq \<noteq> ''AddWhsLine'' \<Longrightarrow>
   filter (\<lambda>rq. transaction rq = ''AddWhsLine'') (trace (issue rq st))
     = filter (\<lambda>rq. transaction rq = ''AddWhsLine'') (trace st)"
  by (simp add: issue_def)

lemma no_line_submitted:
  "filter (\<lambda>rq. transaction rq = ''AddWhsLine'') (trace (snd (submitAndPoll w [] st)))
     = filter (\<lambda>rq. transaction rq = ''AddWhsLine'') (trace st)"
proof -
  have h: "\<And>st. filter (\<lambda>rq. transaction rq = ''AddWhsLine'') (trace (snd (addWhsHead w st)))
      = filter (\<lambda>rq. transaction rq = ''AddWhsLine'') (trace st)"
    by (simp add: addWhsHead_def Let_def headRequest_def issue_def
        split: mi_outcome.splits option.splits)
  have p: "\<And>st. filter (\<lambda>rq. transaction rq = ''AddWhsLine'') (trace (snd (addWhsPack w st)))
      = filter (\<lambda>rq. transaction rq = ''AddWhsLine'') (trace st)"
    by (simp add: addWhsPack_def Let_def packRequest_def issue_def split: mi_outcome.splits)
  have l: "\<And>st. filter (\<lambda>rq. transaction rq = ''AddWhsLine'') (trace (snd (addWhsLines w [] st)))
      = filter (\<lambda>rq. transaction rq = ''AddWhsLine'') (trace st)"
    by (simp add: addWhsLines_def Let_def split: option.splits)
  have c: "\<And>st. filter (\<lambda>rq. transaction rq = ''AddWhsLine'') (trace (snd (prcWhsTran w st)))
      = filter (\<lambda>rq. transaction rq = ''AddWhsLine'') (trace st)"
    by (simp add: prcWhsTran_def Let_def prcRequest_def issue_def
        split: mi_outcome.splits option.splits)
  have g: "\<And>st. filter (\<lambda>rq. transaction rq = ''AddWhsLine'') (trace (snd (getWhsHead w st)))
      = filter (\<lambda>rq. transaction rq = ''AddWhsLine'') (trace st)"
    by (simp add: getWhsHead_def Let_def statusRequest_def issue_def
        split: mi_outcome.splits option.splits)
  show ?thesis
    unfolding submitAndPoll_def
    by (intro andThen_keeps [where p = "\<lambda>st. filter (\<lambda>rq. transaction rq = ''AddWhsLine'') (trace st)"]
        h p l c g)
qed

lemma lines_rollback:
  "filter (\<lambda>rq. transaction rq = ''AddWhsLine'') (trace (rollbackEquipment w st))
     = filter (\<lambda>rq. transaction rq = ''AddWhsLine'') (trace st)"
  by (simp add: rollbackEquipment_trace filter_empty_conv)

lemma no_line_in_empty_receipt:
  "filter (\<lambda>rq. transaction rq = ''AddWhsLine'') (trace (snd (serialReceipt w [] st)))
     = filter (\<lambda>rq. transaction rq = ''AddWhsLine'') (trace st)"
proof -
  have c: "\<And>status st. filter (\<lambda>rq. transaction rq = ''AddWhsLine'')
        (trace (snd (checkStatus w status st)))
      = filter (\<lambda>rq. transaction rq = ''AddWhsLine'') (trace st)"
    by (simp add: checkStatus_eq lines_rollback)
  have p: "filter (\<lambda>rq. transaction rq = ''AddWhsLine'')
        (trace (snd (process w (serialLines []) False st)))
      = filter (\<lambda>rq. transaction rq = ''AddWhsLine'') (trace st)"
    unfolding process_def serialLines_def list.map
    by (intro andThen_keeps [where p = "\<lambda>st. filter (\<lambda>rq. transaction rq = ''AddWhsLine'') (trace st)"]
        no_line_submitted c)
  show ?thesis
  proof (cases "process w (serialLines []) False st")
    case (Pair r st1)
    with p have "filter (\<lambda>rq. transaction rq = ''AddWhsLine'') (trace st1)
        = filter (\<lambda>rq. transaction rq = ''AddWhsLine'') (trace st)"
      by simp
    with Pair show ?thesis
      by (cases r) (simp_all add: serialReceipt_def lines_rollback)
  qed
qed

lemma checkSer_empty: "checkSer w [] st = (Inr (), st)"
  by (simp add: checkSer_def Let_def arrivalOrder.simps)

lemma addEquip_empty:
  "addEquip w [] st = (Inr (), st\<lparr>createdEquipment := Some []\<rparr>)"
  by (simp add: addEquip_def Let_def arrivalOrder.simps)

lemma zero_quantity_run:
  assumes prep: "lookupSteps w initial = (Inr (), s3)"
    and warn: "warnings w s3 = (Inr (), s4)"
    and serial: "INDI s4 = Some ''2''"
    and zero: "num (RVQA s4) = 0"
    and click: "serialAttempts w \<noteq> []"
  shows "run w = report (serialReceipt w []
           (s4\<lparr>shown := shown s4 @ [SerialPrompt 0 []], createdEquipment := Some []\<rparr>))"
    and "filter (\<lambda>rq. transaction rq = ''AddWhsLine'') (trace (snd (run w))) = []"
proof -
  show run: "run w = report (serialReceipt w []
           (s4\<lparr>shown := shown s4 @ [SerialPrompt 0 []], createdEquipment := Some []\<rparr>))"
    using run_from_branch [OF prep warn] serial promptSerials_zero [OF zero click]
    by (simp add: branch_def serialBranch_def andThen_def checkSer_empty addEquip_empty)
  have "filter (\<lambda>rq. transaction rq = ''AddWhsLine'') (trace s4) = []"
    by (rule filter_of_lookups [OF nothing_after_warnings(1) [OF prep warn]])
      (simp add: lookupTransactions_def)
  then show "filter (\<lambda>rq. transaction rq = ''AddWhsLine'') (trace (snd (run w))) = []"
    unfolding run report_keeps no_line_in_empty_receipt by simp
qed

lemma negative_quantity_run:
  assumes prep: "lookupSteps w initial = (Inr (), s3)"
    and warn: "warnings w s3 = (Inr (), s4)"
    and serial: "INDI s4 = Some ''2''"
    and neg: "num (RVQA s4) < 0"
  shows "fst (run w) = Failed (UserCancelled ''Serial input cancelled by user'')"
    and "shown (snd (run w)) =
       shown s4 @ SerialPrompt (num (RVQA s4)) []
                  # replicate (length (serialAttempts w)) (DuplicatesDetected [])
       @ [ErrorDialog (UserCancelled ''Serial input cancelled by user'')]"
    and "trace (snd (run w)) = trace s4"
proof -
  have run: "run w = report (Inl (UserCancelled ''Serial input cancelled by user''),
        s4\<lparr>shown := shown s4 @ SerialPrompt (num (RVQA s4)) []
                     # replicate (length (serialAttempts w)) (DuplicatesDetected [])\<rparr>)"
    using run_from_branch [OF prep warn] serial promptSerials_negative [OF neg, of w]
    by (simp add: branch_def serialBranch_def andThen_def)
  show "fst (run w) = Failed (UserCancelled ''Serial input cancelled by user'')"
    unfolding run by (simp add: report_def)
  show "shown (snd (run w)) =
       shown s4 @ SerialPrompt (num (RVQA s4)) []
                  # replicate (length (serialAttempts w)) (DuplicatesDetected [])
       @ [ErrorDialog (UserCancelled ''Serial input cancelled by user'')]"
    unfolding run by (simp add: report_def)
  show "trace (snd (run w)) = trace s4"
    unfolding run by (simp add: report_def)
qed

text \<open>
  Claim C9, as amended. \<^verbatim>\<open>num\<close> removes every character but digits, dots and minus signs,
  reads the rest as a decimal number, and gives 0 for a missing or empty value and for a
  rest that is no number. A quantity that is not positive gives a serial dialog without
  fields. When the quantity is 0, the Save handler accepts the empty batch, and a run of
  the serial branch in which the operator clicks Save goes on to the receipt with no
  serial and issues no request for a line. When the quantity is negative, the Save
  handler refuses the empty batch with the duplicates message, whatever the operator
  enters, and the run of the serial branch fails as cancelled without a request after the
  look-ups.
\<close>

theorem quantity_that_is_not_positive:
  "num None = 0
   \<and> num (Some []) = 0
   \<and> num (Some s) = (case parseFloat (filter numChar s) of None \<Rightarrow> 0 | Some x \<Rightarrow> x)
   \<and> numChar c = (c \<in> set ''0123456789.-'')
   \<and> (num (RVQA st) \<le> 0 \<longrightarrow> fieldIndices (num (RVQA st)) 0 = [])
   \<and> saveSerials 0 vals = Inr []
   \<and> (qty < 0 \<longrightarrow> saveSerials qty vals = Inl (DuplicatesDetected []))
   \<and> (lookupSteps w initial = (Inr (), s3) \<and> warnings w s3 = (Inr (), s4)
      \<and> INDI s4 = Some ''2'' \<and> num (RVQA s4) = 0 \<and> serialAttempts w \<noteq> []
      \<longrightarrow> run w = report (serialReceipt w []
             (s4\<lparr>shown := shown s4 @ [SerialPrompt 0 []], createdEquipment := Some []\<rparr>))
        \<and> filter (\<lambda>rq. transaction rq = ''AddWhsLine'') (trace (snd (run w))) = [])
   \<and> (lookupSteps w initial = (Inr (), s3) \<and> warnings w s3 = (Inr (), s4)
      \<and> INDI s4 = Some ''2'' \<and> num (RVQA s4) < 0
      \<longrightarrow> fst (run w) = Failed (UserCancelled ''Serial input cancelled by user'')
        \<and> shown (snd (run w)) =
            shown s4 @ SerialPrompt (num (RVQA s4)) []
                       # replicate (length (serialAttempts w)) (DuplicatesDetected [])
            @ [ErrorDialog (UserCancelled ''Serial input cancelled by user'')]
        \<and> trace (snd (run w)) = trace s4)"
proof (intro conjI impI)
  show "num None = 0"
    by (rule num_null)
  show "num (Some []) = 0"
    by code_simp
  show "num (Some s) = (case parseFloat (filter numChar s) of None \<Rightarrow> 0 | Some x \<Rightarrow> x)"
    by (rule num_parse)
  show "numChar c = (c \<in> set ''0123456789.-'')"
    by (auto simp: numChar_def isDigit_def)
  show "fieldIndices (num (RVQA st)) 0 = []" if "num (RVQA st) \<le> 0"
    using that by (rule no_fields)
  show "saveSerials 0 vals = Inr []"
    by (rule saveSerials_zero)
  show "saveSerials qty vals = Inl (DuplicatesDetected [])" if "qty < 0"
    using that by (rule saveSerials_negative)
next
  assume a: "lookupSteps w initial = (Inr (), s3) \<and> warnings w s3 = (Inr (), s4)
      \<and> INDI s4 = Some ''2'' \<and> num (RVQA s4) = 0 \<and> serialAttempts w \<noteq> []"
  then have prep: "lookupSteps w initial = (Inr (), s3)" and warn: "warnings w s3 = (Inr (), s4)"
    and serial: "INDI s4 = Some ''2''" and zero: "num (RVQA s4) = 0"
    and click: "serialAttempts w \<noteq> []"
    by simp_all
  note z = zero_quantity_run [OF prep warn serial zero click]
  show "run w = report (serialReceipt w []
             (s4\<lparr>shown := shown s4 @ [SerialPrompt 0 []], createdEquipment := Some []\<rparr>))"
    by (rule z)
  show "filter (\<lambda>rq. transaction rq = ''AddWhsLine'') (trace (snd (run w))) = []"
    by (rule z)
next
  assume a: "lookupSteps w initial = (Inr (), s3) \<and> warnings w s3 = (Inr (), s4)
      \<and> INDI s4 = Some ''2'' \<and> num (RVQA s4) < 0"
  then have prep: "lookupSteps w initial = (Inr (), s3)" and warn: "warnings w s3 = (Inr (), s4)"
    and serial: "INDI s4 = Some ''2''" and neg: "num (RVQA s4) < 0"
    by simp_all
  note n = negative_quantity_run [OF prep warn serial neg]
  show "fst (run w) = Failed (UserCancelled ''Serial input cancelled by user'')"
    by (rule n)
  show "shown (snd (run w)) =
            shown s4 @ SerialPrompt (num (RVQA s4)) []
                       # replicate (length (serialAttempts w)) (DuplicatesDetected [])
            @ [ErrorDialog (UserCancelled ''Serial input cancelled by user'')]"
    by (rule n)
  show "trace (snd (run w)) = trace s4"
    by (rule n)
qed

theorem quantity_that_is_not_positive_witness:
  "fst (run (sampleWorld ''abc'' (sampleRemote ''2'' ''5'' False ''90'') True [[]])) = Succeeded
   \<and> shown (snd (run (sampleWorld ''abc'' (sampleRemote ''2'' ''5'' False ''90'') True [[]]))) =
     [SerialPrompt 0 [], SuccessDialog]
   \<and> map transaction
       (trace (snd (run (sampleWorld ''abc'' (sampleRemote ''2'' ''5'' False ''90'') True [[]]))))
     = [''GetLine'', ''GetHead'', ''Get'', ''GetItmBasic'', ''GetBasicData2'', ''AddWhsHead'',
        ''AddWhsPack'', ''PrcWhsTran'', ''GetWhsHead'']
   \<and> fst (run (sampleWorld ''-3'' (sampleRemote ''2'' ''5'' False ''90'') True [[]])) =
     Failed (UserCancelled ''Serial input cancelled by user'')
   \<and> shown (snd (run (sampleWorld ''-3'' (sampleRemote ''2'' ''5'' False ''90'') True [[]]))) =
     [SerialPrompt (- 3) [], DuplicatesDetected [],
      ErrorDialog (UserCancelled ''Serial input cancelled by user'')]"
proof -
  have zero: "fst (run (sampleWorld ''abc'' (sampleRemote ''2'' ''5'' False ''90'') True [[]])) =
       Succeeded
     \<and> shown (snd (run (sampleWorld ''abc'' (sampleRemote ''2'' ''5'' False ''90'') True [[]]))) =
       [SerialPrompt 0 [], SuccessDialog]
     \<and> map transaction
         (trace (snd (run (sampleWorld ''abc'' (sampleRemote ''2'' ''5'' False ''90'') True [[]]))))
       = [''GetLine'', ''GetHead'', ''Get'', ''GetItmBasic'', ''GetBasicData2'', ''AddWhsHead'',
          ''AddWhsPack'', ''PrcWhsTran'', ''GetWhsHead'']"
  proof -
    let ?w = "sampleWorld ''abc'' (sampleRemote ''2'' ''5'' False ''90'') True [[]]"
    let ?s3 = "snd (lookupSteps ?w initial)"
    let ?s4 = "snd (warnings ?w ?s3)"
    have "fst (lookupSteps ?w initial) = Inr ()"
      by code_simp
    then have prep: "lookupSteps ?w initial = (Inr (), ?s3)"
      by (simp add: prod_eq_iff)
    have "fst (warnings ?w ?s3) = Inr ()"
      by code_simp
    then have warn: "warnings ?w ?s3 = (Inr (), ?s4)"
      by (simp add: prod_eq_iff)
    have serial: "INDI ?s4 = Some ''2''"
      by code_simp
    have qty: "num (RVQA ?s4) = 0"
      by code_simp
    have click: "serialAttempts ?w \<noteq> []"
      by (simp add: sampleWorld_def)
    have reached: "lookupSteps ?w initial = (Inr (), ?s3) \<and> warnings ?w ?s3 = (Inr (), ?s4)
        \<and> INDI ?s4 = Some ''2'' \<and> num (RVQA ?s4) = 0 \<and> serialAttempts ?w \<noteq> []"
      using prep warn serial qty click by (intro conjI)
    note r = quantity_that_is_not_positive [THEN conjunct2, THEN conjunct2, THEN conjunct2,
        THEN conjunct2, THEN conjunct2, THEN conjunct2, THEN conjunct2, THEN conjunct1, THEN mp,
        OF reached]
    have a: "fst (run ?w) = Succeeded"
      by (subst r [THEN conjunct1]) code_simp
    have b: "shown (snd (run ?w)) = [SerialPrompt 0 [], SuccessDialog]"
      by (subst r [THEN conjunct1]) code_simp
    have c: "map transaction (trace (snd (run ?w)))
       = [''GetLine'', ''GetHead'', ''Get'', ''GetItmBasic'', ''GetBasicData2'', ''AddWhsHead'',
          ''AddWhsPack'', ''PrcWhsTran'', ''GetWhsHead'']"
      by (subst r [THEN conjunct1]) code_simp
    from a b c show ?thesis
      by (intro conjI)
  qed
  have negative: "fst (run (sampleWorld ''-3'' (sampleRemote ''2'' ''5'' False ''90'') True [[]])) =
       Failed (UserCancelled ''Serial input cancelled by user'')
     \<and> shown (snd (run (sampleWorld ''-3'' (sampleRemote ''2'' ''5'' False ''90'') True [[]]))) =
       [SerialPrompt (- 3) [], DuplicatesDetected [],
        ErrorDialog (UserCancelled ''Serial input cancelled by user'')]"
  proof -
    let ?w = "sampleWorld ''-3'' (sampleRemote ''2'' ''5'' False ''90'') True [[]]"
    let ?s3 = "snd (lookupSteps ?w initial)"
    let ?s4 = "snd (warnings ?w ?s3)"
    have "fst (lookupSteps ?w initial) = Inr ()"
      by code_simp
    then have prep: "lookupSteps ?w initial = (Inr (), ?s3)"
      by (simp add: prod_eq_iff)
    have "fst (warnings ?w ?s3) = Inr ()"
      by code_simp
    then have warn: "warnings ?w ?s3 = (Inr (), ?s4)"
      by (simp add: prod_eq_iff)
    have serial: "INDI ?s4 = Some ''2''"
      by code_simp
    have qty: "num (RVQA ?s4) = - 3"
      by code_simp
    have quiet: "shown ?s4 = []"
      by code_simp
    have clicks: "length (serialAttempts ?w) = 1"
      by (simp add: sampleWorld_def)
    have reached: "lookupSteps ?w initial = (Inr (), ?s3) \<and> warnings ?w ?s3 = (Inr (), ?s4)
        \<and> INDI ?s4 = Some ''2'' \<and> num (RVQA ?s4) < 0"
      using prep warn serial unfolding qty by (intro conjI) simp_all
    note r = quantity_that_is_not_positive [THEN conjunct2, THEN conjunct2, THEN conjunct2,
        THEN conjunct2, THEN conjunct2, THEN conjunct2, THEN conjunct2, THEN conjunct2, THEN mp,
        OF reached]
    have a: "fst (run ?w) = Failed (UserCancelled ''Serial input cancelled by user'')"
      by (rule r [THEN conjunct1])
    have b: "shown (snd (run ?w)) =
       [SerialPrompt (- 3) [], DuplicatesDetected [],
        ErrorDialog (UserCancelled ''Serial input cancelled by user'')]"
      using r [THEN conjunct2, THEN conjunct1] unfolding qty quiet clicks by simp
    from a b show ?thesis
      by (intro conjI)
  qed
  from zero negative show ?thesis
    by (intro conjI) (elim conjE, assumption)+
qed

text \<open>
  The claim as first stated fails for a negative quantity: the received quantity \<open>-3\<close> is
  not positive and the dialog has no field, but each click on Save is answered with the
  duplicates message, the empty batch is not accepted, and the run ends as cancelled
  with no request after the look-ups.
\<close>

theorem empty_batch_refused_counterexample:
  "num (RVQA (snd (run (sampleWorld ''-3'' (sampleRemote ''2'' ''5'' False ''90'') True [[], []]))))
     = - 3
   \<and> fst (run (sampleWorld ''-3'' (sampleRemote ''2'' ''5'' False ''90'') True [[], []])) =
     Failed (UserCancelled ''Serial input cancelled by user'')
   \<and> shown (snd (run (sampleWorld ''-3'' (sampleRemote ''2'' ''5'' False ''90'') True [[], []]))) =
     [SerialPrompt (- 3) [], DuplicatesDetected [], DuplicatesDetected [],
      ErrorDialog (UserCancelled ''Serial input cancelled by user'')]
   \<and> map transaction
       (trace (snd (run (sampleWorld ''-3'' (sampleRemote ''2'' ''5'' False ''90'') True [[], []]))))
     = [''GetLine'', ''GetHead'', ''Get'', ''GetItmBasic'', ''GetBasicData2'']"
proof (intro conjI)
  show "num (RVQA (snd (run (sampleWorld ''-3'' (sampleRemote ''2'' ''5'' False ''90'') True
      [[], []])))) = - 3"
    by code_simp
  show "fst (run (sampleWorld ''-3'' (sampleRemote ''2'' ''5'' False ''90'') True [[], []])) =
     Failed (UserCancelled ''Serial input cancelled by user'')"
    by code_simp
  show "shown (snd (run (sampleWorld ''-3'' (sampleRemote ''2'' ''5'' False ''90'') True [[], []]))) =
     [SerialPrompt (- 3) [], DuplicatesDetected [], DuplicatesDetected [],
      ErrorDialog (UserCancelled ''Serial input cancelled by user'')]"
    by code_simp
  show "map transaction
       (trace (snd (run (sampleWorld ''-3'' (sampleRemote ''2'' ''5'' False ''90'') True [[], []]))))
     = [''GetLine'', ''GetHead'', ''Get'', ''GetItmBasic'', ''GetBasicData2'']"
    by code_simp
qed

end
